theory Spec2Isabelle
  imports Main "HOL-Library.Word" "HOL-Library.Signed_Division"
begin

unbundle bit_operations_syntax

section \<open>Bytes, C strings and character classes\<close>

text \<open>
  A \<^verbatim>\<open>struct lil_value\<close> is a byte buffer \<^verbatim>\<open>d\<close> of length \<^verbatim>\<open>l\<close>; it is modelled by the
  list of its \<^verbatim>\<open>l\<close> bytes. A nullable \<^verbatim>\<open>struct lil_value *\<close> is a \<open>string option\<close>.
  Allocation is taken to succeed. Whenever the source hands a buffer to a C string
  function (\<^verbatim>\<open>strcmp\<close>, \<^verbatim>\<open>strlen\<close>, \<^verbatim>\<open>strdup\<close>, a hash key), that function sees the bytes up to
  the first NUL: \<open>cstr\<close>.
\<close>

definition NUL :: char where
  "NUL = CHR 0x00"

definition cstr :: "string \<Rightarrow> string" where
  "cstr s = takeWhile (\<lambda>c. c \<noteq> NUL) s"

definition strlen :: "string \<Rightarrow> nat" where
  "strlen s = length (cstr s)"

text \<open>
  Modelled from the spec: the header \<^verbatim>\<open>ctype.h\<close> that declares \<^verbatim>\<open>isspace\<close>, \<^verbatim>\<open>ispunct\<close> and
  \<^verbatim>\<open>isdigit\<close> is not among the sources; the specification fixes byte-level ASCII
  classification, so the three predicates are those of the C locale.
\<close>

definition isspace :: "char \<Rightarrow> bool" where
  "isspace c = (let k = (of_char c :: nat) in k = 32 \<or> (9 \<le> k \<and> k \<le> 13))"

definition isdigit :: "char \<Rightarrow> bool" where
  "isdigit c = (let k = (of_char c :: nat) in 48 \<le> k \<and> k \<le> 57)"

definition ispunct :: "char \<Rightarrow> bool" where
  "ispunct c = (let k = (of_char c :: nat) in
     (33 \<le> k \<and> k \<le> 47) \<or> (58 \<le> k \<and> k \<le> 64) \<or> (91 \<le> k \<and> k \<le> 96) \<or> (123 \<le> k \<and> k \<le> 126))"

definition iscntrl :: "char \<Rightarrow> bool" where
  "iscntrl c = (let k = (of_char c :: nat) in k < 32 \<or> k = 127)"

section \<open>Values and lists\<close>

text \<open>\<^verbatim>\<open>lil_to_string\<close>: the C string seen through a value pointer.\<close>

definition lil_to_string :: "string option \<Rightarrow> string" where
  "lil_to_string val = (case val of None \<Rightarrow> [] | Some d \<Rightarrow> if length d \<noteq> 0 then cstr d else [])"

text \<open>\<^verbatim>\<open>alloc_value(str)\<close> copies \<^verbatim>\<open>strlen(str)\<close> bytes; a null \<^verbatim>\<open>str\<close> gives the empty value.\<close>

definition alloc_value :: "string option \<Rightarrow> string" where
  "alloc_value str = (case str of None \<Rightarrow> [] | Some s \<Rightarrow> cstr s)"

definition lil_clone_value :: "string option \<Rightarrow> string option" where
  "lil_clone_value src = src"

definition lil_append_char :: "string \<Rightarrow> char \<Rightarrow> string" where
  "lil_append_char val ch = val @ [ch]"

text \<open>\<^verbatim>\<open>lil_append_string\<close> appends the C string \<open>s\<close>.\<close>

definition lil_append_string :: "string \<Rightarrow> string \<Rightarrow> string" where
  "lil_append_string val s = val @ cstr s"

text \<open>\<^verbatim>\<open>lil_append_val\<close> appends all \<^verbatim>\<open>l\<close> bytes of \<open>v\<close>; a null or empty \<open>v\<close> changes nothing.\<close>

definition lil_append_val :: "string \<Rightarrow> string option \<Rightarrow> string" where
  "lil_append_val val v = (case v of None \<Rightarrow> val | Some d \<Rightarrow> val @ d)"

definition lil_list_get :: "string list \<Rightarrow> nat \<Rightarrow> string option" where
  "lil_list_get list index = (if index \<ge> length list then None else Some (list ! index))"

definition needs_escape :: "string \<Rightarrow> bool" where
  "needs_escape str = (cstr str = [] \<or> list_ex (\<lambda>c. ispunct c \<or> isspace c) (cstr str))"

text \<open>The inner loop of \<^verbatim>\<open>lil_list_to_value\<close> over the bytes of one escaped entry.\<close>

fun escape_entry :: "string \<Rightarrow> string \<Rightarrow> string" where
  "escape_entry val [] = val"
| "escape_entry val (c # cs) =
     (if c = CHR ''{'' then escape_entry (lil_append_string val [CHR ''}'', CHR 0x22, CHR 0x5C, CHR ''o'', CHR 0x22, CHR ''{'']) cs
      else if c = CHR ''}'' then escape_entry (lil_append_string val [CHR ''}'', CHR 0x22, CHR 0x5C, CHR ''c'', CHR 0x22, CHR ''{'']) cs
      else escape_entry (lil_append_char val c) cs)"

text \<open>The outer loop of \<^verbatim>\<open>lil_list_to_value\<close>; \<open>i\<close> is the index of the head of the rest.\<close>

fun list_to_value_loop :: "bool \<Rightarrow> string \<Rightarrow> nat \<Rightarrow> string list \<Rightarrow> string" where
  "list_to_value_loop do_escape val i [] = val"
| "list_to_value_loop do_escape val i (x # xs) =
     (let escape = (if do_escape then needs_escape (lil_to_string (Some x)) else False);
          val1 = (if i \<noteq> 0 then lil_append_char val CHR '' '' else val);
          val2 = (if escape
                  then lil_append_char (escape_entry (lil_append_char val1 CHR ''{'') x) CHR ''}''
                  else lil_append_val val1 (Some x))
      in list_to_value_loop do_escape val2 (Suc i) xs)"

definition lil_list_to_value :: "string list \<Rightarrow> bool \<Rightarrow> string" where
  "lil_list_to_value list do_escape = list_to_value_loop do_escape (alloc_value None) 0 list"

section \<open>The string map\<close>

text \<open>
  256 cells, each an array of (key, value) entries in insertion order; the value is a
  nullable pointer. \<^verbatim>\<open>unsigned long\<close> is 64 bits wide on the target.
\<close>

type_synonym 'v hashmap = "nat \<Rightarrow> (string \<times> 'v option) list"

fun hm_hash_loop :: "64 word \<Rightarrow> string \<Rightarrow> 64 word" where
  "hm_hash_loop hash [] = hash"
| "hm_hash_loop hash (c # key) =
     (if c = NUL then hash
      else hm_hash_loop ((push_bit 5 hash + hash) + of_nat (of_char c)) key)"

definition hm_hash :: "string \<Rightarrow> 64 word" where
  "hm_hash key = hm_hash_loop 5381 key"

definition hm_cell :: "string \<Rightarrow> nat" where
  "hm_cell key = unat (hm_hash key AND 0xFF)"

definition hm_init :: "'v hashmap" where
  "hm_init = (\<lambda>i. [])"

fun cell_put :: "(string \<times> 'v option) list \<Rightarrow> string \<Rightarrow> 'v option \<Rightarrow> (string \<times> 'v option) list" where
  "cell_put [] key val = [(cstr key, val)]"
| "cell_put ((k, v) # es) key val =
     (if cstr key = k then (k, val) # es else (k, v) # cell_put es key val)"

definition hm_put :: "'v hashmap \<Rightarrow> string \<Rightarrow> 'v option \<Rightarrow> 'v hashmap" where
  "hm_put hm key val = hm(hm_cell key := cell_put (hm (hm_cell key)) key val)"

fun cell_get :: "(string \<times> 'v option) list \<Rightarrow> string \<Rightarrow> 'v option" where
  "cell_get [] key = None"
| "cell_get ((k, v) # es) key = (if cstr key = k then v else cell_get es key)"

definition hm_get :: "'v hashmap \<Rightarrow> string \<Rightarrow> 'v option" where
  "hm_get hm key = cell_get (hm (hm_cell key)) key"

fun cell_has :: "(string \<times> 'v option) list \<Rightarrow> string \<Rightarrow> bool" where
  "cell_has [] key = False"
| "cell_has ((k, v) # es) key = (if cstr key = k then True else cell_has es key)"

definition hm_has :: "'v hashmap \<Rightarrow> string \<Rightarrow> bool" where
  "hm_has hm key = cell_has (hm (hm_cell key)) key"

section \<open>The interpreter state\<close>

datatype lil_setvar = LIL_SETVAR_GLOBAL | LIL_SETVAR_LOCAL | LIL_SETVAR_LOCAL_NEW | LIL_SETVAR_LOCAL_ONLY

datatype lil_error_kind = ERROR_NOERROR | ERROR_DEFAULT | ERROR_FIXHEAD | ERROR_UNBALANCED

text \<open>
  A \<^verbatim>\<open>lil_func_proc_t\<close> is a function pointer. The built-ins translated below have a
  constructor each; every other procedure (a built-in not translated here, a command
  registered by the host) is \<open>Other_proc\<close> with its name, and its behaviour is a parameter.
\<close>

datatype lil_func_proc_t =
    Fnc_set | Fnc_local | Fnc_eval | Fnc_return | Fnc_result | Fnc_quote | Fnc_list
  | Fnc_expr | Fnc_if | Fnc_while | Fnc_try | Fnc_error | Fnc_func | Fnc_watch | Fnc_catcher
  | Fnc_subst | Other_proc string

text \<open>
  Pointers are addresses into stores kept in the interpreter record: \<open>envs\<close> for
  \<^verbatim>\<open>struct lil_env\<close>, \<open>funcs\<close> for \<^verbatim>\<open>struct lil_func\<close>. A \<^verbatim>\<open>struct lil_var *\<close> is the
  address of the owning environment with the index into its \<^verbatim>\<open>var\<close> array; the \<^verbatim>\<open>varmap\<close> of
  an environment stores the index. Addresses are handed out by a counter and never reused;
  \<^verbatim>\<open>free\<close> leaves the store as it is.
\<close>

record lil_var =
  var_n :: string
  var_w :: "string option"
  var_env :: nat
  var_v :: "string option"

record lil_env =
  env_parent :: "nat option"
  env_func :: "nat option"
  catcher_for :: "string option"
  env_var :: "lil_var list"
  varmap :: "nat hashmap"
  retval :: "string option"
  retval_set :: bool
  breakrun :: bool

record lil_func =
  fn_name :: string
  fn_code :: "string option"
  fn_argnames :: "string list option"
  fn_proc :: "lil_func_proc_t option"

record 'h lil =
  l_code :: "string option"
  rootcode :: "string option"
  clen :: nat
  l_head :: nat
  ignoreeol :: bool
  l_cmd :: "nat list"
  syscmds :: nat
  cmdmap :: "nat hashmap"
  catcher :: "string option"
  in_catcher :: nat
  dollarprefix :: string
  l_env :: nat
  rootenv :: nat
  downenv :: "nat option"
  l_error :: lil_error_kind
  err_head :: nat
  err_msg :: "string option"
  parse_depth :: nat
  envs :: "nat \<Rightarrow> lil_env"
  env_next :: nat
  funcs :: "nat \<Rightarrow> lil_func"
  func_next :: nat
  host :: 'h

record expreval =
  ee_code :: string
  ee_len :: nat
  ee_head :: nat
  ee_ival :: "64 word"
  ee_error :: nat

text \<open>
  \<^verbatim>\<open>lil_parse\<close> is the one function through which evaluation recurses (a bracketed or
  dollar word, a script function's body, a watch, a built-in that evaluates an argument).
  Every function that may reach it takes the \<^verbatim>\<open>lil_parse\<close> it calls as the argument \<open>P\<close>, and
  \<^verbatim>\<open>lil_parse\<close> ties the knot at the end of the development. A result \<open>None\<close> is a call that
  does not return: the fuel ran out, or the program read through a null pointer.
\<close>

type_synonym 'h parse_fn = "'h lil \<Rightarrow> string \<Rightarrow> nat \<Rightarrow> bool \<Rightarrow> (string option \<times> 'h lil) option"

text \<open>
  The parts of the program that are not in \<^verbatim>\<open>cli_lil.c\<close>: the configuration constants, the
  console's \<^verbatim>\<open>ctrlc\<close>, the environment store's \<^verbatim>\<open>env_set\<close> and \<^verbatim>\<open>env_get\<close>, and the procedures
  behind \<open>Other_proc\<close> (given the fuel and \<open>P\<close>). They act on the host state \<open>'h\<close>.
  \<open>calloc_ok\<close> says whether the \<^verbatim>\<open>calloc\<close> of the empty value in the last statement of
  \<^verbatim>\<open>lil_parse\<close> finds memory; every other allocation is taken to succeed.
\<close>

record 'h host =
  CONFIG_LIL_FULL :: bool
  CONFIG_SYS_PBSIZE :: nat
  ctrlc :: "'h \<Rightarrow> bool \<times> 'h"
  env_set :: "string \<Rightarrow> string \<Rightarrow> 'h \<Rightarrow> int \<times> 'h"
  env_get :: "string \<Rightarrow> 'h \<Rightarrow> string option"
  other_proc :: "string \<Rightarrow> nat \<Rightarrow> 'h parse_fn \<Rightarrow> 'h lil \<Rightarrow> string list \<Rightarrow> (string option \<times> 'h lil) option"
  calloc_ok :: "'h \<Rightarrow> bool"

definition cur_env :: "'h lil \<Rightarrow> lil_env" where
  "cur_env lil = envs lil (l_env lil)"

definition upd_env :: "nat \<Rightarrow> (lil_env \<Rightarrow> lil_env) \<Rightarrow> 'h lil \<Rightarrow> 'h lil" where
  "upd_env a f lil = lil\<lparr>envs := (envs lil)(a := f (envs lil a))\<rparr>"

definition new_env :: "nat option \<Rightarrow> lil_env" where
  "new_env p = \<lparr>env_parent = p, env_func = None, catcher_for = None, env_var = [],
     varmap = hm_init, retval = None, retval_set = False, breakrun = False\<rparr>"

definition lil_alloc_env :: "'h lil \<Rightarrow> nat option \<Rightarrow> nat \<times> 'h lil" where
  "lil_alloc_env lil p =
     (env_next lil, lil\<lparr>envs := (envs lil)(env_next lil := new_env p), env_next := Suc (env_next lil)\<rparr>)"

definition lil_push_env :: "'h lil \<Rightarrow> 'h lil" where
  "lil_push_env lil = (case lil_alloc_env lil (Some (l_env lil)) of (a, lil1) \<Rightarrow> lil1\<lparr>l_env := a\<rparr>)"

definition lil_pop_env :: "'h lil \<Rightarrow> 'h lil" where
  "lil_pop_env lil = (case env_parent (cur_env lil) of None \<Rightarrow> lil | Some next \<Rightarrow> lil\<lparr>l_env := next\<rparr>)"

section \<open>Variable and command lookup\<close>

definition lil_find_local_var :: "'h lil \<Rightarrow> nat \<Rightarrow> string \<Rightarrow> (nat \<times> nat) option" where
  "lil_find_local_var lil env name = map_option (\<lambda>i. (env, i)) (hm_get (varmap (envs lil env)) name)"

function lil_find_var :: "'h lil \<Rightarrow> nat \<Rightarrow> string \<Rightarrow> (nat \<times> nat) option" where
  "lil_find_var lil env name =
     (case lil_find_local_var lil env name of
        Some r \<Rightarrow> Some r
      | None \<Rightarrow> if env = rootenv lil then None else lil_find_var lil (rootenv lil) name)"
  by pat_completeness auto
termination
  by (relation "measure (\<lambda>(lil, env, name). if env = rootenv lil then 0 else 1)") auto

declare lil_find_var.simps [simp del]

text \<open>Reading through a \<^verbatim>\<open>struct lil_var *\<close>.\<close>

definition var_at :: "'h lil \<Rightarrow> nat \<times> nat \<Rightarrow> lil_var" where
  "var_at lil p = env_var (envs lil (fst p)) ! snd p"

definition upd_var :: "nat \<times> nat \<Rightarrow> (lil_var \<Rightarrow> lil_var) \<Rightarrow> 'h lil \<Rightarrow> 'h lil" where
  "upd_var p f lil = upd_env (fst p) (\<lambda>e. e\<lparr>env_var := (env_var e)[snd p := f (env_var e ! snd p)]\<rparr>) lil"

text \<open>\<^verbatim>\<open>strchr\<close>: the index of the first occurrence of \<open>c\<close> in the C string \<open>s\<close>.\<close>

definition strchr :: "string \<Rightarrow> char \<Rightarrow> nat option" where
  "strchr s c = (let i = length (takeWhile (\<lambda>x. x \<noteq> c) (cstr s))
                 in if i < length (cstr s) then Some i else None)"

text \<open>
  \<^verbatim>\<open>lil_find_cmd\<close> writes into the buffer \<open>name\<close> and restores it; the second component is
  the buffer when the function returns.
\<close>

definition lil_find_cmd :: "'h lil \<Rightarrow> string \<Rightarrow> nat option \<times> string" where
  "lil_find_cmd lil name =
     (let dot = strchr name CHR ''.'';
          name1 = (case dot of Some i \<Rightarrow> name[i := NUL] | None \<Rightarrow> name);
          r = hm_get (cmdmap lil) name1;
          name2 = (case dot of Some i \<Rightarrow> name1[i := CHR ''.''] | None \<Rightarrow> name1)
      in (r, name2))"

definition add_func :: "'h lil \<Rightarrow> string \<Rightarrow> nat \<times> 'h lil" where
  "add_func lil name =
     (case fst (lil_find_cmd lil name) of
        Some c \<Rightarrow> (c, lil\<lparr>funcs := (funcs lil)(c := (funcs lil c)\<lparr>fn_code := None, fn_argnames := None, fn_proc := None\<rparr>)\<rparr>)
      | None \<Rightarrow>
          (let c = func_next lil
           in (c, lil\<lparr>funcs := (funcs lil)(c := \<lparr>fn_name = cstr name, fn_code = None, fn_argnames = None, fn_proc = None\<rparr>),
                      func_next := Suc c,
                      l_cmd := l_cmd lil @ [c],
                      cmdmap := hm_put (cmdmap lil) name (Some c)\<rparr>)))"

definition lil_register :: "'h lil \<Rightarrow> string \<Rightarrow> lil_func_proc_t \<Rightarrow> 'h lil" where
  "lil_register lil name p =
     (case add_func lil name of (c, lil1) \<Rightarrow> lil1\<lparr>funcs := (funcs lil1)(c := (funcs lil1 c)\<lparr>fn_proc := Some p\<rparr>)\<rparr>)"

text \<open>
  \<^verbatim>\<open>lil_get_var_or\<close>; a variable without a value reads as a null pointer. For a name that is
  not found, or found in the root, the result is \<^verbatim>\<open>lil_alloc_string(env_get(name))\<close>, which is the
  empty value when \<^verbatim>\<open>env_get\<close> returns a null pointer.
\<close>

definition lil_get_var_or :: "'h host \<Rightarrow> 'h lil \<Rightarrow> string \<Rightarrow> string option \<Rightarrow> string option" where
  "lil_get_var_or H lil name defvalue =
     (let var = lil_find_var lil (l_env lil) name;
          retval0 = (case var of Some p \<Rightarrow> var_v (var_at lil p) | None \<Rightarrow> defvalue)
      in if var = None \<or> var_env (var_at lil (the var)) = rootenv lil
         then Some (alloc_value (env_get H (cstr name) (host lil)))
         else retval0)"

definition lil_get_var :: "'h host \<Rightarrow> 'h lil \<Rightarrow> string \<Rightarrow> string option" where
  "lil_get_var H lil name = lil_get_var_or H lil name (Some [])"

section \<open>The error slot\<close>

definition lil_set_error :: "'h lil \<Rightarrow> string option \<Rightarrow> 'h lil" where
  "lil_set_error lil msg =
     (if l_error lil \<noteq> ERROR_NOERROR then lil
      else lil\<lparr>l_error := ERROR_FIXHEAD, err_head := 0,
               err_msg := Some (case msg of Some m \<Rightarrow> cstr m | None \<Rightarrow> [])\<rparr>)"

definition lil_set_error_at :: "'h lil \<Rightarrow> nat \<Rightarrow> string option \<Rightarrow> 'h lil" where
  "lil_set_error_at lil pos msg =
     (if l_error lil \<noteq> ERROR_NOERROR then lil
      else lil\<lparr>l_error := ERROR_DEFAULT, err_head := pos,
               err_msg := Some (case msg of Some m \<Rightarrow> cstr m | None \<Rightarrow> [])\<rparr>)"

text \<open>
  \<^verbatim>\<open>vsnprintf\<close> into \<^verbatim>\<open>char msg[CONFIG_SYS_PBSIZE]\<close>: the formatted text, cut to the buffer.
  The callers below format a fixed text followed by one \<^verbatim>\<open>%s\<close> or \<^verbatim>\<open>%c\<close>.
\<close>

definition vsnprintf :: "'h host \<Rightarrow> string \<Rightarrow> string" where
  "vsnprintf H text = take (CONFIG_SYS_PBSIZE H - 1) (cstr text)"

definition lil_set_errorf :: "'h host \<Rightarrow> 'h lil \<Rightarrow> string \<Rightarrow> 'h lil" where
  "lil_set_errorf H lil text = lil_set_error lil (Some (vsnprintf H text))"

definition lil_set_errorf_at :: "'h host \<Rightarrow> 'h lil \<Rightarrow> nat \<Rightarrow> string \<Rightarrow> 'h lil" where
  "lil_set_errorf_at H lil pos text = lil_set_error_at lil pos (Some (vsnprintf H text))"

definition lil_set_error_unbalanced :: "'h host \<Rightarrow> 'h lil \<Rightarrow> char \<Rightarrow> 'h lil" where
  "lil_set_error_unbalanced H lil expected =
     (if l_error lil \<noteq> ERROR_NOERROR then lil
      else (lil_set_errorf_at H lil (l_head lil) (''expected '' @ [expected]))\<lparr>l_error := ERROR_UNBALANCED\<rparr>)"

text \<open>
  \<^verbatim>\<open>lil_error\<close>: the return value, what is stored through \<^verbatim>\<open>msg\<close> and \<^verbatim>\<open>pos\<close> (nothing when
  there is no error), and the interpreter afterwards.
\<close>

definition lil_error :: "'h lil \<Rightarrow> int \<times> (string option \<times> nat) option \<times> 'h lil" where
  "lil_error lil =
     (if l_error lil = ERROR_NOERROR then (0, None, lil)
      else (1, Some (err_msg lil, err_head lil), lil\<lparr>l_error := ERROR_NOERROR\<rparr>))"

section \<open>The cursor\<close>

text \<open>
  The source text is a buffer; reading at or past its end gives the terminating NUL. A null
  \<^verbatim>\<open>code\<close> pointer reads as the empty buffer.
\<close>

definition byte_at :: "string \<Rightarrow> nat \<Rightarrow> char" where
  "byte_at buf i = (if i < length buf then buf ! i else NUL)"

definition the_code :: "'h lil \<Rightarrow> string" where
  "the_code lil = (case l_code lil of None \<Rightarrow> [] | Some s \<Rightarrow> s)"

definition code_at :: "'h lil \<Rightarrow> nat \<Rightarrow> char" where
  "code_at lil i = byte_at (the_code lil) i"

definition islilspecial :: "char \<Rightarrow> bool" where
  "islilspecial ch = (ch = CHR ''$'' \<or> ch = CHR ''{'' \<or> ch = CHR ''}'' \<or> ch = CHR ''['' \<or> ch = CHR '']'' \<or>
     ch = CHR 0x22 \<or> ch = CHR 0x27 \<or> ch = CHR '';'')"

definition eolchar :: "char \<Rightarrow> bool" where
  "eolchar ch = (ch = CHR 0x0A \<or> ch = CHR 0x0D \<or> ch = CHR '';'')"

definition ateol :: "'h lil \<Rightarrow> bool" where
  "ateol lil = (\<not> ignoreeol lil \<and> eolchar (code_at lil (l_head lil)))"

text \<open>The loops of \<^verbatim>\<open>lil_skip_spaces\<close>, on the buffer, \<^verbatim>\<open>clen\<close> and \<^verbatim>\<open>head\<close>.\<close>

function skip_multiline :: "string \<Rightarrow> nat \<Rightarrow> nat \<Rightarrow> nat" where
  "skip_multiline buf len h =
     (if h < len then
        (if byte_at buf h = CHR ''#'' \<and> byte_at buf (h + 1) = CHR ''#'' \<and> byte_at buf (h + 2) \<noteq> CHR ''#''
         then h + 2
         else skip_multiline buf len (h + 1))
      else h)"
  by pat_completeness auto
termination
  by (relation "measure (\<lambda>(buf, len, h). len - h)") auto

function skip_line :: "string \<Rightarrow> nat \<Rightarrow> nat \<Rightarrow> nat" where
  "skip_line buf len h =
     (if h < len \<and> \<not> eolchar (byte_at buf h) then skip_line buf len (h + 1) else h)"
  by pat_completeness auto
termination
  by (relation "measure (\<lambda>(buf, len, h). len - h)") auto

function skip_eols :: "string \<Rightarrow> nat \<Rightarrow> nat \<Rightarrow> nat" where
  "skip_eols buf len h =
     (if h < len \<and> eolchar (byte_at buf h) then skip_eols buf len (h + 1) else h)"
  by pat_completeness auto
termination
  by (relation "measure (\<lambda>(buf, len, h). len - h)") auto

function skip_spaces :: "string \<Rightarrow> nat \<Rightarrow> bool \<Rightarrow> nat \<Rightarrow> nat" where
  "skip_spaces buf len igeol h =
     (if h < len then
        (if byte_at buf h = CHR ''#'' then
           (if byte_at buf (h + 1) = CHR ''#'' \<and> byte_at buf (h + 2) \<noteq> CHR ''#''
            then skip_spaces buf len igeol (skip_multiline buf len (h + 2))
            else skip_spaces buf len igeol (skip_line buf len h))
         else if byte_at buf h = CHR 0x5C \<and> eolchar (byte_at buf (h + 1))
         then skip_spaces buf len igeol (skip_eols buf len (h + 1))
         else if eolchar (byte_at buf h) then
           (if igeol then skip_spaces buf len igeol (h + 1) else h)
         else if isspace (byte_at buf h) then skip_spaces buf len igeol (h + 1)
         else h)
      else h)"
  by pat_completeness auto
termination
proof -
  have ml: "h \<le> skip_multiline buf len h" for buf len h
    by (induction buf len h rule: skip_multiline.induct)
       (subst skip_multiline.simps, auto simp del: skip_multiline.simps)
  have el: "h \<le> skip_eols buf len h" for buf len h
    by (induction buf len h rule: skip_eols.induct)
       (subst skip_eols.simps, auto simp del: skip_eols.simps)
  have ln: "h \<le> skip_line buf len h" for buf len h
    by (induction buf len h rule: skip_line.induct)
       (subst skip_line.simps, auto simp del: skip_line.simps)
  have ln1: "h < skip_line buf len h" if "h < len" "byte_at buf h = CHR ''#''" for buf len h
  proof -
    have "skip_line buf len h = skip_line buf len (h + 1)"
      using that by (subst skip_line.simps) (simp add: eolchar_def del: skip_line.simps)
    then show ?thesis using ln [of "h + 1" buf len] by (simp del: skip_line.simps)
  qed
  have ml2: "h < skip_multiline buf len (Suc (Suc h))" for buf len h
    using ml [of "h + 2" buf len] by (simp del: skip_multiline.simps)
  have el1: "h < skip_eols buf len (Suc h)" for buf len h
    using el [of "h + 1" buf len] by (simp del: skip_eols.simps)
  show ?thesis
    by (relation "measure (\<lambda>(buf, len, igeol, h). len - h)")
       (auto simp del: skip_line.simps skip_eols.simps skip_multiline.simps
             simp add: ml2 el1 ln1 diff_less_mono2)
qed

declare skip_multiline.simps [simp del] skip_line.simps [simp del] skip_eols.simps [simp del]
  skip_spaces.simps [simp del]

definition lil_skip_spaces :: "'h lil \<Rightarrow> 'h lil" where
  "lil_skip_spaces lil = lil\<lparr>l_head := skip_spaces (the_code lil) (clen lil) (ignoreeol lil) (l_head lil)\<rparr>"

text \<open>\<^verbatim>\<open>while (ateol(lil)) lil->head++;\<close> in \<^verbatim>\<open>lil_parse\<close> has no bound but the buffer's end.\<close>

function skip_ateol :: "string \<Rightarrow> nat \<Rightarrow> nat" where
  "skip_ateol buf h = (if eolchar (byte_at buf h) then skip_ateol buf (h + 1) else h)"
  by pat_completeness auto
termination
  by (relation "measure (\<lambda>(buf, h). length buf - h)")
     (auto simp: byte_at_def eolchar_def NUL_def split: if_splits)

declare skip_ateol.simps [simp del]

text \<open>
  The scanning loop of a braced word in \<^verbatim>\<open>next_word\<close> and of \<^verbatim>\<open>get_bracketpart\<close>: the
  delimiters are \<open>op\<close> and \<open>cl\<close>; the result is \<^verbatim>\<open>head\<close>, \<^verbatim>\<open>cnt\<close> and the bytes collected.
\<close>

function scan_nested :: "char \<Rightarrow> char \<Rightarrow> string \<Rightarrow> nat \<Rightarrow> nat \<Rightarrow> nat \<Rightarrow> string \<Rightarrow> nat \<times> nat \<times> string" where
  "scan_nested op cl buf len h cnt val =
     (if h < len then
        (if byte_at buf h = op then scan_nested op cl buf len (h + 1) (cnt + 1) (lil_append_char val op)
         else if byte_at buf h = cl then
           (if cnt - 1 = 0 then (h + 1, cnt - 1, val)
            else scan_nested op cl buf len (h + 1) (cnt - 1) (lil_append_char val cl))
         else scan_nested op cl buf len (h + 1) cnt (lil_append_char val (byte_at buf h)))
      else (h, cnt, val))"
  by pat_completeness auto
termination
  by (relation "measure (\<lambda>(op, cl, buf, len, h, cnt, val). len - h)") auto

declare scan_nested.simps [simp del]

text \<open>The loop of a bare word.\<close>

function scan_word :: "string \<Rightarrow> nat \<Rightarrow> nat \<Rightarrow> nat" where
  "scan_word buf len h =
     (if h < len \<and> \<not> isspace (byte_at buf h) \<and> \<not> islilspecial (byte_at buf h)
      then scan_word buf len (h + 1) else h)"
  by pat_completeness auto
termination
  by (relation "measure (\<lambda>(buf, len, h). len - h)") auto

declare scan_word.simps [simp del]

text \<open>\<^verbatim>\<open>alloc_value_len(code + start, n)\<close> copies \<open>n\<close> bytes.\<close>

definition alloc_value_len :: "string \<Rightarrow> nat \<Rightarrow> nat \<Rightarrow> string" where
  "alloc_value_len buf start n = map (byte_at buf) [start..<start + n]"

text \<open>The escapes of a quoted word.\<close>

definition unescape :: "char \<Rightarrow> char" where
  "unescape c =
     (if c = CHR ''b'' then CHR 0x08
      else if c = CHR ''t'' then CHR 0x09
      else if c = CHR ''n'' then CHR 0x0A
      else if c = CHR ''v'' then CHR 0x0B
      else if c = CHR ''f'' then CHR 0x0C
      else if c = CHR ''r'' then CHR 0x0D
      else if c = CHR ''0'' then NUL
      else if c = CHR ''a'' then CHR 0x07
      else if c = CHR ''c'' then CHR ''}''
      else if c = CHR ''o'' then CHR ''{''
      else c)"

section \<open>The expression evaluator\<close>

text \<open>
  \<^verbatim>\<open>ssize_t\<close> is 64 bits wide on the target. Arithmetic wraps; \<^verbatim>\<open>/\<close> and \<^verbatim>\<open>%\<close> truncate towards
  zero as C does; a shift count is reduced modulo 64 as the target's shift instructions do
  (C leaves other counts undefined), and \<^verbatim>\<open>>>\<close> is arithmetic.
\<close>

definition c_div :: "64 word \<Rightarrow> 64 word \<Rightarrow> 64 word" where
  "c_div a b = word_of_int (sint a sdiv sint b)"

definition c_mod :: "64 word \<Rightarrow> 64 word \<Rightarrow> 64 word" where
  "c_mod a b = word_of_int (sint a smod sint b)"

definition c_shl :: "64 word \<Rightarrow> 64 word \<Rightarrow> 64 word" where
  "c_shl a b = push_bit (unat (b AND 63)) a"

definition c_shr :: "64 word \<Rightarrow> 64 word \<Rightarrow> 64 word" where
  "c_shr a b = signed_drop_bit (unat (b AND 63)) a"

definition c_bool :: "bool \<Rightarrow> 64 word" where
  "c_bool b = (if b then 1 else 0)"

definition EERR_NO_ERROR :: nat where "EERR_NO_ERROR = 0"
definition EERR_SYNTAX_ERROR :: nat where "EERR_SYNTAX_ERROR = 1"
definition EERR_DIVISION_BY_ZERO :: nat where "EERR_DIVISION_BY_ZERO = 3"
definition EERR_INVALID_EXPRESSION :: nat where "EERR_INVALID_EXPRESSION = 4"

definition ee_at :: "expreval \<Rightarrow> nat \<Rightarrow> char" where
  "ee_at ee i = byte_at (ee_code ee) i"

definition ee_invalidpunct :: "char \<Rightarrow> bool" where
  "ee_invalidpunct ch = (ispunct ch \<and> ch \<noteq> CHR ''!'' \<and> ch \<noteq> CHR ''~'' \<and> ch \<noteq> CHR ''('' \<and>
     ch \<noteq> CHR '')'' \<and> ch \<noteq> CHR ''-'' \<and> ch \<noteq> CHR ''+'')"

function skip_ws :: "string \<Rightarrow> nat \<Rightarrow> nat \<Rightarrow> nat" where
  "skip_ws buf len h = (if h < len \<and> isspace (byte_at buf h) then skip_ws buf len (h + 1) else h)"
  by pat_completeness auto
termination
  by (relation "measure (\<lambda>(buf, len, h). len - h)") auto

declare skip_ws.simps [simp del]

definition ee_skip_spaces :: "expreval \<Rightarrow> expreval" where
  "ee_skip_spaces ee = ee\<lparr>ee_head := skip_ws (ee_code ee) (ee_len ee) (ee_head ee)\<rparr>"

function numeric_loop :: "string \<Rightarrow> nat \<Rightarrow> nat \<Rightarrow> 64 word \<Rightarrow> nat \<times> 64 word" where
  "numeric_loop buf len h iv =
     (if h < len then
        (if \<not> isdigit (byte_at buf h) then (h, iv)
         else numeric_loop buf len (h + 1) (iv * 10 + (of_nat (of_char (byte_at buf h)) - 48)))
      else (h, iv))"
  by pat_completeness auto
termination
  by (relation "measure (\<lambda>(buf, len, h, iv). len - h)") auto

declare numeric_loop.simps [simp del]

definition ee_numeric_element :: "expreval \<Rightarrow> expreval" where
  "ee_numeric_element ee =
     (let ee1 = ee_skip_spaces ee
      in case numeric_loop (ee_code ee1) (ee_len ee1) (ee_head ee1) 0 of
           (h, iv) \<Rightarrow> ee1\<lparr>ee_head := h, ee_ival := iv\<rparr>)"

definition ee_element :: "expreval \<Rightarrow> expreval" where
  "ee_element ee =
     (if isdigit (ee_at ee (ee_head ee)) then ee_numeric_element ee
      else ee\<lparr>ee_ival := 1, ee_error := EERR_INVALID_EXPRESSION\<rparr>)"

text \<open>
  The recursive descent. The only cycle of the grammar is \<^verbatim>\<open>ee_paren\<close> calling \<^verbatim>\<open>ee_expr\<close>:
  every function below takes \<open>E\<close>, the \<^verbatim>\<open>ee_expr\<close> it calls for a parenthesis, and \<^verbatim>\<open>ee_expr\<close>
  ties the knot at the end. \<open>full\<close> is \<^verbatim>\<open>IS_ENABLED(CONFIG_LIL_FULL)\<close>. The fuel \<open>n\<close> bounds
  the iterations of a loop and the depth of the recursion; \<open>None\<close> is running out of it.
\<close>

type_synonym ee_fn = "expreval \<Rightarrow> expreval option"

definition ee_paren :: "ee_fn \<Rightarrow> expreval \<Rightarrow> expreval option" where
  "ee_paren E ee =
     (let ee1 = ee_skip_spaces ee
      in if ee_at ee1 (ee_head ee1) = CHR ''('' then
           (case E (ee1\<lparr>ee_head := ee_head ee1 + 1\<rparr>) of None \<Rightarrow> None
            | Some ee2 \<Rightarrow>
                (let ee3 = ee_skip_spaces ee2
                 in if ee_at ee3 (ee_head ee3) = CHR '')''
                    then Some (ee3\<lparr>ee_head := ee_head ee3 + 1\<rparr>)
                    else Some (ee3\<lparr>ee_error := EERR_SYNTAX_ERROR\<rparr>)))
         else Some (ee_element ee1))"

primrec ee_unary :: "nat \<Rightarrow> ee_fn \<Rightarrow> expreval \<Rightarrow> expreval option" where
  "ee_unary 0 E ee = None"
| "ee_unary (Suc n) E ee =
     (let ee1 = ee_skip_spaces ee
      in if ee_head ee1 < ee_len ee1 \<and> ee_error ee1 = 0 \<and>
            (ee_at ee1 (ee_head ee1) = CHR ''-'' \<or> ee_at ee1 (ee_head ee1) = CHR ''+'' \<or>
             ee_at ee1 (ee_head ee1) = CHR ''~'' \<or> ee_at ee1 (ee_head ee1) = CHR ''!'') then
           (let op = ee_at ee1 (ee_head ee1)
            in case ee_unary n E (ee1\<lparr>ee_head := ee_head ee1 + 1\<rparr>) of None \<Rightarrow> None
               | Some ee2 \<Rightarrow>
                   if ee_error ee2 \<noteq> 0 then Some ee2
                   else if op = CHR ''-'' then Some (ee2\<lparr>ee_ival := - ee_ival ee2\<rparr>)
                   else if op = CHR ''+'' then Some ee2
                   else if op = CHR ''~'' then Some (ee2\<lparr>ee_ival := NOT (ee_ival ee2)\<rparr>)
                   else Some (ee2\<lparr>ee_ival := c_bool (ee_ival ee2 = 0)\<rparr>))
         else ee_paren E ee1)"

primrec ee_muldiv_loop :: "nat \<Rightarrow> ee_fn \<Rightarrow> expreval \<Rightarrow> expreval option" where
  "ee_muldiv_loop 0 E ee = None"
| "ee_muldiv_loop (Suc n) E ee =
     (if ee_head ee < ee_len ee \<and> ee_error ee = 0 \<and> \<not> ee_invalidpunct (ee_at ee (ee_head ee + 1)) \<and>
         (ee_at ee (ee_head ee) = CHR ''*'' \<or> ee_at ee (ee_head ee) = CHR ''/'' \<or>
          ee_at ee (ee_head ee) = CHR 0x5C \<or> ee_at ee (ee_head ee) = CHR ''%'') then
        (let oival = ee_ival ee; op = ee_at ee (ee_head ee)
         in case ee_unary n E (ee\<lparr>ee_head := ee_head ee + 1\<rparr>) of None \<Rightarrow> None
            | Some ee1 \<Rightarrow>
                if ee_error ee1 \<noteq> 0 then Some ee1
                else if op = CHR ''*'' then
                  ee_muldiv_loop n E (ee_skip_spaces (ee1\<lparr>ee_ival := ee_ival ee1 * oival\<rparr>))
                else if op = CHR ''%'' then
                  (if ee_ival ee1 = 0
                   then ee_muldiv_loop n E (ee_skip_spaces (ee1\<lparr>ee_error := EERR_DIVISION_BY_ZERO\<rparr>))
                   else ee_muldiv_loop n E (ee_skip_spaces (ee1\<lparr>ee_ival := c_mod oival (ee_ival ee1)\<rparr>)))
                else if op = CHR ''/'' then
                  (if ee_ival ee1 = 0
                   then ee_muldiv_loop n E (ee_skip_spaces (ee1\<lparr>ee_error := EERR_DIVISION_BY_ZERO\<rparr>))
                   else ee_muldiv_loop n E (ee_skip_spaces (ee1\<lparr>ee_ival := c_div oival (ee_ival ee1)\<rparr>)))
                else
                  (if ee_ival ee1 = 0
                   then ee_muldiv_loop n E (ee_skip_spaces (ee1\<lparr>ee_error := EERR_DIVISION_BY_ZERO\<rparr>))
                   else ee_muldiv_loop n E (ee_skip_spaces (ee1\<lparr>ee_ival := c_div oival (ee_ival ee1)\<rparr>))))
      else Some ee)"

definition ee_muldiv :: "nat \<Rightarrow> ee_fn \<Rightarrow> bool \<Rightarrow> expreval \<Rightarrow> expreval option" where
  "ee_muldiv n E full ee =
     (case ee_unary n E ee of None \<Rightarrow> None
      | Some ee1 \<Rightarrow>
          if ee_error ee1 \<noteq> 0 \<or> \<not> full then Some ee1
          else ee_muldiv_loop n E (ee_skip_spaces ee1))"

primrec ee_addsub_loop :: "nat \<Rightarrow> ee_fn \<Rightarrow> bool \<Rightarrow> expreval \<Rightarrow> expreval option" where
  "ee_addsub_loop 0 E full ee = None"
| "ee_addsub_loop (Suc n) E full ee =
     (if ee_head ee < ee_len ee \<and> ee_error ee = 0 \<and> \<not> ee_invalidpunct (ee_at ee (ee_head ee + 1)) \<and>
         (ee_at ee (ee_head ee) = CHR ''+'' \<or> ee_at ee (ee_head ee) = CHR ''-'') then
        (let oival = ee_ival ee; op = ee_at ee (ee_head ee)
         in case ee_muldiv n E full (ee\<lparr>ee_head := ee_head ee + 1\<rparr>) of None \<Rightarrow> None
            | Some ee1 \<Rightarrow>
                if ee_error ee1 \<noteq> 0 then Some ee1
                else if op = CHR ''+'' then
                  ee_addsub_loop n E full (ee_skip_spaces (ee1\<lparr>ee_ival := ee_ival ee1 + oival\<rparr>))
                else
                  ee_addsub_loop n E full (ee_skip_spaces (ee1\<lparr>ee_ival := oival - ee_ival ee1\<rparr>)))
      else Some ee)"

definition ee_addsub :: "nat \<Rightarrow> ee_fn \<Rightarrow> bool \<Rightarrow> expreval \<Rightarrow> expreval option" where
  "ee_addsub n E full ee =
     (case ee_muldiv n E full ee of None \<Rightarrow> None
      | Some ee1 \<Rightarrow>
          if \<not> full then Some ee1
          else ee_addsub_loop n E full (ee_skip_spaces ee1))"

primrec ee_shift_loop :: "nat \<Rightarrow> ee_fn \<Rightarrow> bool \<Rightarrow> expreval \<Rightarrow> expreval option" where
  "ee_shift_loop 0 E full ee = None"
| "ee_shift_loop (Suc n) E full ee =
     (if ee_head ee < ee_len ee \<and> ee_error ee = 0 \<and>
         ((ee_at ee (ee_head ee) = CHR ''<'' \<and> ee_at ee (ee_head ee + 1) = CHR ''<'') \<or>
          (ee_at ee (ee_head ee) = CHR ''>'' \<and> ee_at ee (ee_head ee + 1) = CHR ''>'')) then
        (let oival = ee_ival ee; op = ee_at ee (ee_head ee + 1)
         in case ee_addsub n E full (ee\<lparr>ee_head := ee_head ee + 2\<rparr>) of None \<Rightarrow> None
            | Some ee1 \<Rightarrow>
                if ee_error ee1 \<noteq> 0 then Some ee1
                else if op = CHR ''<'' then
                  ee_shift_loop n E full (ee_skip_spaces (ee1\<lparr>ee_ival := c_shl oival (ee_ival ee1)\<rparr>))
                else
                  ee_shift_loop n E full (ee_skip_spaces (ee1\<lparr>ee_ival := c_shr oival (ee_ival ee1)\<rparr>)))
      else Some ee)"

definition ee_shift :: "nat \<Rightarrow> ee_fn \<Rightarrow> bool \<Rightarrow> expreval \<Rightarrow> expreval option" where
  "ee_shift n E full ee =
     (case ee_addsub n E full ee of None \<Rightarrow> None
      | Some ee1 \<Rightarrow>
          if \<not> full then Some ee1
          else ee_shift_loop n E full (ee_skip_spaces ee1))"

primrec ee_compare_loop :: "nat \<Rightarrow> ee_fn \<Rightarrow> bool \<Rightarrow> expreval \<Rightarrow> expreval option" where
  "ee_compare_loop 0 E full ee = None"
| "ee_compare_loop (Suc n) E full ee =
     (if ee_head ee < ee_len ee \<and> ee_error ee = 0 \<and>
         ((ee_at ee (ee_head ee) = CHR ''<'' \<and> \<not> ee_invalidpunct (ee_at ee (ee_head ee + 1))) \<or>
          (ee_at ee (ee_head ee) = CHR ''>'' \<and> \<not> ee_invalidpunct (ee_at ee (ee_head ee + 1))) \<or>
          (ee_at ee (ee_head ee) = CHR ''<'' \<and> ee_at ee (ee_head ee + 1) = CHR ''='') \<or>
          (ee_at ee (ee_head ee) = CHR ''>'' \<and> ee_at ee (ee_head ee + 1) = CHR ''='')) then
        (let oival = ee_ival ee;
             op = (if ee_at ee (ee_head ee) = CHR ''<'' \<and> \<not> ee_invalidpunct (ee_at ee (ee_head ee + 1)) then 1
                   else if ee_at ee (ee_head ee) = CHR ''>'' \<and> \<not> ee_invalidpunct (ee_at ee (ee_head ee + 1)) then 2
                   else if ee_at ee (ee_head ee) = CHR ''<'' \<and> ee_at ee (ee_head ee + 1) = CHR ''='' then 3
                   else (4::nat))
         in case ee_shift n E full (ee\<lparr>ee_head := ee_head ee + (if op > 2 then 2 else 1)\<rparr>) of None \<Rightarrow> None
            | Some ee1 \<Rightarrow>
                if ee_error ee1 \<noteq> 0 then Some ee1
                else if op = 1 then
                  ee_compare_loop n E full (ee_skip_spaces (ee1\<lparr>ee_ival := c_bool (sint oival < sint (ee_ival ee1))\<rparr>))
                else if op = 2 then
                  ee_compare_loop n E full (ee_skip_spaces (ee1\<lparr>ee_ival := c_bool (sint oival > sint (ee_ival ee1))\<rparr>))
                else if op = 3 then
                  ee_compare_loop n E full (ee_skip_spaces (ee1\<lparr>ee_ival := c_bool (sint oival \<le> sint (ee_ival ee1))\<rparr>))
                else
                  ee_compare_loop n E full (ee_skip_spaces (ee1\<lparr>ee_ival := c_bool (sint oival \<ge> sint (ee_ival ee1))\<rparr>)))
      else Some ee)"

definition ee_compare :: "nat \<Rightarrow> ee_fn \<Rightarrow> bool \<Rightarrow> expreval \<Rightarrow> expreval option" where
  "ee_compare n E full ee =
     (case ee_shift n E full ee of None \<Rightarrow> None
      | Some ee1 \<Rightarrow> ee_compare_loop n E full (ee_skip_spaces ee1))"

primrec ee_equals_loop :: "nat \<Rightarrow> ee_fn \<Rightarrow> bool \<Rightarrow> expreval \<Rightarrow> expreval option" where
  "ee_equals_loop 0 E full ee = None"
| "ee_equals_loop (Suc n) E full ee =
     (if ee_head ee < ee_len ee \<and> ee_error ee = 0 \<and>
         ((ee_at ee (ee_head ee) = CHR ''='' \<and> ee_at ee (ee_head ee + 1) = CHR ''='') \<or>
          (ee_at ee (ee_head ee) = CHR ''!'' \<and> ee_at ee (ee_head ee + 1) = CHR ''='')) then
        (let oival = ee_ival ee; op = (if ee_at ee (ee_head ee) = CHR ''='' then 1 else (2::nat))
         in case ee_compare n E full (ee\<lparr>ee_head := ee_head ee + 2\<rparr>) of None \<Rightarrow> None
            | Some ee1 \<Rightarrow>
                if ee_error ee1 \<noteq> 0 then Some ee1
                else if op = 1 then
                  ee_equals_loop n E full (ee_skip_spaces (ee1\<lparr>ee_ival := c_bool (oival = ee_ival ee1)\<rparr>))
                else
                  ee_equals_loop n E full (ee_skip_spaces (ee1\<lparr>ee_ival := c_bool (oival \<noteq> ee_ival ee1)\<rparr>)))
      else Some ee)"

definition ee_equals :: "nat \<Rightarrow> ee_fn \<Rightarrow> bool \<Rightarrow> expreval \<Rightarrow> expreval option" where
  "ee_equals n E full ee =
     (case ee_compare n E full ee of None \<Rightarrow> None
      | Some ee1 \<Rightarrow> ee_equals_loop n E full (ee_skip_spaces ee1))"

primrec ee_bitand_loop :: "nat \<Rightarrow> ee_fn \<Rightarrow> bool \<Rightarrow> expreval \<Rightarrow> expreval option" where
  "ee_bitand_loop 0 E full ee = None"
| "ee_bitand_loop (Suc n) E full ee =
     (if ee_head ee < ee_len ee \<and> ee_error ee = 0 \<and>
         (ee_at ee (ee_head ee) = CHR ''&'' \<and> \<not> ee_invalidpunct (ee_at ee (ee_head ee + 1))) then
        (let oival = ee_ival ee
         in case ee_equals n E full (ee\<lparr>ee_head := ee_head ee + 1\<rparr>) of None \<Rightarrow> None
            | Some ee1 \<Rightarrow>
                if ee_error ee1 \<noteq> 0 then Some ee1
                else ee_bitand_loop n E full (ee_skip_spaces (ee1\<lparr>ee_ival := oival AND ee_ival ee1\<rparr>)))
      else Some ee)"

definition ee_bitand :: "nat \<Rightarrow> ee_fn \<Rightarrow> bool \<Rightarrow> expreval \<Rightarrow> expreval option" where
  "ee_bitand n E full ee =
     (case ee_equals n E full ee of None \<Rightarrow> None
      | Some ee1 \<Rightarrow>
          if \<not> full then Some ee1
          else ee_bitand_loop n E full (ee_skip_spaces ee1))"

primrec ee_bitor_loop :: "nat \<Rightarrow> ee_fn \<Rightarrow> bool \<Rightarrow> expreval \<Rightarrow> expreval option" where
  "ee_bitor_loop 0 E full ee = None"
| "ee_bitor_loop (Suc n) E full ee =
     (if ee_head ee < ee_len ee \<and> ee_error ee = 0 \<and>
         (ee_at ee (ee_head ee) = CHR ''|'' \<and> \<not> ee_invalidpunct (ee_at ee (ee_head ee + 1))) then
        (let oival = ee_ival ee
         in case ee_bitand n E full (ee\<lparr>ee_head := ee_head ee + 1\<rparr>) of None \<Rightarrow> None
            | Some ee1 \<Rightarrow>
                if ee_error ee1 \<noteq> 0 then Some ee1
                else ee_bitor_loop n E full (ee_skip_spaces (ee1\<lparr>ee_ival := oival OR ee_ival ee1\<rparr>)))
      else Some ee)"

definition ee_bitor :: "nat \<Rightarrow> ee_fn \<Rightarrow> bool \<Rightarrow> expreval \<Rightarrow> expreval option" where
  "ee_bitor n E full ee =
     (case ee_bitand n E full ee of None \<Rightarrow> None
      | Some ee1 \<Rightarrow>
          if \<not> full then Some ee1
          else ee_bitor_loop n E full (ee_skip_spaces ee1))"

primrec ee_logand_loop :: "nat \<Rightarrow> ee_fn \<Rightarrow> bool \<Rightarrow> expreval \<Rightarrow> expreval option" where
  "ee_logand_loop 0 E full ee = None"
| "ee_logand_loop (Suc n) E full ee =
     (if ee_head ee < ee_len ee \<and> ee_error ee = 0 \<and>
         (ee_at ee (ee_head ee) = CHR ''&'' \<and> ee_at ee (ee_head ee + 1) = CHR ''&'') then
        (let oival = ee_ival ee
         in case ee_bitor n E full (ee\<lparr>ee_head := ee_head ee + 2\<rparr>) of None \<Rightarrow> None
            | Some ee1 \<Rightarrow>
                if ee_error ee1 \<noteq> 0 then Some ee1
                else ee_logand_loop n E full
                       (ee_skip_spaces (ee1\<lparr>ee_ival := c_bool (oival \<noteq> 0 \<and> ee_ival ee1 \<noteq> 0)\<rparr>)))
      else Some ee)"

definition ee_logand :: "nat \<Rightarrow> ee_fn \<Rightarrow> bool \<Rightarrow> expreval \<Rightarrow> expreval option" where
  "ee_logand n E full ee =
     (case ee_bitor n E full ee of None \<Rightarrow> None
      | Some ee1 \<Rightarrow> ee_logand_loop n E full (ee_skip_spaces ee1))"

primrec ee_logor_loop :: "nat \<Rightarrow> ee_fn \<Rightarrow> bool \<Rightarrow> expreval \<Rightarrow> expreval option" where
  "ee_logor_loop 0 E full ee = None"
| "ee_logor_loop (Suc n) E full ee =
     (if ee_head ee < ee_len ee \<and> ee_error ee = 0 \<and>
         (ee_at ee (ee_head ee) = CHR ''|'' \<and> ee_at ee (ee_head ee + 1) = CHR ''|'') then
        (let oival = ee_ival ee
         in case ee_logand n E full (ee\<lparr>ee_head := ee_head ee + 2\<rparr>) of None \<Rightarrow> None
            | Some ee1 \<Rightarrow>
                if ee_error ee1 \<noteq> 0 then Some ee1
                else ee_logor_loop n E full
                       (ee_skip_spaces (ee1\<lparr>ee_ival := c_bool (oival \<noteq> 0 \<or> ee_ival ee1 \<noteq> 0)\<rparr>)))
      else Some ee)"

definition ee_logor :: "nat \<Rightarrow> ee_fn \<Rightarrow> bool \<Rightarrow> expreval \<Rightarrow> expreval option" where
  "ee_logor n E full ee =
     (case ee_logand n E full ee of None \<Rightarrow> None
      | Some ee1 \<Rightarrow> ee_logor_loop n E full (ee_skip_spaces ee1))"

primrec ee_expr :: "nat \<Rightarrow> bool \<Rightarrow> expreval \<Rightarrow> expreval option" where
  "ee_expr 0 full ee = None"
| "ee_expr (Suc n) full ee =
     (case ee_logor n (ee_expr n full) full ee of None \<Rightarrow> None
      | Some ee1 \<Rightarrow>
          if ee_error ee1 = EERR_INVALID_EXPRESSION
          then Some (ee1\<lparr>ee_error := EERR_NO_ERROR, ee_ival := 1\<rparr>)
          else Some ee1)"

text \<open>\<^verbatim>\<open>sprintf(buff, "%zd", num)\<close>.\<close>

fun dec_digits :: "nat \<Rightarrow> string" where
  "dec_digits k =
     (if k < 10 then [''0123456789'' ! k] else dec_digits (k div 10) @ [''0123456789'' ! (k mod 10)])"

declare dec_digits.simps [simp del]

definition lil_alloc_integer :: "64 word \<Rightarrow> string" where
  "lil_alloc_integer num =
     (if sint num < 0 then CHR ''-'' # dec_digits (nat (- sint num)) else dec_digits (nat (sint num)))"

section \<open>Assignment\<close>

definition lil_parse_value :: "'h parse_fn \<Rightarrow> 'h lil \<Rightarrow> string option \<Rightarrow> bool \<Rightarrow> (string option \<times> 'h lil) option" where
  "lil_parse_value P lil val funclevel =
     (case val of
        None \<Rightarrow> Some (Some (alloc_value None), lil)
      | Some d \<Rightarrow> if length d = 0 then Some (Some (alloc_value None), lil)
                  else P lil d (length d) funclevel)"

text \<open>The tail of \<^verbatim>\<open>lil_set_var\<close>: a new variable at the end of the array of \<open>env\<close>.\<close>

definition append_var :: "'h lil \<Rightarrow> nat \<Rightarrow> string \<Rightarrow> string option \<Rightarrow> (nat \<times> nat) option \<times> 'h lil" where
  "append_var lil env name val =
     (let i = length (env_var (envs lil env));
          nvar = \<lparr>var_n = cstr name, var_w = None, var_env = env, var_v = lil_clone_value val\<rparr>
      in (Some (env, i),
          upd_env env (\<lambda>e. e\<lparr>env_var := env_var e @ [nvar], varmap := hm_put (varmap e) name (Some i)\<rparr>) lil))"

text \<open>
  \<^verbatim>\<open>lil_set_var\<close>. The value handed to \<^verbatim>\<open>env_set\<close> is the C string \<^verbatim>\<open>val->d\<close>; with a null
  \<open>val\<close> this reads through a null pointer, and the call does not return. The watch is
  evaluated by \<^verbatim>\<open>lil_parse(lil, var->w, 0, 1)\<close>.
\<close>

definition lil_set_var :: "'h parse_fn \<Rightarrow> 'h host \<Rightarrow> 'h lil \<Rightarrow> string \<Rightarrow> string option \<Rightarrow> lil_setvar \<Rightarrow>
    ((nat \<times> nat) option \<times> 'h lil) option" where
  "lil_set_var P H lil name val local =
     (let env = (if local = LIL_SETVAR_GLOBAL then rootenv lil else l_env lil)
      in if cstr name = [] then Some (None, lil)
         else if local \<noteq> LIL_SETVAR_LOCAL_NEW then
           (let var0 = lil_find_var lil env name;
                var = (if local = LIL_SETVAR_LOCAL_ONLY \<and> var0 \<noteq> None \<and>
                          var_env (var_at lil (the var0)) = rootenv lil \<and>
                          var_env (var_at lil (the var0)) \<noteq> env
                       then None else var0);
                rooted = ((var = None \<and> env = rootenv lil) \<or>
                          (var \<noteq> None \<and> var_env (var_at lil (the var)) = rootenv lil));
                (rc, h1) = (if rooted then env_set H (cstr name) (lil_to_string val) (host lil)
                            else (0, host lil));
                lil1 = lil\<lparr>host := h1\<rparr>
            in if rooted \<and> val = None then None
               else if rooted \<and> rc \<noteq> 0 then Some (None, lil1)
               else
                 (case var of
                    Some p \<Rightarrow>
                      (let lil2 = upd_var p (\<lambda>x. x\<lparr>var_v := lil_clone_value val\<rparr>) lil1
                       in case var_w (var_at lil2 p) of
                            None \<Rightarrow> Some (Some p, lil2)
                          | Some w \<Rightarrow>
                              (let save_env = l_env lil2
                               in case P (lil2\<lparr>l_env := var_env (var_at lil2 p)\<rparr>) w 0 True of
                                    None \<Rightarrow> None
                                  | Some (r, lil3) \<Rightarrow> Some (Some p, lil3\<lparr>l_env := save_env\<rparr>)))
                  | None \<Rightarrow> Some (append_var lil1 env name val)))
         else Some (append_var lil env name val))"

section \<open>The parser\<close>

definition get_bracketpart :: "'h parse_fn \<Rightarrow> 'h host \<Rightarrow> 'h lil \<Rightarrow> (string option \<times> 'h lil) option" where
  "get_bracketpart P H lil =
     (let save_eol = ignoreeol lil;
          lil0 = lil\<lparr>ignoreeol := False, l_head := l_head lil + 1\<rparr>
      in case scan_nested CHR ''['' CHR '']'' (the_code lil0) (clen lil0) (l_head lil0) 1 (alloc_value None) of
           (h, cnt, cmd) \<Rightarrow>
             (let lil1 = lil0\<lparr>l_head := h\<rparr>
              in if cnt \<noteq> 0
                 then Some (None, (lil_set_error_unbalanced H lil1 CHR '']'')\<lparr>ignoreeol := save_eol\<rparr>)
                 else (case lil_parse_value P lil1 (Some cmd) False of None \<Rightarrow> None
                       | Some (val, lil2) \<Rightarrow> Some (val, lil2\<lparr>ignoreeol := save_eol\<rparr>))))"

text \<open>\<open>W\<close> is the \<^verbatim>\<open>next_word\<close> that \<^verbatim>\<open>get_dollarpart\<close> calls.\<close>

type_synonym 'h word_fn = "'h lil \<Rightarrow> (string \<times> 'h lil) option"

definition get_dollarpart :: "'h word_fn \<Rightarrow> 'h parse_fn \<Rightarrow> 'h lil \<Rightarrow> (string option \<times> 'h lil) option" where
  "get_dollarpart W P lil =
     (case W (lil\<lparr>l_head := l_head lil + 1\<rparr>) of None \<Rightarrow> None
      | Some (name, lil1) \<Rightarrow>
          (let tmp = lil_append_val (alloc_value (Some (dollarprefix lil1))) (Some name)
           in lil_parse_value P lil1 (Some tmp) False))"

text \<open>
  The loop of a quoted word; the result is \<^verbatim>\<open>matched\<close>, the value and the interpreter. After a
  substitution the source steps \<^verbatim>\<open>head\<close> back by one and forward by one.
\<close>

primrec next_word_quoted :: "nat \<Rightarrow> 'h word_fn \<Rightarrow> 'h parse_fn \<Rightarrow> 'h host \<Rightarrow> 'h lil \<Rightarrow> char \<Rightarrow> string \<Rightarrow>
    (bool \<times> string \<times> 'h lil) option" where
  "next_word_quoted 0 W P H lil sc val = None"
| "next_word_quoted (Suc n) W P H lil sc val =
     (if l_head lil < clen lil then
        (if code_at lil (l_head lil) = CHR ''['' \<or> code_at lil (l_head lil) = CHR ''$'' then
           (case (if code_at lil (l_head lil) = CHR ''$'' then get_dollarpart W P lil
                  else get_bracketpart P H lil) of
              None \<Rightarrow> None
            | Some (tmp, lil1) \<Rightarrow> next_word_quoted n W P H lil1 sc (lil_append_val val tmp))
         else if code_at lil (l_head lil) = CHR 0x5C then
           (let lil1 = lil\<lparr>l_head := l_head lil + 1\<rparr>
            in next_word_quoted n W P H (lil1\<lparr>l_head := l_head lil1 + 1\<rparr>) sc
                 (lil_append_char val (unescape (code_at lil1 (l_head lil1)))))
         else if code_at lil (l_head lil) = sc then Some (True, val, lil\<lparr>l_head := l_head lil + 1\<rparr>)
         else next_word_quoted n W P H (lil\<lparr>l_head := l_head lil + 1\<rparr>) sc
                (lil_append_char val (code_at lil (l_head lil))))
      else Some (False, val, lil))"

primrec next_word :: "nat \<Rightarrow> 'h parse_fn \<Rightarrow> 'h host \<Rightarrow> 'h lil \<Rightarrow> (string \<times> 'h lil) option" where
  "next_word 0 P H lil = None"
| "next_word (Suc n) P H lil =
     (let lil0 = lil_skip_spaces lil
      in if code_at lil0 (l_head lil0) = CHR ''$'' then
           (case get_dollarpart (next_word n P H) P lil0 of None \<Rightarrow> None
            | Some (val, lil1) \<Rightarrow> Some (case val of Some v \<Rightarrow> v | None \<Rightarrow> alloc_value None, lil1))
         else if code_at lil0 (l_head lil0) = CHR ''{'' then
           (case scan_nested CHR ''{'' CHR ''}'' (the_code lil0) (clen lil0) (l_head lil0 + 1) 1 (alloc_value None) of
              (h, cnt, val) \<Rightarrow>
                (let lil1 = lil0\<lparr>l_head := h\<rparr>
                 in if cnt \<noteq> 0 then Some (alloc_value None, lil_set_error_unbalanced H lil1 CHR ''}'')
                    else Some (val, lil1)))
         else if code_at lil0 (l_head lil0) = CHR ''['' then
           (case get_bracketpart P H lil0 of None \<Rightarrow> None
            | Some (val, lil1) \<Rightarrow> Some (case val of Some v \<Rightarrow> v | None \<Rightarrow> alloc_value None, lil1))
         else if code_at lil0 (l_head lil0) = CHR 0x22 \<or> code_at lil0 (l_head lil0) = CHR 0x27 then
           (let sc = code_at lil0 (l_head lil0)
            in case next_word_quoted n (next_word n P H) P H (lil0\<lparr>l_head := l_head lil0 + 1\<rparr>) sc (alloc_value None) of
                 None \<Rightarrow> None
               | Some (matched, val, lil1) \<Rightarrow>
                   if \<not> matched then Some (alloc_value None, lil_set_error_unbalanced H lil1 sc)
                   else Some (val, lil1))
         else
           (let start = l_head lil0;
                h = scan_word (the_code lil0) (clen lil0) (l_head lil0)
            in Some (alloc_value_len (the_code lil0) start (h - start), lil0\<lparr>l_head := h\<rparr>)))"

text \<open>
  The \<^verbatim>\<open>do ... while\<close> of \<^verbatim>\<open>substitute\<close> that collects one word \<open>w\<close>; an inner \<open>None\<close> is the
  \<^verbatim>\<open>return NULL\<close> of a parser that cannot proceed.
\<close>

primrec substitute_word :: "nat \<Rightarrow> 'h parse_fn \<Rightarrow> 'h host \<Rightarrow> 'h lil \<Rightarrow> string \<Rightarrow> (string option \<times> 'h lil) option" where
  "substitute_word 0 P H lil w = None"
| "substitute_word (Suc n) P H lil w =
     (let head0 = l_head lil
      in case next_word n P H lil of None \<Rightarrow> None
         | Some (wp, lil1) \<Rightarrow>
             if head0 = l_head lil1 then Some (None, lil1)
             else
               (let w1 = lil_append_val w (Some wp)
                in if l_head lil1 < clen lil1 \<and> \<not> eolchar (code_at lil1 (l_head lil1)) \<and>
                      \<not> isspace (code_at lil1 (l_head lil1)) \<and> l_error lil1 = ERROR_NOERROR
                   then substitute_word n P H lil1 w1
                   else Some (Some w1, lil1)))"

primrec substitute_words :: "nat \<Rightarrow> 'h parse_fn \<Rightarrow> 'h host \<Rightarrow> 'h lil \<Rightarrow> string list \<Rightarrow>
    (string list option \<times> 'h lil) option" where
  "substitute_words 0 P H lil words = None"
| "substitute_words (Suc n) P H lil words =
     (if l_head lil < clen lil \<and> \<not> ateol lil \<and> l_error lil = ERROR_NOERROR then
        (case substitute_word n P H lil (alloc_value None) of None \<Rightarrow> None
         | Some (None, lil1) \<Rightarrow> Some (None, lil1)
         | Some (Some w, lil1) \<Rightarrow> substitute_words n P H (lil_skip_spaces lil1) (words @ [w]))
      else Some (Some words, lil))"

definition substitute :: "nat \<Rightarrow> 'h parse_fn \<Rightarrow> 'h host \<Rightarrow> 'h lil \<Rightarrow> (string list option \<times> 'h lil) option" where
  "substitute n P H lil = substitute_words n P H (lil_skip_spaces lil) []"

text \<open>
  \<^verbatim>\<open>lil_subst_to_list\<close> takes the buffer \<^verbatim>\<open>lil_to_string(code)\<close> and its length \<^verbatim>\<open>code->l\<close>; with
  a null \<open>code\<close> this reads through a null pointer. A null result of \<^verbatim>\<open>substitute\<close> becomes the
  empty list.
\<close>

definition lil_subst_to_list :: "nat \<Rightarrow> 'h parse_fn \<Rightarrow> 'h host \<Rightarrow> 'h lil \<Rightarrow> string option \<Rightarrow> (string list \<times> 'h lil) option" where
  "lil_subst_to_list n P H lil code =
     (case code of
        None \<Rightarrow> None
      | Some d \<Rightarrow>
          (let lil1 = lil\<lparr>l_code := Some d, clen := length d, l_head := 0, ignoreeol := True\<rparr>
           in case substitute n P H lil1 of None \<Rightarrow> None
              | Some (words, lil2) \<Rightarrow>
                  Some (case words of None \<Rightarrow> [] | Some ws \<Rightarrow> ws,
                        lil2\<lparr>l_code := l_code lil, clen := clen lil, l_head := l_head lil,
                             ignoreeol := ignoreeol lil\<rparr>)))"

definition lil_subst_to_value :: "nat \<Rightarrow> 'h parse_fn \<Rightarrow> 'h host \<Rightarrow> 'h lil \<Rightarrow> string option \<Rightarrow> (string \<times> 'h lil) option" where
  "lil_subst_to_value n P H lil code =
     (case lil_subst_to_list n P H lil code of None \<Rightarrow> None
      | Some (words, lil1) \<Rightarrow> Some (lil_list_to_value words False, lil1))"

definition lil_eval_expr :: "nat \<Rightarrow> 'h parse_fn \<Rightarrow> 'h host \<Rightarrow> 'h lil \<Rightarrow> string option \<Rightarrow> (string option \<times> 'h lil) option" where
  "lil_eval_expr n P H lil code =
     (case ctrlc H (host lil) of
        (intr, h1) \<Rightarrow>
          (let lil0 = lil\<lparr>host := h1\<rparr>
           in if intr then Some (None, lil_set_error lil0 (Some ''interrupted''))
              else
                (case lil_subst_to_value n P H lil0 code of None \<Rightarrow> None
                 | Some (code1, lil1) \<Rightarrow>
                     if l_error lil1 \<noteq> ERROR_NOERROR then Some (None, lil1)
                     else if byte_at code1 0 = NUL then Some (Some (lil_alloc_integer 0), lil1)
                     else
                       (case ee_expr n (CONFIG_LIL_FULL H)
                               \<lparr>ee_code = code1, ee_len = length code1, ee_head = 0, ee_ival = 0, ee_error = 0\<rparr> of
                          None \<Rightarrow> None
                        | Some ee \<Rightarrow>
                            if ee_error ee \<noteq> 0 then
                              Some (None,
                                    if ee_error ee = EERR_DIVISION_BY_ZERO
                                    then lil_set_error lil1 (Some ''division by zero in expression'')
                                    else if ee_error ee = EERR_SYNTAX_ERROR
                                    then lil_set_error lil1 (Some ''expression syntax error'')
                                    else lil1)
                            else Some (Some (lil_alloc_integer (ee_ival ee)), lil1)))))"

section \<open>Built-in commands\<close>

text \<open>
  A built-in receives \<^verbatim>\<open>argc\<close> and \<^verbatim>\<open>argv\<close> as the list \<open>argv\<close>. The loop that joins arguments with
  single spaces occurs in \<^verbatim>\<open>fnc_quote\<close>, \<^verbatim>\<open>fnc_eval\<close> and \<^verbatim>\<open>fnc_expr\<close>.
\<close>

fun append_args :: "string \<Rightarrow> nat \<Rightarrow> string list \<Rightarrow> string" where
  "append_args r i [] = r"
| "append_args r i (a # as) =
     append_args (lil_append_val (if i \<noteq> 0 then lil_append_char r CHR '' '' else r) (Some a)) (Suc i) as"

fun to_boolean_loop :: "string \<Rightarrow> bool \<Rightarrow> bool" where
  "to_boolean_loop [] dots = False"
| "to_boolean_loop (c # cs) dots =
     (if c \<noteq> CHR ''0'' \<and> c \<noteq> CHR ''.'' then True
      else if c = CHR ''.'' then (if dots then True else to_boolean_loop cs True)
      else to_boolean_loop cs dots)"

definition lil_to_boolean :: "string option \<Rightarrow> bool" where
  "lil_to_boolean val = (let s = lil_to_string val in if s = [] then False else to_boolean_loop s False)"

definition fnc_quote :: "'h lil \<Rightarrow> string list \<Rightarrow> (string option \<times> 'h lil) option" where
  "fnc_quote lil argv =
     (if length argv < 1 then Some (None, lil)
      else Some (Some (append_args (alloc_value None) 0 argv), lil))"

fun fnc_set_loop :: "'h parse_fn \<Rightarrow> 'h host \<Rightarrow> lil_setvar \<Rightarrow> 'h lil \<Rightarrow> (nat \<times> nat) option \<Rightarrow> string list \<Rightarrow>
    (string option \<times> 'h lil) option" where
  "fnc_set_loop P H access lil var [] =
     Some (case var of None \<Rightarrow> None | Some p \<Rightarrow> lil_clone_value (var_v (var_at lil p)), lil)"
| "fnc_set_loop P H access lil var [x] =
     Some (lil_clone_value (lil_get_var H lil (lil_to_string (Some x))), lil)"
| "fnc_set_loop P H access lil var (x # y # rest) =
     (case lil_set_var P H lil (lil_to_string (Some x)) (Some y) access of None \<Rightarrow> None
      | Some (var1, lil1) \<Rightarrow> fnc_set_loop P H access lil1 var1 rest)"

definition fnc_set :: "'h parse_fn \<Rightarrow> 'h host \<Rightarrow> 'h lil \<Rightarrow> string list \<Rightarrow> (string option \<times> 'h lil) option" where
  "fnc_set P H lil argv =
     (if length argv = 0 then Some (None, lil)
      else if lil_to_string (Some (argv ! 0)) = ''global''
      then fnc_set_loop P H LIL_SETVAR_GLOBAL lil None (drop 1 argv)
      else fnc_set_loop P H LIL_SETVAR_LOCAL lil None argv)"

fun fnc_local :: "'h parse_fn \<Rightarrow> 'h host \<Rightarrow> 'h lil \<Rightarrow> string list \<Rightarrow> (string option \<times> 'h lil) option" where
  "fnc_local P H lil [] = Some (None, lil)"
| "fnc_local P H lil (a # as) =
     (let varname = lil_to_string (Some a)
      in if lil_find_local_var lil (l_env lil) varname = None then
           (case lil_set_var P H lil varname (Some (alloc_value None)) LIL_SETVAR_LOCAL_NEW of None \<Rightarrow> None
            | Some (var, lil1) \<Rightarrow> fnc_local P H lil1 as)
         else fnc_local P H lil as)"

definition fnc_eval :: "'h parse_fn \<Rightarrow> 'h lil \<Rightarrow> string list \<Rightarrow> (string option \<times> 'h lil) option" where
  "fnc_eval P lil argv =
     (if length argv = 1 then lil_parse_value P lil (Some (argv ! 0)) False
      else if length argv > 1 then lil_parse_value P lil (Some (append_args (alloc_value None) 0 argv)) False
      else Some (None, lil))"

definition fnc_return :: "'h lil \<Rightarrow> string list \<Rightarrow> (string option \<times> 'h lil) option" where
  "fnc_return lil argv =
     (let lil1 = upd_env (l_env lil) (\<lambda>e. e\<lparr>breakrun := True\<rparr>) lil;
          lil2 = upd_env (l_env lil1)
                   (\<lambda>e. e\<lparr>retval := (if length argv < 1 then None else lil_clone_value (Some (argv ! 0)))\<rparr>) lil1;
          lil3 = upd_env (l_env lil2) (\<lambda>e. e\<lparr>retval_set := True\<rparr>) lil2
      in Some (if length argv < 1 then None else lil_clone_value (Some (argv ! 0)), lil3))"

definition fnc_result :: "'h lil \<Rightarrow> string list \<Rightarrow> (string option \<times> 'h lil) option" where
  "fnc_result lil argv =
     (let lil1 = (if length argv > 0
                  then upd_env (l_env lil)
                         (\<lambda>e. e\<lparr>retval := lil_clone_value (Some (argv ! 0)), retval_set := True\<rparr>) lil
                  else lil)
      in Some (if retval_set (cur_env lil1) then lil_clone_value (retval (cur_env lil1)) else None, lil1))"

definition fnc_list :: "'h lil \<Rightarrow> string list \<Rightarrow> (string option \<times> 'h lil) option" where
  "fnc_list lil argv = Some (Some (lil_list_to_value argv True), lil)"

definition fnc_subst :: "nat \<Rightarrow> 'h parse_fn \<Rightarrow> 'h host \<Rightarrow> 'h lil \<Rightarrow> string list \<Rightarrow> (string option \<times> 'h lil) option" where
  "fnc_subst n P H lil argv =
     (if length argv < 1 then Some (None, lil)
      else (case lil_subst_to_value n P H lil (Some (argv ! 0)) of None \<Rightarrow> None
            | Some (r, lil1) \<Rightarrow> Some (Some r, lil1)))"

definition fnc_expr :: "nat \<Rightarrow> 'h parse_fn \<Rightarrow> 'h host \<Rightarrow> 'h lil \<Rightarrow> string list \<Rightarrow> (string option \<times> 'h lil) option" where
  "fnc_expr n P H lil argv =
     (if length argv = 1 then lil_eval_expr n P H lil (Some (argv ! 0))
      else if length argv > 1 then lil_eval_expr n P H lil (Some (append_args (alloc_value None) 0 argv))
      else Some (None, lil))"

definition fnc_if :: "nat \<Rightarrow> 'h parse_fn \<Rightarrow> 'h host \<Rightarrow> 'h lil \<Rightarrow> string list \<Rightarrow> (string option \<times> 'h lil) option" where
  "fnc_if n P H lil argv =
     (if length argv < 1 then Some (None, lil)
      else
        (let neg = (lil_to_string (Some (argv ! 0)) = ''not'');
             base = (if neg then 1 else 0)
         in if length argv < base + 2 then Some (None, lil)
            else
              (case lil_eval_expr n P H lil (Some (argv ! base)) of None \<Rightarrow> None
               | Some (val, lil1) \<Rightarrow>
                   if val = None \<or> l_error lil1 \<noteq> ERROR_NOERROR then Some (None, lil1)
                   else
                     (let v = (if neg then \<not> lil_to_boolean val else lil_to_boolean val)
                      in if v then lil_parse_value P lil1 (Some (argv ! (base + 1))) False
                         else if length argv > base + 2 then lil_parse_value P lil1 (Some (argv ! (base + 2))) False
                         else Some (None, lil1)))))"

primrec fnc_while_loop :: "nat \<Rightarrow> 'h parse_fn \<Rightarrow> 'h host \<Rightarrow> string list \<Rightarrow> nat \<Rightarrow> bool \<Rightarrow> 'h lil \<Rightarrow> string option \<Rightarrow>
    (string option \<times> 'h lil) option" where
  "fnc_while_loop 0 P H argv base neg lil r = None"
| "fnc_while_loop (Suc n) P H argv base neg lil r =
     (if l_error lil = ERROR_NOERROR \<and> \<not> breakrun (cur_env lil) then
        (case lil_eval_expr n P H lil (Some (argv ! base)) of None \<Rightarrow> None
         | Some (val, lil1) \<Rightarrow>
             if val = None \<or> l_error lil1 \<noteq> ERROR_NOERROR then Some (None, lil1)
             else
               (let v = (if neg then \<not> lil_to_boolean val else lil_to_boolean val)
                in if \<not> v then Some (r, lil1)
                   else (case lil_parse_value P lil1 (Some (argv ! (base + 1))) False of None \<Rightarrow> None
                         | Some (r1, lil2) \<Rightarrow> fnc_while_loop n P H argv base neg lil2 r1)))
      else Some (r, lil))"

definition fnc_while :: "nat \<Rightarrow> 'h parse_fn \<Rightarrow> 'h host \<Rightarrow> 'h lil \<Rightarrow> string list \<Rightarrow> (string option \<times> 'h lil) option" where
  "fnc_while n P H lil argv =
     (if length argv < 1 then Some (None, lil)
      else
        (let neg = (lil_to_string (Some (argv ! 0)) = ''not'');
             base = (if neg then 1 else 0)
         in if length argv < base + 2 then Some (None, lil)
            else fnc_while_loop n P H argv base neg lil None))"

definition fnc_try :: "'h parse_fn \<Rightarrow> 'h lil \<Rightarrow> string list \<Rightarrow> (string option \<times> 'h lil) option" where
  "fnc_try P lil argv =
     (if length argv < 1 then Some (None, lil)
      else if l_error lil \<noteq> ERROR_NOERROR then Some (None, lil)
      else
        (case lil_parse_value P lil (Some (argv ! 0)) False of None \<Rightarrow> None
         | Some (r, lil1) \<Rightarrow>
             if l_error lil1 \<noteq> ERROR_NOERROR then
               (let lil2 = lil1\<lparr>l_error := ERROR_NOERROR\<rparr>
                in if length argv > 1 then lil_parse_value P lil2 (Some (argv ! 1)) False
                   else Some (None, lil2))
             else Some (r, lil1)))"

definition fnc_error :: "'h lil \<Rightarrow> string list \<Rightarrow> (string option \<times> 'h lil) option" where
  "fnc_error lil argv =
     Some (None, lil_set_error lil (if length argv > 0 then Some (lil_to_string (Some (argv ! 0))) else None))"

definition fnc_catcher :: "'h lil \<Rightarrow> string list \<Rightarrow> (string option \<times> 'h lil) option" where
  "fnc_catcher lil argv =
     (if length argv = 0 then Some (Some (alloc_value (catcher lil)), lil)
      else
        (let c = lil_to_string (Some (argv ! 0))
         in Some (None, lil\<lparr>catcher := (if c \<noteq> [] then Some c else None)\<rparr>)))"

text \<open>The loop of \<^verbatim>\<open>fnc_watch\<close> over all arguments but the last, which is \<open>wcode\<close>.\<close>

fun fnc_watch_loop :: "'h parse_fn \<Rightarrow> 'h host \<Rightarrow> string \<Rightarrow> 'h lil \<Rightarrow> string list \<Rightarrow> (string option \<times> 'h lil) option" where
  "fnc_watch_loop P H wcode lil [] = Some (None, lil)"
| "fnc_watch_loop P H wcode lil (a # as) =
     (let vname = lil_to_string (Some a)
      in if vname = [] then fnc_watch_loop P H wcode lil as
         else
           (case (case lil_find_var lil (l_env lil) vname of
                    Some p \<Rightarrow> Some (Some p, lil)
                  | None \<Rightarrow> lil_set_var P H lil vname None LIL_SETVAR_LOCAL_NEW) of
              None \<Rightarrow> None
            | Some (None, lil1) \<Rightarrow> fnc_watch_loop P H wcode lil1 as
            | Some (Some p, lil1) \<Rightarrow>
                fnc_watch_loop P H wcode
                  (upd_var p (\<lambda>x. x\<lparr>var_w := (if wcode \<noteq> [] then Some wcode else None)\<rparr>) lil1) as))"

definition fnc_watch :: "'h parse_fn \<Rightarrow> 'h host \<Rightarrow> 'h lil \<Rightarrow> string list \<Rightarrow> (string option \<times> 'h lil) option" where
  "fnc_watch P H lil argv =
     (if length argv < 2 then Some (None, lil)
      else fnc_watch_loop P H (lil_to_string (Some (argv ! (length argv - 1)))) lil (butlast argv))"

text \<open>\<^verbatim>\<open>lil_unused_name\<close>: \<^verbatim>\<open>sprintf(name, "!!un!%s!%09u!nu!!", part, (unsigned int)i)\<close> for \<open>i = 0, 1, ...\<close>\<close>

definition unused_name_at :: "string \<Rightarrow> nat \<Rightarrow> string" where
  "unused_name_at part i =
     (let d = dec_digits (i mod 2 ^ 32)
      in ''!!un!'' @ cstr part @ ''!'' @ replicate (9 - length d) CHR ''0'' @ d @ ''!nu!!'')"

primrec unused_name_loop :: "nat \<Rightarrow> 'h lil \<Rightarrow> string \<Rightarrow> nat \<Rightarrow> string option" where
  "unused_name_loop 0 lil part i = None"
| "unused_name_loop (Suc n) lil part i =
     (let name = unused_name_at part i
      in if fst (lil_find_cmd lil name) \<noteq> None then unused_name_loop n lil part (i + 1)
         else if lil_find_var lil (l_env lil) name \<noteq> None then unused_name_loop n lil part (i + 1)
         else Some (alloc_value (Some name)))"

definition lil_unused_name :: "nat \<Rightarrow> 'h lil \<Rightarrow> string \<Rightarrow> string option" where
  "lil_unused_name n lil part = unused_name_loop n lil part 0"

text \<open>The three places of \<^verbatim>\<open>fnc_func\<close> that fill in a function added by \<^verbatim>\<open>add_func\<close>.\<close>

definition define_func :: "'h lil \<Rightarrow> string \<Rightarrow> string list \<Rightarrow> string option \<Rightarrow> 'h lil" where
  "define_func lil name fargs body =
     (case add_func lil name of
        (c, lil1) \<Rightarrow> lil1\<lparr>funcs := (funcs lil1)(c := (funcs lil1 c)\<lparr>fn_argnames := Some fargs, fn_code := body\<rparr>)\<rparr>)"

definition fnc_func :: "nat \<Rightarrow> 'h parse_fn \<Rightarrow> 'h host \<Rightarrow> 'h lil \<Rightarrow> string list \<Rightarrow> (string option \<times> 'h lil) option" where
  "fnc_func n P H lil argv =
     (if length argv < 1 then Some (None, lil)
      else if length argv \<ge> 3 then
        (case lil_subst_to_list n P H lil (Some (argv ! 1)) of None \<Rightarrow> None
         | Some (fargs, lil1) \<Rightarrow>
             Some (lil_clone_value (Some (argv ! 0)),
                   define_func lil1 (lil_to_string (Some (argv ! 0))) fargs (lil_clone_value (Some (argv ! 2)))))
      else
        (case lil_unused_name n lil ''anonymous-function'' of None \<Rightarrow> None
         | Some name \<Rightarrow>
             if length argv < 2 then
               (case lil_subst_to_list n P H lil (Some (alloc_value (Some ''args''))) of None \<Rightarrow> None
                | Some (fargs, lil1) \<Rightarrow>
                    Some (Some name,
                          define_func lil1 (lil_to_string (Some name)) fargs (lil_clone_value (Some (argv ! 0)))))
             else
               (case lil_subst_to_list n P H lil (Some (argv ! 0)) of None \<Rightarrow> None
                | Some (fargs, lil1) \<Rightarrow>
                    Some (Some name,
                          define_func lil1 (lil_to_string (Some name)) fargs (lil_clone_value (Some (argv ! 1)))))))"

text \<open>A call through a \<^verbatim>\<open>lil_func_proc_t\<close>.\<close>

definition call_proc :: "nat \<Rightarrow> 'h parse_fn \<Rightarrow> 'h host \<Rightarrow> lil_func_proc_t \<Rightarrow> 'h lil \<Rightarrow> string list \<Rightarrow>
    (string option \<times> 'h lil) option" where
  "call_proc n P H p lil argv =
     (case p of
        Fnc_set \<Rightarrow> fnc_set P H lil argv
      | Fnc_local \<Rightarrow> fnc_local P H lil argv
      | Fnc_eval \<Rightarrow> fnc_eval P lil argv
      | Fnc_return \<Rightarrow> fnc_return lil argv
      | Fnc_result \<Rightarrow> fnc_result lil argv
      | Fnc_quote \<Rightarrow> fnc_quote lil argv
      | Fnc_list \<Rightarrow> fnc_list lil argv
      | Fnc_expr \<Rightarrow> fnc_expr n P H lil argv
      | Fnc_if \<Rightarrow> fnc_if n P H lil argv
      | Fnc_while \<Rightarrow> fnc_while n P H lil argv
      | Fnc_try \<Rightarrow> fnc_try P lil argv
      | Fnc_error \<Rightarrow> fnc_error lil argv
      | Fnc_func \<Rightarrow> fnc_func n P H lil argv
      | Fnc_watch \<Rightarrow> fnc_watch P H lil argv
      | Fnc_catcher \<Rightarrow> fnc_catcher lil argv
      | Fnc_subst \<Rightarrow> fnc_subst n P H lil argv
      | Other_proc name \<Rightarrow> other_proc H name n P lil argv)"

section \<open>The evaluator\<close>

definition MAX_CATCHER_DEPTH :: nat where
  "MAX_CATCHER_DEPTH = 16384"

definition unknown_cmd :: "'h parse_fn \<Rightarrow> 'h host \<Rightarrow> 'h lil \<Rightarrow> string list \<Rightarrow> (string option \<times> 'h lil) option" where
  "unknown_cmd P H lil words =
     (if CONFIG_LIL_FULL H \<and> catcher lil \<noteq> None then
        (if in_catcher lil < MAX_CATCHER_DEPTH then
           (let lil1 = lil\<lparr>in_catcher := in_catcher lil + 1\<rparr>;
                lil2 = lil_push_env lil1;
                lil3 = upd_env (l_env lil2) (\<lambda>e. e\<lparr>catcher_for := Some (words ! 0)\<rparr>) lil2;
                args = lil_list_to_value words True
            in case lil_set_var P H lil3 ''args'' (Some args) LIL_SETVAR_LOCAL_NEW of None \<Rightarrow> None
               | Some (var, lil4) \<Rightarrow>
                   (case P lil4 (case catcher lil4 of Some c \<Rightarrow> c | None \<Rightarrow> []) 0 True of None \<Rightarrow> None
                    | Some (r, lil5) \<Rightarrow>
                        (let lil6 = lil_pop_env lil5
                         in Some (r, lil6\<lparr>in_catcher := in_catcher lil6 - 1\<rparr>))))
         else Some (None, lil_set_errorf_at H lil (l_head lil)
                            (''catcher limit reached while trying to call unknown function '' @ cstr (words ! 0))))
      else Some (None, lil_set_errorf_at H lil (l_head lil) (''unknown function '' @ cstr (words ! 0))))"

text \<open>
  The argument binding of \<^verbatim>\<open>run_cmd\<close>: the loop over \<^verbatim>\<open>cmd->argnames\<close>, \<open>i\<close> the index of the head
  of the rest, and the choice between it and the single \<^verbatim>\<open>args\<close>.
\<close>

fun bind_loop :: "'h parse_fn \<Rightarrow> 'h host \<Rightarrow> 'h lil \<Rightarrow> string list \<Rightarrow> string list \<Rightarrow> nat \<Rightarrow> 'h lil option" where
  "bind_loop P H lil [] words i = Some lil"
| "bind_loop P H lil (a # as) words i =
     (let val = (if i < length words - 1 then words ! (i + 1) else alloc_value None)
      in case lil_set_var P H lil (lil_to_string (Some a)) (Some val) LIL_SETVAR_LOCAL_NEW of None \<Rightarrow> None
         | Some (var, lil1) \<Rightarrow> bind_loop P H lil1 as words (i + 1))"

definition bind_args :: "'h parse_fn \<Rightarrow> 'h host \<Rightarrow> 'h lil \<Rightarrow> string list \<Rightarrow> string list \<Rightarrow> 'h lil option" where
  "bind_args P H lil argnames words =
     (if length argnames = 1 \<and> lil_to_string (Some (argnames ! 0)) = ''args'' then
        (let args = lil_list_to_value words True
         in case lil_set_var P H lil ''args'' (Some args) LIL_SETVAR_LOCAL_NEW of None \<Rightarrow> None
            | Some (var, lil1) \<Rightarrow> Some lil1)
      else bind_loop P H lil argnames words 0)"

text \<open>
  \<open>cmd\<close> is the address of the \<^verbatim>\<open>struct lil_func\<close>. \<^verbatim>\<open>cmd->argnames->c\<close> reads through
  \<^verbatim>\<open>argnames\<close>: with a null \<^verbatim>\<open>argnames\<close> the call does not return.
\<close>

definition run_cmd :: "nat \<Rightarrow> 'h parse_fn \<Rightarrow> 'h host \<Rightarrow> 'h lil \<Rightarrow> nat \<Rightarrow> string list \<Rightarrow> (string option \<times> 'h lil) option" where
  "run_cmd n P H lil cmd words =
     (case fn_proc (funcs lil cmd) of
        Some p \<Rightarrow>
          (let shead = l_head lil
           in case call_proc n P H p lil (tl words) of None \<Rightarrow> None
              | Some (r, lil1) \<Rightarrow>
                  Some (r, if l_error lil1 = ERROR_FIXHEAD
                           then lil1\<lparr>l_error := ERROR_DEFAULT, err_head := shead\<rparr>
                           else lil1))
      | None \<Rightarrow>
          (let lil1 = lil_push_env lil;
               lil2 = upd_env (l_env lil1) (\<lambda>e. e\<lparr>env_func := Some cmd\<rparr>) lil1
           in case fn_argnames (funcs lil2 cmd) of
                None \<Rightarrow> None
              | Some argnames \<Rightarrow>
                  (case bind_args P H lil2 argnames words of
                     None \<Rightarrow> None
                   | Some lil3 \<Rightarrow>
                       (case lil_parse_value P lil3 (fn_code (funcs lil3 cmd)) True of None \<Rightarrow> None
                        | Some (r, lil4) \<Rightarrow> Some (r, lil_pop_env lil4)))))"

text \<open>The end of an iteration of \<^verbatim>\<open>lil_parse\<close>: past the end of the line.\<close>

definition skip_to_next_line :: "'h lil \<Rightarrow> 'h lil" where
  "skip_to_next_line lil =
     (let lil1 = lil_skip_spaces lil;
          lil2 = (if ignoreeol lil1 then lil1 else lil1\<lparr>l_head := skip_ateol (the_code lil1) (l_head lil1)\<rparr>)
      in lil_skip_spaces lil2)"

text \<open>
  One iteration of the loop of \<^verbatim>\<open>lil_parse\<close>: the value \<^verbatim>\<open>val\<close>, the interpreter, and whether the
  iteration left the loop by \<^verbatim>\<open>goto cleanup\<close>.
\<close>

definition lil_parse_step :: "nat \<Rightarrow> 'h parse_fn \<Rightarrow> 'h host \<Rightarrow> 'h lil \<Rightarrow> (string option \<times> 'h lil \<times> bool) option" where
  "lil_parse_step n P H lil =
     (case ctrlc H (host lil) of
        (intr, h1) \<Rightarrow>
          (let lil0 = lil\<lparr>host := h1\<rparr>
           in if intr then Some (None, lil_set_error_at lil0 (l_head lil0) (Some ''interrupted''), True)
              else
                (case substitute n P H lil0 of None \<Rightarrow> None
                 | Some (None, lil1) \<Rightarrow> Some (None, lil1, True)
                 | Some (Some words, lil1) \<Rightarrow>
                     if l_error lil1 \<noteq> ERROR_NOERROR then Some (None, lil1, True)
                     else if length words \<noteq> 0 then
                       (case fst (lil_find_cmd lil1 (lil_to_string (Some (words ! 0)))) of
                          None \<Rightarrow>
                            if length (words ! 0) \<noteq> 0 then
                              (case unknown_cmd P H lil1 words of None \<Rightarrow> None
                               | Some (None, lil2) \<Rightarrow> Some (None, lil2, True)
                               | Some (Some v, lil2) \<Rightarrow>
                                   if breakrun (cur_env lil2) then Some (Some v, lil2, True)
                                   else Some (Some v, skip_to_next_line lil2, False))
                            else if breakrun (cur_env lil1) then Some (None, lil1, True)
                            else Some (None, skip_to_next_line lil1, False)
                        | Some cmd \<Rightarrow>
                            (case run_cmd n P H lil1 cmd words of None \<Rightarrow> None
                             | Some (val, lil2) \<Rightarrow>
                                 if breakrun (cur_env lil2) then Some (val, lil2, True)
                                 else Some (val, skip_to_next_line lil2, False)))
                     else Some (None, skip_to_next_line lil1, False))))"

primrec lil_parse_loop :: "nat \<Rightarrow> 'h parse_fn \<Rightarrow> 'h host \<Rightarrow> 'h lil \<Rightarrow> string option \<Rightarrow> (string option \<times> 'h lil) option" where
  "lil_parse_loop 0 P H lil val = None"
| "lil_parse_loop (Suc n) P H lil val =
     (if l_head lil < clen lil \<and> l_error lil = ERROR_NOERROR then
        (case lil_parse_step n P H lil of None \<Rightarrow> None
         | Some (val1, lil1, cleanup) \<Rightarrow>
             if cleanup then Some (val1, lil1) else lil_parse_loop n P H lil1 val1)
      else Some (val, lil))"

text \<open>
  \<^verbatim>\<open>lil_parse\<close> around its loop: the statements before the loop, and those from the label
  \<^verbatim>\<open>cleanup\<close> on, which restore the cursor saved on entry (here read from the interpreter on
  entry, \<open>lil\<close>). \<^verbatim>\<open>LIL_ENABLE_RECLIMIT\<close> is not defined in the source, so there is no recursion
  limit.
\<close>

definition lil_parse_enter :: "'h lil \<Rightarrow> string \<Rightarrow> nat \<Rightarrow> bool \<Rightarrow> 'h lil" where
  "lil_parse_enter lil code codelen funclevel =
     (let lil1 = (if l_code lil = None then lil\<lparr>rootcode := Some code\<rparr> else lil);
          lil2 = lil1\<lparr>l_code := Some code, clen := (if codelen \<noteq> 0 then codelen else strlen code), l_head := 0\<rparr>;
          lil3 = lil_skip_spaces lil2;
          lil4 = lil3\<lparr>parse_depth := parse_depth lil3 + 1\<rparr>;
          lil5 = (if parse_depth lil4 = 1 then lil4\<lparr>l_error := ERROR_NOERROR\<rparr> else lil4)
      in if funclevel then upd_env (l_env lil5) (\<lambda>e. e\<lparr>breakrun := False\<rparr>) lil5 else lil5)"

definition lil_parse_cleanup :: "'h host \<Rightarrow> 'h lil \<Rightarrow> 'h lil \<Rightarrow> string option \<Rightarrow> bool \<Rightarrow>
    string option \<times> 'h lil" where
  "lil_parse_cleanup H lil lil7 val funclevel =
     (let lil8 = lil7\<lparr>l_code := l_code lil, clen := clen lil, l_head := l_head lil\<rparr>;
          val1 = (if funclevel \<and> retval_set (cur_env lil8) then retval (cur_env lil8) else val);
          lil9 = (if funclevel \<and> retval_set (cur_env lil8)
                  then upd_env (l_env lil8) (\<lambda>e. e\<lparr>retval := None, retval_set := False, breakrun := False\<rparr>) lil8
                  else lil8);
          lil10 = lil9\<lparr>parse_depth := parse_depth lil9 - 1\<rparr>
      in (case val1 of
            Some v \<Rightarrow> Some v
          | None \<Rightarrow> if calloc_ok H (host lil10) then Some (alloc_value None) else None,
          lil10))"

definition lil_parse_body :: "nat \<Rightarrow> 'h parse_fn \<Rightarrow> 'h host \<Rightarrow> 'h lil \<Rightarrow> string \<Rightarrow> nat \<Rightarrow> bool \<Rightarrow>
    (string option \<times> 'h lil) option" where
  "lil_parse_body n P H lil code codelen funclevel =
     (case lil_parse_loop n P H (lil_parse_enter lil code codelen funclevel) None of None \<Rightarrow> None
      | Some (val, lil7) \<Rightarrow> Some (lil_parse_cleanup H lil lil7 val funclevel))"

primrec lil_parse :: "nat \<Rightarrow> 'h host \<Rightarrow> 'h lil \<Rightarrow> string \<Rightarrow> nat \<Rightarrow> bool \<Rightarrow> (string option \<times> 'h lil) option" where
  "lil_parse 0 H lil code codelen funclevel = None"
| "lil_parse (Suc n) H lil code codelen funclevel =
     lil_parse_body n (lil_parse n H) H lil code codelen funclevel"

text \<open>
  An iteration of the loop of \<^verbatim>\<open>lil_parse\<close> that comes back to the loop test: from the
  interpreter \<open>lil\<close> with \<open>Suc n\<close> iterations left to \<open>lil1\<close> with \<open>n\<close> left; the third
  component is the variable \<^verbatim>\<open>val\<close>.
\<close>

inductive loop_iter :: "'h parse_fn \<Rightarrow> 'h host \<Rightarrow> nat \<times> 'h lil \<times> string option \<Rightarrow>
    nat \<times> 'h lil \<times> string option \<Rightarrow> bool" for P H where
  iter: "l_head lil < clen lil \<Longrightarrow> l_error lil = ERROR_NOERROR \<Longrightarrow>
         lil_parse_step n P H lil = Some (v, lil1, False) \<Longrightarrow> loop_iter P H (Suc n, lil, val) (n, lil1, v)"

section \<open>A new interpreter\<close>

definition std_cmds :: "(string \<times> lil_func_proc_t) list" where
  "std_cmds =
     [(''dec'', Other_proc ''dec''), (''eval'', Fnc_eval), (''expr'', Fnc_expr), (''for'', Other_proc ''for''),
      (''foreach'', Other_proc ''foreach''), (''func'', Fnc_func), (''if'', Fnc_if), (''inc'', Other_proc ''inc''),
      (''local'', Fnc_local), (''return'', Fnc_return), (''set'', Fnc_set), (''strcmp'', Other_proc ''strcmp''),
      (''try'', Fnc_try), (''while'', Fnc_while)]"

definition full_cmds :: "(string \<times> lil_func_proc_t) list" where
  "full_cmds =
     [(''append'', Other_proc ''append''), (''catcher'', Fnc_catcher), (''char'', Other_proc ''char''),
      (''charat'', Other_proc ''charat''), (''codeat'', Other_proc ''codeat''), (''concat'', Other_proc ''concat''),
      (''count'', Other_proc ''count''), (''downeval'', Other_proc ''downeval''),
      (''enveval'', Other_proc ''enveval''), (''error'', Fnc_error), (''filter'', Other_proc ''filter''),
      (''index'', Other_proc ''index''), (''indexof'', Other_proc ''indexof''),
      (''jaileval'', Other_proc ''jaileval''), (''length'', Other_proc ''length''), (''list'', Fnc_list),
      (''lmap'', Other_proc ''lmap''), (''ltrim'', Other_proc ''ltrim''), (''quote'', Fnc_quote),
      (''reflect'', Other_proc ''reflect''), (''rename'', Other_proc ''rename''),
      (''repstr'', Other_proc ''repstr''), (''result'', Fnc_result), (''rtrim'', Other_proc ''rtrim''),
      (''slice'', Other_proc ''slice''), (''split'', Other_proc ''split''), (''streq'', Other_proc ''streq''),
      (''strpos'', Other_proc ''strpos''), (''subst'', Fnc_subst), (''substr'', Other_proc ''substr''),
      (''topeval'', Other_proc ''topeval''), (''trim'', Other_proc ''trim''),
      (''unusedname'', Other_proc ''unusedname''), (''upeval'', Other_proc ''upeval''), (''watch'', Fnc_watch)]"

definition register_stdcmds :: "'h host \<Rightarrow> 'h lil \<Rightarrow> 'h lil" where
  "register_stdcmds H lil =
     (let lil1 = foldl (\<lambda>l (name, p). lil_register l name p) lil std_cmds;
          lil2 = (if CONFIG_LIL_FULL H then foldl (\<lambda>l (name, p). lil_register l name p) lil1 full_cmds else lil1)
      in lil2\<lparr>syscmds := length (l_cmd lil2)\<rparr>)"

text \<open>\<^verbatim>\<open>lil_new\<close>, from zeroed memory and the host state \<open>h\<close>.\<close>

definition lil_zero :: "'h \<Rightarrow> 'h lil" where
  "lil_zero h =
     \<lparr>l_code = None, rootcode = None, clen = 0, l_head = 0, ignoreeol = False, l_cmd = [], syscmds = 0,
      cmdmap = hm_init, catcher = None, in_catcher = 0, dollarprefix = [], l_env = 0, rootenv = 0,
      downenv = None, l_error = ERROR_NOERROR, err_head = 0, err_msg = None, parse_depth = 0,
      envs = (\<lambda>a. new_env None), env_next = 0,
      funcs = (\<lambda>a. \<lparr>fn_name = [], fn_code = None, fn_argnames = None, fn_proc = None\<rparr>), func_next = 0,
      host = h\<rparr>"

definition lil_new :: "'h host \<Rightarrow> 'h \<Rightarrow> 'h lil" where
  "lil_new H h =
     (case lil_alloc_env (lil_zero h) None of
        (a, lil1) \<Rightarrow> register_stdcmds H (lil1\<lparr>rootenv := a, l_env := a, dollarprefix := ''set ''\<rparr>))"

section \<open>Reading a frame\<close>

text \<open>
  What a name is bound to in the current environment alone: the variable that
  \<^verbatim>\<open>lil_find_local_var\<close> finds there, and its \<^verbatim>\<open>v\<close>. \<open>env_ok\<close> says that the indices kept in the
  \<^verbatim>\<open>varmap\<close> of an environment lie within its \<^verbatim>\<open>var\<close> array, as they do in every environment
  that \<^verbatim>\<open>lil_alloc_env\<close> and \<^verbatim>\<open>lil_set_var\<close> have made.
\<close>

definition local_value :: "'h lil \<Rightarrow> string \<Rightarrow> string option option" where
  "local_value lil name = map_option (\<lambda>p. var_v (var_at lil p)) (lil_find_local_var lil (l_env lil) name)"

definition env_ok :: "lil_env \<Rightarrow> bool" where
  "env_ok e = (\<forall>k i. hm_get (varmap e) k = Some i \<longrightarrow> i < length (env_var e))"

section \<open>Example hosts and interpreters\<close>

text \<open>Concrete hosts and interpreter states on which the theorems below are exercised.\<close>

definition H0 :: "unit host" where
  "H0 = \<lparr>CONFIG_LIL_FULL = True, CONFIG_SYS_PBSIZE = 1024, ctrlc = (\<lambda>h. (False, h)),
     env_set = (\<lambda>name val h. (0, h)), env_get = (\<lambda>name h. None),
     other_proc = (\<lambda>name n P lil argv. Some (None, lil)), calloc_ok = (\<lambda>h. True)\<rparr>"

definition H1 :: "nat host" where
  "H1 = \<lparr>CONFIG_LIL_FULL = True, CONFIG_SYS_PBSIZE = 1024, ctrlc = (\<lambda>h. (False, h)),
     env_set = (\<lambda>name val h. (0, h)), env_get = (\<lambda>name h. None),
     other_proc = (\<lambda>name n P lil argv. Some (None, lil\<lparr>host := Suc (host lil)\<rparr>)),
     calloc_ok = (\<lambda>h. True)\<rparr>"

definition c1_lil :: "nat lil" where
  "c1_lil = (lil_register (lil_zero 0) ''t'' (Other_proc ''t''))\<lparr>l_error := ERROR_DEFAULT, err_msg := Some ''first''\<rparr>"

definition c4_lil :: "unit lil" where
  "c4_lil =
     (let l1 = snd (append_var (lil_zero ()) 0 ''x'' (Some ''1''));
          l2 = lil_push_env (l1\<lparr>env_next := 1\<rparr>);
          l3 = snd (append_var l2 1 ''y'' (Some ''2''))
      in lil_push_env l3)"

definition c1_nested :: "nat lil" where
  "c1_nested = c1_lil\<lparr>parse_depth := 1\<rparr>"

definition c1_clear :: "nat lil" where
  "c1_clear = c1_lil\<lparr>l_error := ERROR_NOERROR\<rparr>"

definition c6_lil :: "unit lil" where
  "c6_lil =
     upd_var (0, 0) (\<lambda>x. x\<lparr>var_w := Some ''return 5''\<rparr>)
       (snd (append_var (lil_register (lil_zero ()) ''return'' Fnc_return) 0 ''x'' (Some ''0'')))"

definition watch_probe :: "unit parse_fn" where
  "watch_probe lil code codelen funclevel =
     Some (None, lil\<lparr>err_msg := Some (if funclevel then ''funclevel'' else ''fragment'')\<rparr>)"

definition c2_lil :: "nat lil" where
  "c2_lil = lil_register (lil_register (lil_zero 0) ''t'' (Other_proc ''t'')) ''return'' Fnc_return"

definition c2_code :: string where
  "c2_code = ''t; return 5; t''"

definition c2_mid :: "nat lil" where
  "c2_mid = (case lil_parse_step 7 (lil_parse 8 H1) H1 (lil_parse_enter c2_lil c2_code 0 True) of
               Some (v, l, c) \<Rightarrow> l | None \<Rightarrow> c2_lil)"

definition c6_local :: "unit lil" where
  "c6_local = lil_push_env (c6_lil\<lparr>env_next := 1\<rparr>)"

definition c1_err :: "nat lil" where
  "c1_err = lil_register c1_clear ''error'' Fnc_error"

definition c2q_lil :: "nat lil" where
  "c2q_lil = lil_register (lil_register c2_lil ''quote'' Fnc_quote) ''if'' Fnc_if"

definition c10_lil :: "unit lil" where
  "c10_lil = define_func ((lil_zero ())\<lparr>env_next := 1\<rparr>) ''f'' [] (Some ''f'')"

definition Hoom :: "unit host" where
  "Hoom = H0\<lparr>calloc_ok := (\<lambda>h. False)\<rparr>"

definition c5_lil :: "unit lil" where
  "c5_lil =
     (let l0 = (lil_zero ())\<lparr>env_next := 1, dollarprefix := ''set ''\<rparr>;
          l1 = lil_register l0 ''set'' Fnc_set;
          l2 = define_func l1 ''f'' [''args''] (Some ''set args'')
      in define_func l2 ''g'' [''x'', ''y''] (Some ''set y''))"

definition c5_dup :: "unit lil" where
  "c5_dup =
     (let l0 = (lil_zero ())\<lparr>env_next := 1, dollarprefix := ''set ''\<rparr>;
          l1 = lil_register l0 ''set'' Fnc_set
      in define_func l1 ''h'' [''x'', ''x''] (Some ''set x''))"

section \<open>Basic facts\<close>

lemma cstr_idem [simp]: "cstr (cstr s) = cstr s"
  by (simp add: cstr_def)

lemma hm_hash_loop_cstr: "hm_hash_loop h (cstr k) = hm_hash_loop h k"
  by (induction k arbitrary: h) (simp_all add: cstr_def)

lemma hm_cell_cstr [simp]: "hm_cell (cstr k) = hm_cell k"
  by (simp add: hm_cell_def hm_hash_def hm_hash_loop_cstr)

lemma cell_get_cstr: "cell_get es (cstr k) = cell_get es k"
  by (induction es) auto

lemma hm_get_cstr: "hm_get hm (cstr k) = hm_get hm k"
  by (simp add: hm_get_def cell_get_cstr)


lemma cell_get_put: "cell_get (cell_put es k v) k' = (if cstr k' = cstr k then v else cell_get es k')"
proof (induction es)
  case Nil
  show ?case by simp
next
  case (Cons e es)
  obtain a b where e: "e = (a, b)" by (cases e)
  show ?case using Cons by (simp add: e)
qed


lemma hm_cell_eq: "cstr k' = cstr k \<Longrightarrow> hm_cell k' = hm_cell k"
  using hm_cell_cstr [of k] hm_cell_cstr [of k'] by simp

lemma hm_get_put:
  "hm_get (hm_put hm k v) k' = (if cstr k' = cstr k then v else hm_get hm k')"
proof (cases "cstr k' = cstr k")
  case True
  then show ?thesis by (simp add: hm_get_def hm_put_def cell_get_put hm_cell_eq [OF True])
next
  case False
  then show ?thesis by (simp add: hm_get_def hm_put_def cell_get_put)
qed

lemma hm_get_init [simp]: "hm_get hm_init k = None"
  by (simp add: hm_get_def hm_init_def)



lemmas scan_simps = skip_spaces.simps skip_multiline.simps skip_line.simps skip_eols.simps skip_ateol.simps
  scan_nested.simps scan_word.simps skip_ws.simps numeric_loop.simps

lemmas fuel_numeral =
  lil_parse.simps(2) [of "pred_numeral k" for k, folded numeral_eq_Suc]
  lil_parse_loop.simps(2) [of "pred_numeral k" for k, folded numeral_eq_Suc]
  substitute_words.simps(2) [of "pred_numeral k" for k, folded numeral_eq_Suc]
  substitute_word.simps(2) [of "pred_numeral k" for k, folded numeral_eq_Suc]
  next_word.simps(2) [of "pred_numeral k" for k, folded numeral_eq_Suc]
  next_word_quoted.simps(2) [of "pred_numeral k" for k, folded numeral_eq_Suc]

lemmas parse_defs = lil_parse_body_def lil_parse_enter_def lil_parse_cleanup_def lil_parse_step_def
  substitute_def lil_skip_spaces_def code_at_def the_code_def byte_at_def ateol_def eolchar_def
  isspace_def ispunct_def isdigit_def islilspecial_def strlen_def cstr_def NUL_def
  lil_set_error_unbalanced_def lil_set_errorf_at_def lil_set_error_at_def vsnprintf_def
  alloc_value_def lil_append_val_def lil_append_char_def cur_env_def upd_env_def
  skip_to_next_line_def lil_to_string_def run_cmd_def call_proc_def


lemma strchr_Some:
  assumes "strchr name c = Some i" "c \<noteq> NUL"
  shows "i < length name" "name ! i = c" "cstr (name[i := NUL]) = takeWhile (\<lambda>x. x \<noteq> c) (cstr name)"
proof -
  let ?cs = "cstr name"
  have i: "i = length (takeWhile (\<lambda>x. x \<noteq> c) ?cs)" and lt: "i < length ?cs"
    using assms(1) by (auto simp: strchr_def Let_def split: if_splits)
  have len: "length ?cs \<le> length name"
    by (simp add: cstr_def length_takeWhile_le)
  show il: "i < length name" using lt len by simp
  have csi: "?cs ! i = c"
    using lt i nth_length_takeWhile [of "\<lambda>x. x \<noteq> c" ?cs] by auto
  have cs_take: "?cs = take (length ?cs) name"
    unfolding cstr_def by (rule takeWhile_eq_take)
  have "take i ?cs = take i (take (length ?cs) name)"
    using cs_take by simp
  then have pre: "take i name = take i ?cs"
    using lt by (simp add: min_def)
  have "?cs ! i = name ! i"
    using lt unfolding cstr_def by (rule takeWhile_nth)
  then show "name ! i = c"
    using csi by simp
  have "set (take i ?cs) \<subseteq> set ?cs" by (rule set_take_subset)
  moreover have "\<forall>x \<in> set ?cs. x \<noteq> NUL"
    unfolding cstr_def by (auto dest: set_takeWhileD)
  ultimately have nonul: "\<forall>x \<in> set (take i name). x \<noteq> NUL"
    unfolding pre by blast
  have "name[i := NUL] = take i name @ NUL # drop (Suc i) name"
    using il by (simp add: upd_conv_take_nth_drop)
  then have "cstr (name[i := NUL]) = take i name"
    using nonul by (simp add: cstr_def takeWhile_append2)
  also have "\<dots> = take i ?cs" by (rule pre)
  also have "\<dots> = takeWhile (\<lambda>x. x \<noteq> c) ?cs"
    unfolding i by (rule takeWhile_eq_take [symmetric])
  finally show "cstr (name[i := NUL]) = takeWhile (\<lambda>x. x \<noteq> c) (cstr name)" .
qed

lemma strchr_None:
  assumes "strchr name c = None"
  shows "takeWhile (\<lambda>x. x \<noteq> c) (cstr name) = cstr name"
proof -
  have "length (takeWhile (\<lambda>x. x \<noteq> c) (cstr name)) = length (cstr name)"
    using assms length_takeWhile_le [of "\<lambda>x. x \<noteq> c" "cstr name"]
    by (auto simp: strchr_def Let_def split: if_splits)
  then show ?thesis
    by (metis takeWhile_eq_take take_all order_refl)
qed

lemma NUL_neq_dot: "CHR ''.'' \<noteq> NUL" by (simp add: NUL_def)

lemma find_cmd_dotted:
  "fst (lil_find_cmd lil name) = hm_get (cmdmap lil) (takeWhile (\<lambda>c. c \<noteq> CHR ''.'') (cstr name)) \<and>
   snd (lil_find_cmd lil name) = name"
proof (cases "strchr name CHR ''.''")
  case None
  have "hm_get (cmdmap lil) name = hm_get (cmdmap lil) (cstr name)"
    by (simp add: hm_get_cstr)
  then show ?thesis
    using None by (simp add: lil_find_cmd_def strchr_None [OF None])
next
  case (Some i)
  note s = strchr_Some [OF Some NUL_neq_dot]
  have "hm_get (cmdmap lil) (name[i := NUL]) = hm_get (cmdmap lil) (cstr (name[i := NUL]))"
    by (simp add: hm_get_cstr)
  moreover have "name[i := NUL, i := CHR ''.''] = name"
    using s(1) s(2) by (simp add: list_update_same_conv)
  ultimately show ?thesis
    using Some s(3) by (simp add: lil_find_cmd_def)
qed

lemma lil_find_cmd_plain:
  "fst (lil_find_cmd lil name) = hm_get (cmdmap lil) (takeWhile (\<lambda>c. c \<noteq> CHR ''.'') (cstr name))"
  using find_cmd_dotted by blast

lemmas state_defs = lil_zero_def new_env_def lil_register_def add_func_def lil_push_env_def lil_alloc_env_def
  append_var_def lil_clone_value_def

lemmas eval_congs = prod.case_cong_weak let_weak_cong

lemmas eval_simps = parse_defs scan_simps fuel_numeral state_defs Let_def lil_find_cmd_plain hm_get_put
  lil_parse_value_def alloc_value_len_def

lemma set_error_noop:
  assumes "l_error lil \<noteq> ERROR_NOERROR"
  shows "lil_set_error lil msg = lil" "lil_set_error_at lil pos msg = lil"
    "lil_set_errorf H lil text = lil" "lil_set_errorf_at H lil pos text = lil"
    "lil_set_error_unbalanced H lil c = lil"
  using assms
  by (simp_all add: lil_set_error_def lil_set_error_at_def lil_set_errorf_def lil_set_errorf_at_def
      lil_set_error_unbalanced_def)

lemma parse_loop_error:
  "l_error lil \<noteq> ERROR_NOERROR \<Longrightarrow> lil_parse_loop (Suc n) P H lil val = Some (val, lil)"
  by simp

lemma enter_fields [simp]:
  "l_error (lil_parse_enter lil code codelen fl) = (if parse_depth lil = 0 then ERROR_NOERROR else l_error lil)"
  "err_head (lil_parse_enter lil code codelen fl) = err_head lil"
  "err_msg (lil_parse_enter lil code codelen fl) = err_msg lil"
  "host (lil_parse_enter lil code codelen fl) = host lil"
  "funcs (lil_parse_enter lil code codelen fl) = funcs lil"
  "cmdmap (lil_parse_enter lil code codelen fl) = cmdmap lil"
  "l_env (lil_parse_enter lil code codelen fl) = l_env lil"
  "parse_depth (lil_parse_enter lil code codelen fl) = Suc (parse_depth lil)"
  "env_var (envs (lil_parse_enter lil code codelen fl) a) = env_var (envs lil a)"
  by (simp_all add: lil_parse_enter_def Let_def lil_skip_spaces_def upd_env_def)

lemma cleanup_fields [simp]:
  "l_error (snd (lil_parse_cleanup H lil lil7 val fl)) = l_error lil7"
  "err_head (snd (lil_parse_cleanup H lil lil7 val fl)) = err_head lil7"
  "err_msg (snd (lil_parse_cleanup H lil lil7 val fl)) = err_msg lil7"
  "host (snd (lil_parse_cleanup H lil lil7 val fl)) = host lil7"
  "funcs (snd (lil_parse_cleanup H lil lil7 val fl)) = funcs lil7"
  "cmdmap (snd (lil_parse_cleanup H lil lil7 val fl)) = cmdmap lil7"
  "l_env (snd (lil_parse_cleanup H lil lil7 val fl)) = l_env lil7"
  "l_code (snd (lil_parse_cleanup H lil lil7 val fl)) = l_code lil"
  "clen (snd (lil_parse_cleanup H lil lil7 val fl)) = clen lil"
  "l_head (snd (lil_parse_cleanup H lil lil7 val fl)) = l_head lil"
  "parse_depth (snd (lil_parse_cleanup H lil lil7 val fl)) = parse_depth lil7 - 1"
  "env_var (envs (snd (lil_parse_cleanup H lil lil7 val fl)) a) = env_var (envs lil7 a)"
  by (simp_all add: lil_parse_cleanup_def Let_def upd_env_def cur_env_def split: option.splits)

lemma cleanup_value:
  "fst (lil_parse_cleanup H lil lil7 val fl) =
     (case (if fl \<and> retval_set (envs lil7 (l_env lil7)) then retval (envs lil7 (l_env lil7)) else val) of
        Some v \<Rightarrow> Some v
      | None \<Rightarrow> if calloc_ok H (host lil7) then Some [] else None)"
  by (simp add: lil_parse_cleanup_def Let_def upd_env_def cur_env_def alloc_value_def split: option.splits)

lemma cleanup_non_null:
  "calloc_ok H (host lil7) \<Longrightarrow> fst (lil_parse_cleanup H lil lil7 val fl) \<noteq> None"
  by (simp add: cleanup_value split: option.splits)

lemma parse_suppressed:
  assumes "l_error lil \<noteq> ERROR_NOERROR" "parse_depth lil \<noteq> 0"
  shows "lil_parse (Suc (Suc n)) H lil code codelen fl =
           Some (lil_parse_cleanup H lil (lil_parse_enter lil code codelen fl) None fl)"
  using assms by (simp add: lil_parse_body_def)

lemma try_clears:
  assumes "argv \<noteq> []" "l_error lil = ERROR_NOERROR"
    "lil_parse_value P lil (Some (argv ! 0)) False = Some (r, lil1)" "l_error lil1 \<noteq> ERROR_NOERROR"
  shows "fnc_try P lil argv =
           (if length argv > 1 then lil_parse_value P (lil1\<lparr>l_error := ERROR_NOERROR\<rparr>) (Some (argv ! 1)) False
            else Some (None, lil1\<lparr>l_error := ERROR_NOERROR\<rparr>))"
  using assms by (cases argv) (simp_all add: fnc_try_def Let_def)

lemmas ee_fuel_numeral =
  ee_expr.simps(2) [of "pred_numeral k" for k, folded numeral_eq_Suc]
  ee_unary.simps(2) [of "pred_numeral k" for k, folded numeral_eq_Suc]
  ee_muldiv_loop.simps(2) [of "pred_numeral k" for k, folded numeral_eq_Suc]
  ee_addsub_loop.simps(2) [of "pred_numeral k" for k, folded numeral_eq_Suc]
  ee_shift_loop.simps(2) [of "pred_numeral k" for k, folded numeral_eq_Suc]
  ee_compare_loop.simps(2) [of "pred_numeral k" for k, folded numeral_eq_Suc]
  ee_equals_loop.simps(2) [of "pred_numeral k" for k, folded numeral_eq_Suc]
  ee_bitand_loop.simps(2) [of "pred_numeral k" for k, folded numeral_eq_Suc]
  ee_bitor_loop.simps(2) [of "pred_numeral k" for k, folded numeral_eq_Suc]
  ee_logand_loop.simps(2) [of "pred_numeral k" for k, folded numeral_eq_Suc]
  ee_logor_loop.simps(2) [of "pred_numeral k" for k, folded numeral_eq_Suc]

lemmas ee_defs = ee_paren_def ee_muldiv_def ee_addsub_def ee_shift_def ee_compare_def ee_equals_def
  ee_bitand_def ee_bitor_def ee_logand_def ee_logor_def ee_element_def ee_numeric_element_def
  ee_skip_spaces_def ee_at_def ee_invalidpunct_def c_bool_def c_div_def c_mod_def c_shl_def c_shr_def
  EERR_NO_ERROR_def EERR_SYNTAX_ERROR_def EERR_DIVISION_BY_ZERO_def EERR_INVALID_EXPRESSION_def

lemmas expr_defs = lil_eval_expr_def lil_subst_to_value_def lil_subst_to_list_def lil_list_to_value_def
  lil_alloc_integer_def dec_digits.simps

lemma find_var_root: "lil_find_var lil (rootenv lil) N = lil_find_local_var lil (rootenv lil) N"
  by (subst lil_find_var.simps) (simp split: option.splits)

lemma set_var_local_new:
  "lil_set_var P H lil name val LIL_SETVAR_LOCAL_NEW =
     (if cstr name = [] then Some (None, lil) else Some (append_var lil (l_env lil) name val))"
  by (simp add: lil_set_var_def)

lemma var_at_upd_var:
  "var_at (upd_var p f lil) p =
     (if snd p < length (env_var (envs lil (fst p))) then f (var_at lil p) else var_at lil p)"
  by (simp add: var_at_def upd_var_def upd_env_def list_update_beyond)

lemma upd_var_fields [simp]:
  "l_env (upd_var p f lil) = l_env lil" "rootenv (upd_var p f lil) = rootenv lil"
  "host (upd_var p f lil) = host lil"
  by (simp_all add: upd_var_def upd_env_def)

lemmas var_defs = lil_find_var.simps lil_find_local_var_def var_at_def upd_var_def lil_set_var_def
  fnc_return_def

lemmas converse_rtranclp_induct3 =
  converse_rtranclp_induct [of _ "(ax, ay, az)" "(bx, by, bz)", split_rule, consumes 1, case_names refl step]

lemma loop_iter_loop:
  assumes "rtranclp (loop_iter P H) (m, A, va) (k, B, vb)"
  shows "lil_parse_loop m P H A va = lil_parse_loop k P H B vb"
  using assms
proof (induction rule: converse_rtranclp_induct3)
  case refl
  show ?case by simp
next
  case (step a b c d e f)
  then show ?case by (auto elim!: loop_iter.cases)
qed

lemma parse_of_loop:
  assumes "lil_parse_loop m (lil_parse m H) H (lil_parse_enter lil0 code codelen fl) None = Some (val, lil7)"
  shows "lil_parse (Suc m) H lil0 code codelen fl = Some (lil_parse_cleanup H lil0 lil7 val fl)"
  using assms by (simp add: lil_parse_body_def)

lemma loop_substitute_error:
  assumes "l_head lil < clen lil" "l_error lil = ERROR_NOERROR" "ctrlc H (host lil) = (False, h)"
    and "substitute n P H (lil\<lparr>host := h\<rparr>) = Some (ws, lilw)" "l_error lilw \<noteq> ERROR_NOERROR"
  shows "lil_parse_loop (Suc n) P H lil val = Some (None, lilw)"
  using assms by (cases ws) (simp_all add: lil_parse_step_def)

lemma loop_last_iteration:
  assumes "loop_iter P H (Suc (Suc n), lil, val) (Suc n, lil1, v)" "l_error lil1 \<noteq> ERROR_NOERROR"
  shows "lil_parse_loop (Suc (Suc n)) P H lil val = Some (v, lil1)"
  using assms by (auto elim!: loop_iter.cases)

lemma loop_at_breakrun:
  assumes "l_head lil < clen lil" "l_error lil = ERROR_NOERROR"
    and "ctrlc H (host lil) = (False, h)"
    and "substitute n P H (lil\<lparr>host := h\<rparr>) = Some (Some words, lil1)"
    and "l_error lil1 = ERROR_NOERROR" "words \<noteq> []"
    and "fst (lil_find_cmd lil1 (lil_to_string (Some (words ! 0)))) = Some c"
    and "run_cmd n P H lil1 c words = Some (v, lil2)" "breakrun (cur_env lil2)"
  shows "lil_parse_loop (Suc n) P H lil val = Some (v, lil2)"
  using assms by (simp add: lil_parse_step_def)

lemma run_cmd_return:
  assumes "fn_proc (funcs lil1 c) = Some Fnc_return" "l_error lil1 = ERROR_NOERROR"
  shows "run_cmd n P H lil1 c words =
           Some (case tl words of [] \<Rightarrow> None | a # as \<Rightarrow> Some a,
                 upd_env (l_env lil1)
                   (\<lambda>e. e\<lparr>breakrun := True, retval := (case tl words of [] \<Rightarrow> None | a # as \<Rightarrow> Some a),
                          retval_set := True\<rparr>) lil1)"
  using assms
  by (cases "tl words")
     (simp_all add: run_cmd_def call_proc_def fnc_return_def Let_def lil_clone_value_def upd_env_def cur_env_def)

lemma cleanup_at_return:
  assumes "retval_set (cur_env lil7)"
  shows "lil_parse_cleanup H lil lil7 val fl =
           (case (if fl then retval (cur_env lil7) else val) of
              Some x \<Rightarrow> Some x
            | None \<Rightarrow> if calloc_ok H (host lil7) then Some [] else None,
            (if fl then upd_env (l_env lil7) (\<lambda>e. e\<lparr>retval := None, retval_set := False, breakrun := False\<rparr>) lil7
             else lil7)
              \<lparr>l_code := l_code lil, clen := clen lil, l_head := l_head lil, parse_depth := parse_depth lil7 - 1\<rparr>)"
  using assms
  by (simp add: lil_parse_cleanup_def Let_def cur_env_def upd_env_def alloc_value_def split: option.splits)

lemmas c2_defs = c2q_lil_def c2_lil_def c2_code_def H1_def fnc_return_def fnc_quote_def append_args.simps
  get_bracketpart_def

lemma subst_f:
  assumes "l_code lil = Some ''f''" "clen lil = 1" "l_head lil = 0" "l_error lil = ERROR_NOERROR"
    "\<not> ignoreeol lil"
  shows "substitute k P H lil = None \<or>
         (\<exists>lil1. substitute k P H lil = Some (Some [''f''], lil1) \<and> cmdmap lil1 = cmdmap lil \<and>
            funcs lil1 = funcs lil \<and> l_error lil1 = ERROR_NOERROR \<and> \<not> ignoreeol lil1 \<and> host lil1 = host lil)"
proof -
  consider "k = 0" | "k = Suc 0" | "k = Suc (Suc 0)" | j where "k = Suc (Suc (Suc j))"
    by (metis not0_implies_Suc)
  then show ?thesis
  proof cases
    case 1
    then show ?thesis by (simp add: substitute_def)
  next
    case 2
    then show ?thesis using assms by (simp add: parse_defs scan_simps alloc_value_len_def Let_def cong: eval_congs)
  next
    case 3
    then show ?thesis using assms by (simp add: parse_defs scan_simps alloc_value_len_def Let_def cong: eval_congs)
  next
    case 4
    then show ?thesis using assms by (simp add: parse_defs scan_simps alloc_value_len_def Let_def cong: eval_congs)
  qed
qed


lemma f_never_returns:
  assumes "hm_get (cmdmap lil) ''f'' = Some c" "fn_proc (funcs lil c) = None"
    "fn_argnames (funcs lil c) = Some []" "fn_code (funcs lil c) = Some ''f''"
    "l_error lil = ERROR_NOERROR" "\<not> ignoreeol lil" "codelen = 0 \<or> codelen = 1"
  shows "lil_parse n H0 lil ''f'' codelen fl = None"
  using assms
proof (induction n arbitrary: lil codelen fl)
  case 0
  show ?case by simp
next
  case (Suc n)
  let ?e = "lil_parse_enter lil ''f'' codelen fl"
  have e: "l_code ?e = Some ''f''" "clen ?e = 1" "l_head ?e = 0" "l_error ?e = ERROR_NOERROR" "\<not> ignoreeol ?e"
    "cmdmap ?e = cmdmap lil" "funcs ?e = funcs lil"
    using Suc.prems(5,6,7)
    by (auto simp: lil_parse_enter_def Let_def lil_skip_spaces_def upd_env_def scan_simps the_code_def byte_at_def
          strlen_def cstr_def NUL_def isspace_def)
  have "lil_parse_loop n (lil_parse n H0) H0 ?e None = None"
  proof (cases n)
    case 0
    then show ?thesis by simp
  next
    case (Suc k)
    have c0: "ctrlc H0 x = (False, x)" for x
      by (simp add: H0_def)
    have he: "l\<lparr>host := ()\<rparr> = l" for l :: "unit lil"
      by (cases l) simp
    from subst_f [OF e(1-5), of k "lil_parse n H0" H0]
    have "lil_parse_step k (lil_parse n H0) H0 ?e = None"
    proof
      assume "substitute k (lil_parse n H0) H0 ?e = None"
      then show ?thesis
        by (simp add: lil_parse_step_def c0 he)
    next
      assume "\<exists>lil1. substitute k (lil_parse n H0) H0 ?e = Some (Some [''f''], lil1) \<and> cmdmap lil1 = cmdmap ?e \<and>
            funcs lil1 = funcs ?e \<and> l_error lil1 = ERROR_NOERROR \<and> \<not> ignoreeol lil1 \<and> host lil1 = host ?e"
      then obtain lil1 where s: "substitute k (lil_parse n H0) H0 ?e = Some (Some [''f''], lil1)"
        and l: "cmdmap lil1 = cmdmap lil" "funcs lil1 = funcs lil" "l_error lil1 = ERROR_NOERROR" "\<not> ignoreeol lil1"
        using e by auto
      let ?fr = "upd_env (l_env (lil_push_env lil1)) (\<lambda>e. e\<lparr>env_func := Some c\<rparr>) (lil_push_env lil1)"
      have fr: "cmdmap ?fr = cmdmap lil" "funcs ?fr = funcs lil" "l_error ?fr = ERROR_NOERROR" "\<not> ignoreeol ?fr"
        using l by (simp_all add: upd_env_def lil_push_env_def lil_alloc_env_def)
      have "lil_parse n H0 ?fr ''f'' 1 True = None"
        by (rule Suc.IH) (use fr Suc.prems in simp_all)
      then have "run_cmd k (lil_parse n H0) H0 lil1 c [''f''] = None"
        using l Suc.prems(2,3,4) fr
        by (simp add: run_cmd_def Let_def bind_args_def lil_parse_value_def)
      moreover have "fst (lil_find_cmd lil1 (lil_to_string (Some ([''f''] ! 0)))) = Some c"
        using l Suc.prems(1) by (simp add: lil_find_cmd_plain lil_to_string_def cstr_def NUL_def)
      ultimately show ?thesis
        using s l by (simp add: lil_parse_step_def c0 he)
    qed
    then show ?thesis
      using Suc e by simp
  qed
  then show ?case
    by (simp add: lil_parse_body_def)
qed


lemma loop_exit_test:
  assumes "\<not> (l_head lil < clen lil \<and> l_error lil = ERROR_NOERROR)"
  shows "lil_parse_loop (Suc n) P H lil val = Some (val, lil)"
  using assms by auto

lemma loop_exit_cleanup:
  assumes "l_head lil < clen lil \<and> l_error lil = ERROR_NOERROR \<and> lil_parse_step n P H lil = Some (v, lilc, True)"
  shows "lil_parse_loop (Suc n) P H lil val = Some (v, lilc)"
  using assms by simp

lemma parse_result_non_null:
  assumes "lil_parse k H lil0 code codelen fl = Some (r, lil')" "calloc_ok H (host lil')"
  shows "r \<noteq> None"
proof (cases k)
  case 0
  then show ?thesis using assms by simp
next
  case (Suc j)
  then obtain val lil7 where c: "lil_parse_cleanup H lil0 lil7 val fl = (r, lil')"
    using assms(1) by (auto simp: lil_parse_body_def split: option.splits)
  have "host lil' = host lil7"
    using cleanup_fields(4) [of H lil0 lil7 val fl] c by simp
  then have "fst (lil_parse_cleanup H lil0 lil7 val fl) \<noteq> None"
    using assms(2) by (simp add: cleanup_non_null)
  then show ?thesis
    using c by simp
qed

lemma lil_to_string_cstr: "lil_to_string (Some a) = cstr a"
  by (simp add: lil_to_string_def cstr_def)

lemma set_var_new_step:
  assumes ok: "env_ok (cur_env lil)"
  shows "\<exists>r lil1. lil_set_var P H lil name val LIL_SETVAR_LOCAL_NEW = Some (r, lil1) \<and>
           l_env lil1 = l_env lil \<and> funcs lil1 = funcs lil \<and> env_ok (cur_env lil1) \<and>
           env_func (cur_env lil1) = env_func (cur_env lil) \<and> env_parent (cur_env lil1) = env_parent (cur_env lil) \<and>
           (\<forall>k. local_value lil1 k =
                  (if cstr name \<noteq> [] \<and> cstr k = cstr name then Some val else local_value lil k))"
proof (cases "cstr name = []")
  case True
  then show ?thesis using ok by (simp add: set_var_local_new)
next
  case False
  have b: "i < length (env_var (cur_env lil))" if "hm_get (varmap (cur_env lil)) k = Some i" for k i
    using ok that by (simp add: env_ok_def)
  have v: "local_value (snd (append_var lil (l_env lil) name val)) k =
             (if cstr k = cstr name then Some val else local_value lil k)" for k
  proof (cases "hm_get (varmap (cur_env lil)) k")
    case None
    then show ?thesis
      by (simp add: append_var_def Let_def upd_env_def cur_env_def hm_get_put local_value_def
            lil_find_local_var_def var_at_def lil_clone_value_def)
  next
    case (Some i)
    then show ?thesis
      using b [OF Some]
      by (simp add: append_var_def Let_def upd_env_def cur_env_def hm_get_put local_value_def
            lil_find_local_var_def var_at_def lil_clone_value_def nth_append)
  qed
  have o: "env_ok (cur_env (snd (append_var lil (l_env lil) name val)))"
    using b
    by (auto simp: append_var_def Let_def upd_env_def cur_env_def env_ok_def hm_get_put less_Suc_eq)
  have f: "l_env (snd (append_var lil (l_env lil) name val)) = l_env lil"
    "funcs (snd (append_var lil (l_env lil) name val)) = funcs lil"
    "env_func (cur_env (snd (append_var lil (l_env lil) name val))) = env_func (cur_env lil)"
    "env_parent (cur_env (snd (append_var lil (l_env lil) name val))) = env_parent (cur_env lil)"
    by (simp_all add: append_var_def Let_def upd_env_def cur_env_def)
  show ?thesis
    using False v o f by (simp add: set_var_local_new prod_eq_iff)
qed


lemma bind_loop_keeps:
  assumes "env_ok (cur_env lil)"
  shows "\<exists>lil3. bind_loop P H lil as words i = Some lil3 \<and>
           l_env lil3 = l_env lil \<and> funcs lil3 = funcs lil \<and> env_ok (cur_env lil3) \<and>
           env_func (cur_env lil3) = env_func (cur_env lil) \<and> env_parent (cur_env lil3) = env_parent (cur_env lil) \<and>
           (\<forall>k. (\<forall>a\<in>set as. lil_to_string (Some a) \<noteq> cstr k) \<longrightarrow> local_value lil3 k = local_value lil k)"
  using assms
proof (induction as arbitrary: lil i)
  case Nil
  then show ?case by simp
next
  case (Cons a as)
  let ?val = "if i < length words - 1 then words ! (i + 1) else alloc_value None"
  obtain r lil1 where s: "lil_set_var P H lil (lil_to_string (Some a)) (Some ?val) LIL_SETVAR_LOCAL_NEW = Some (r, lil1)"
    and f: "l_env lil1 = l_env lil" "funcs lil1 = funcs lil" "env_ok (cur_env lil1)"
      "env_func (cur_env lil1) = env_func (cur_env lil)" "env_parent (cur_env lil1) = env_parent (cur_env lil)"
    and v: "\<And>k. local_value lil1 k =
              (if cstr (lil_to_string (Some a)) \<noteq> [] \<and> cstr k = cstr (lil_to_string (Some a)) then Some (Some ?val)
               else local_value lil k)"
    using set_var_new_step [OF Cons.prems, of P H "lil_to_string (Some a)" "Some ?val"] by blast
  obtain lil3 where b: "bind_loop P H lil1 as words (i + 1) = Some lil3"
    and g: "l_env lil3 = l_env lil1" "funcs lil3 = funcs lil1" "env_ok (cur_env lil3)"
      "env_func (cur_env lil3) = env_func (cur_env lil1)" "env_parent (cur_env lil3) = env_parent (cur_env lil1)"
    and w: "\<And>k. (\<forall>a\<in>set as. lil_to_string (Some a) \<noteq> cstr k) \<Longrightarrow> local_value lil3 k = local_value lil1 k"
    using Cons.IH [OF f(3), of "i + 1"] by blast
  have "bind_loop P H lil (a # as) words i = Some lil3"
    using s b by (simp add: Let_def)
  moreover have "local_value lil3 k = local_value lil k"
    if "\<forall>a\<in>set (a # as). lil_to_string (Some a) \<noteq> cstr k" for k
    using that w [of k] v [of k] by (auto simp: lil_to_string_cstr)
  ultimately show ?case
    using f g by simp
qed

lemma bind_loop_binds:
  assumes "env_ok (cur_env lil)" and "j < length as" and "lil_to_string (Some (as ! j)) \<noteq> []"
    and "\<forall>j'. j < j' \<and> j' < length as \<longrightarrow> lil_to_string (Some (as ! j')) \<noteq> lil_to_string (Some (as ! j))"
  shows "\<exists>lil3. bind_loop P H lil as words i = Some lil3 \<and>
           local_value lil3 (lil_to_string (Some (as ! j))) =
             Some (Some (if i + j < length words - 1 then words ! (i + j + 1) else alloc_value None))"
  using assms
proof (induction as arbitrary: lil i j)
  case Nil
  then show ?case by simp
next
  case (Cons a as)
  let ?val = "if i < length words - 1 then words ! (i + 1) else alloc_value None"
  obtain r lil1 where s: "lil_set_var P H lil (lil_to_string (Some a)) (Some ?val) LIL_SETVAR_LOCAL_NEW = Some (r, lil1)"
    and f: "env_ok (cur_env lil1)"
    and v: "\<And>k. local_value lil1 k =
              (if cstr (lil_to_string (Some a)) \<noteq> [] \<and> cstr k = cstr (lil_to_string (Some a)) then Some (Some ?val)
               else local_value lil k)"
    using set_var_new_step [OF Cons.prems(1), of P H "lil_to_string (Some a)" "Some ?val"] by blast
  have st: "bind_loop P H lil (a # as) words i = bind_loop P H lil1 as words (i + 1)"
    using s by (simp add: Let_def)
  show ?case
  proof (cases j)
    case 0
    have nd: "\<forall>b\<in>set as. lil_to_string (Some b) \<noteq> cstr (lil_to_string (Some a))"
    proof
      fix b assume "b \<in> set as"
      then obtain m where m: "m < length as" "as ! m = b" by (auto simp: in_set_conv_nth)
      then show "lil_to_string (Some b) \<noteq> cstr (lil_to_string (Some a))"
        using Cons.prems(4) [rule_format, of "Suc m"] 0 by (simp add: lil_to_string_cstr)
    qed
    obtain lil3 where b: "bind_loop P H lil1 as words (i + 1) = Some lil3"
      and w: "\<And>k. (\<forall>a\<in>set as. lil_to_string (Some a) \<noteq> cstr k) \<Longrightarrow> local_value lil3 k = local_value lil1 k"
      using bind_loop_keeps [OF f, of P H as words "i + 1"] by blast
    show ?thesis
      using st b w [OF nd] v [of "lil_to_string (Some a)"] Cons.prems(3) 0
      by (simp add: lil_to_string_cstr)
  next
    case (Suc j0)
    have e: "i + 1 + j0 = i + j" and n: "(a # as) ! j = as ! j0"
      using Suc by simp_all
    have "\<exists>lil3. bind_loop P H lil1 as words (i + 1) = Some lil3 \<and>
           local_value lil3 (lil_to_string (Some (as ! j0))) =
             Some (Some (if i + 1 + j0 < length words - 1 then words ! (i + 1 + j0 + 1) else alloc_value None))"
    proof (rule Cons.IH [OF f])
      show "j0 < length as" using Cons.prems(2) Suc by simp
      show "lil_to_string (Some (as ! j0)) \<noteq> []" using Cons.prems(3) Suc by simp
      show "\<forall>j'. j0 < j' \<and> j' < length as \<longrightarrow> lil_to_string (Some (as ! j')) \<noteq> lil_to_string (Some (as ! j0))"
      proof (intro allI impI)
        fix j' assume "j0 < j' \<and> j' < length as"
        then show "lil_to_string (Some (as ! j')) \<noteq> lil_to_string (Some (as ! j0))"
          using Cons.prems(4) [rule_format, of "Suc j'"] Suc by simp
      qed
    qed
    then show ?thesis
      unfolding st n e .
  qed
qed

lemma fresh_frame:
  "env_ok (cur_env (upd_env (env_next lil) (\<lambda>e. e\<lparr>env_func := Some cmd\<rparr>) (lil_push_env lil)))"
  "l_env (upd_env (env_next lil) (\<lambda>e. e\<lparr>env_func := Some cmd\<rparr>) (lil_push_env lil)) = env_next lil"
  "funcs (upd_env (env_next lil) (\<lambda>e. e\<lparr>env_func := Some cmd\<rparr>) (lil_push_env lil)) = funcs lil"
  "env_func (cur_env (upd_env (env_next lil) (\<lambda>e. e\<lparr>env_func := Some cmd\<rparr>) (lil_push_env lil))) = Some cmd"
  "env_parent (cur_env (upd_env (env_next lil) (\<lambda>e. e\<lparr>env_func := Some cmd\<rparr>) (lil_push_env lil))) = Some (l_env lil)"
  by (simp_all add: env_ok_def cur_env_def upd_env_def lil_push_env_def lil_alloc_env_def new_env_def)

lemma run_cmd_script:
  assumes "fn_proc (funcs lil cmd) = None" and "fn_argnames (funcs lil cmd) = Some argnames"
    and "bind_args P H (upd_env (env_next lil) (\<lambda>e. e\<lparr>env_func := Some cmd\<rparr>) (lil_push_env lil)) argnames words = Some frame"
    and "funcs frame = funcs lil"
  shows "run_cmd n P H lil cmd words =
           (case lil_parse_value P frame (fn_code (funcs lil cmd)) True of
              None \<Rightarrow> None | Some (r, lil4) \<Rightarrow> Some (r, lil_pop_env lil4))"
proof -
  have e: "l_env (lil_push_env lil) = env_next lil" "funcs (lil_push_env lil) = funcs lil"
    by (simp_all add: lil_push_env_def lil_alloc_env_def)
  show ?thesis
    using assms fresh_frame(3) [of lil cmd] by (simp add: run_cmd_def Let_def e)
qed

lemmas c5_defs = c5_lil_def define_func_def fnc_set_def lil_list_to_value_def bind_args_def needs_escape_def
  lil_append_string_def lil_get_var_def lil_get_var_or_def lil_pop_env_def

subsection \<open>Parsing the text of a list\<close>

lemma byte_at_append: "byte_at (pre @ xs) (length pre + i) = byte_at xs i"
  by (simp add: byte_at_def nth_append)

lemma byte_at_append0: "byte_at (pre @ xs) (length pre) = byte_at xs 0"
  using byte_at_append [of pre xs 0] by simp

lemma byte_at_Cons0: "byte_at (c # xs) 0 = c"
  by (simp add: byte_at_def)

lemma byte_at_Nil: "byte_at [] i = NUL"
  by (simp add: byte_at_def)

lemma byte_at_nth: "i < length xs \<Longrightarrow> byte_at xs i = xs ! i"
  by (simp add: byte_at_def)

lemma skip_spaces_end: "\<not> h < len \<Longrightarrow> skip_spaces buf len ig h = h"
  by (subst skip_spaces.simps) simp

lemma skip_spaces_stay:
  assumes "byte_at buf h \<noteq> CHR ''#''" "byte_at buf h \<noteq> CHR 0x5C" "\<not> eolchar (byte_at buf h)"
    "\<not> isspace (byte_at buf h)"
  shows "skip_spaces buf len ig h = h"
  using assms by (subst skip_spaces.simps) simp

lemma skip_spaces_blank:
  assumes "h < len" "byte_at buf h = CHR '' ''"
  shows "skip_spaces buf len ig h = skip_spaces buf len ig (h + 1)"
  using assms by (subst skip_spaces.simps) (simp add: eolchar_def isspace_def)

lemma scan_word_run:
  assumes "\<forall>c\<in>set w. \<not> isspace c \<and> \<not> islilspecial c"
    and "post = [] \<or> isspace (hd post) \<or> islilspecial (hd post)"
    and "i \<le> length w"
  shows "scan_word (pre @ w @ post) (length (pre @ w @ post)) (length pre + i) = length pre + length w"
  using assms(3)
proof (induction "length w - i" arbitrary: i)
  case 0
  then have i: "i = length w" by simp
  have "byte_at (pre @ w @ post) (length pre + length w) = byte_at post 0"
    using byte_at_append [of "pre @ w" post 0] by simp
  moreover have "post \<noteq> [] \<Longrightarrow> byte_at post 0 = hd post"
    by (cases post) (simp_all add: byte_at_def)
  ultimately show ?case
    using assms(2) i by (subst scan_word.simps) (cases post; auto)
next
  case (Suc k)
  then have i: "i < length w" by simp
  have b: "byte_at (pre @ w @ post) (length pre + i) = w ! i"
    using i by (simp add: byte_at_def nth_append)
  have "w ! i \<in> set w" using i by simp
  then have ok: "\<not> isspace (w ! i)" "\<not> islilspecial (w ! i)"
    using assms(1) by simp_all
  have "scan_word (pre @ w @ post) (length (pre @ w @ post)) (length pre + i) =
        scan_word (pre @ w @ post) (length (pre @ w @ post)) (length pre + (i + 1))"
    using i b ok by (subst scan_word.simps) (simp add: add.assoc)
  also have "\<dots> = length pre + length w"
    using Suc(2) i by (intro Suc(1)) simp_all
  finally show ?case .
qed

lemma scan_nested_run:
  assumes "\<forall>c\<in>set s. c \<noteq> CHR ''{'' \<and> c \<noteq> CHR ''}''" and "i \<le> length s"
  shows "scan_nested CHR ''{'' CHR ''}'' (pre @ s @ CHR ''}'' # post) (length (pre @ s @ CHR ''}'' # post))
           (length pre + i) 1 acc =
         (length pre + length s + 1, 0, acc @ drop i s)"
  using assms(2)
proof (induction "length s - i" arbitrary: i acc)
  case 0
  then have i: "i = length s" by simp
  have "byte_at (pre @ s @ CHR ''}'' # post) (length pre + length s) = CHR ''}''"
    using byte_at_append [of "pre @ s" "CHR ''}'' # post" 0] by (simp add: byte_at_Cons0)
  then show ?case
    using i by (subst scan_nested.simps) simp
next
  case (Suc k)
  then have i: "i < length s" by simp
  have b: "byte_at (pre @ s @ CHR ''}'' # post) (length pre + i) = s ! i"
    using i by (simp add: byte_at_def nth_append)
  have "s ! i \<in> set s" using i by simp
  then have ok: "s ! i \<noteq> CHR ''{''" "s ! i \<noteq> CHR ''}''"
    using assms(1) by simp_all
  have "scan_nested CHR ''{'' CHR ''}'' (pre @ s @ CHR ''}'' # post) (length (pre @ s @ CHR ''}'' # post))
           (length pre + i) 1 acc =
        scan_nested CHR ''{'' CHR ''}'' (pre @ s @ CHR ''}'' # post) (length (pre @ s @ CHR ''}'' # post))
           (length pre + (i + 1)) 1 (acc @ [s ! i])"
    using i b ok by (subst scan_nested.simps) (simp add: add.assoc lil_append_char_def)
  also have "\<dots> = (length pre + length s + 1, 0, (acc @ [s ! i]) @ drop (i + 1) s)"
    using Suc(2) i by (intro Suc(1)) simp_all
  also have "(acc @ [s ! i]) @ drop (i + 1) s = acc @ drop i s"
    using i by (simp add: Cons_nth_drop_Suc)
  finally show ?case .
qed


lemma special_punct: "islilspecial c \<Longrightarrow> ispunct c"
  by (auto simp: islilspecial_def ispunct_def)

lemma eol_punct_space: "eolchar c \<Longrightarrow> ispunct c \<or> isspace c"
  by (auto simp: eolchar_def ispunct_def isspace_def)

lemma plain_char:
  assumes "\<not> ispunct c" "\<not> isspace c"
  shows "c \<noteq> CHR ''#''" "c \<noteq> CHR 0x5C" "\<not> eolchar c" "\<not> islilspecial c" "c \<noteq> CHR ''$''" "c \<noteq> CHR ''{''"
    "c \<noteq> CHR ''[''" "c \<noteq> CHR 0x22" "c \<noteq> CHR 0x27" "c \<noteq> CHR '' ''"
  using assms by (auto simp: ispunct_def isspace_def eolchar_def islilspecial_def)

lemma next_word_braced:
  assumes c: "l_code lil = Some (pre @ CHR ''{'' # s @ CHR ''}'' # post)"
    "clen lil = length (pre @ CHR ''{'' # s @ CHR ''}'' # post)" "l_head lil = length pre"
    and s: "\<forall>c\<in>set s. c \<noteq> CHR ''{'' \<and> c \<noteq> CHR ''}''"
  shows "next_word (Suc n) P H lil = Some (s, lil\<lparr>l_head := length pre + length s + 2\<rparr>)"
proof -
  let ?buf = "pre @ CHR ''{'' # s @ CHR ''}'' # post"
  have b: "byte_at ?buf (length pre) = CHR ''{''"
    using byte_at_append0 [of pre "CHR ''{'' # s @ CHR ''}'' # post"] by (simp add: byte_at_Cons0)
  have sk: "skip_spaces ?buf (length ?buf) (ignoreeol lil) (length pre) = length pre"
    by (rule skip_spaces_stay) (simp_all add: b eolchar_def isspace_def)
  have sn: "scan_nested CHR ''{'' CHR ''}'' ?buf (length ?buf) (length pre + 1) 1 [] =
              (length pre + length s + 2, 0, s)"
    using scan_nested_run [OF s, of 0 "pre @ [CHR ''{'']" post "[]"] by simp
  have z: "lil\<lparr>l_head := length pre\<rparr> = lil"
    using c(3) by simp
  show ?thesis
    using c b sk sn
    by (simp add: lil_skip_spaces_def the_code_def code_at_def Let_def alloc_value_def z)
qed

lemma next_word_bare:
  assumes c: "l_code lil = Some (pre @ w @ post)" "clen lil = length (pre @ w @ post)" "l_head lil = length pre"
    and w: "w \<noteq> []" "\<forall>c\<in>set w. \<not> ispunct c \<and> \<not> isspace c"
    and p: "post = [] \<or> hd post = CHR '' ''"
  shows "next_word (Suc n) P H lil = Some (w, lil\<lparr>l_head := length pre + length w\<rparr>)"
proof -
  let ?buf = "pre @ w @ post"
  obtain a w' where a: "w = a # w'"
    using w(1) by (cases w) simp_all
  have pa: "\<not> ispunct a" "\<not> isspace a"
    using w(2) a by simp_all
  have b: "byte_at ?buf (length pre) = a"
    using byte_at_append0 [of pre "w @ post"] a by (simp add: byte_at_Cons0)
  have sk: "skip_spaces ?buf (length ?buf) (ignoreeol lil) (length pre) = length pre"
    using plain_char(1-3) [OF pa] pa(2) unfolding b [symmetric] by (rule skip_spaces_stay)
  have "scan_word ?buf (length ?buf) (length pre + 0) = length pre + length w"
  proof (rule scan_word_run)
    show "\<forall>c\<in>set w. \<not> isspace c \<and> \<not> islilspecial c"
      using w(2) special_punct by blast
    show "post = [] \<or> isspace (hd post) \<or> islilspecial (hd post)"
      using p by (auto simp: isspace_def)
  qed simp
  then have sw: "scan_word ?buf (length ?buf) (length pre) = length pre + length w"
    by simp
  have av: "alloc_value_len ?buf (length pre) (length w) = w"
    unfolding alloc_value_len_def by (rule nth_equalityI) (simp_all add: byte_at_def nth_append)
  have z: "lil\<lparr>l_head := length pre\<rparr> = lil"
    using c(3) by simp
  have fc: "a \<noteq> CHR ''$''" "a \<noteq> CHR ''{''" "a \<noteq> CHR ''[''" "a \<noteq> CHR 0x22" "a \<noteq> CHR 0x27"
    using plain_char [OF pa] by simp_all
  have lk: "lil_skip_spaces lil = lil"
    using c sk by (simp add: lil_skip_spaces_def the_code_def z)
  have ca: "code_at lil (length pre) = a"
    using c b by (simp add: code_at_def the_code_def)
  have tc: "the_code lil = ?buf"
    using c by (simp add: the_code_def)
  show ?thesis
    unfolding next_word.simps Let_def lk c(3) ca tc c(2) sw
    using fc av by simp
qed

lemma next_word_escape:
  assumes c: "l_code lil = Some (pre @ CHR 0x22 # CHR 0x5C # e # CHR 0x22 # post)"
    "clen lil = length (pre @ CHR 0x22 # CHR 0x5C # e # CHR 0x22 # post)" "l_head lil = length pre"
    and e: "e = CHR ''o'' \<or> e = CHR ''c''"
  shows "next_word (Suc (Suc (Suc n))) P H lil = Some ([unescape e], lil\<lparr>l_head := length pre + 4\<rparr>)"
proof -
  let ?buf = "pre @ CHR 0x22 # CHR 0x5C # e # CHR 0x22 # post"
  have b: "byte_at ?buf (length pre) = CHR 0x22" "byte_at ?buf (Suc (length pre)) = CHR 0x5C"
    "byte_at ?buf (Suc (Suc (length pre))) = e" "byte_at ?buf (Suc (Suc (Suc (length pre)))) = CHR 0x22"
    by (simp_all add: byte_at_def nth_append)
  have sk: "skip_spaces ?buf (length ?buf) (ignoreeol lil) (length pre) = length pre"
    by (rule skip_spaces_stay) (simp_all add: b eolchar_def isspace_def)
  have z: "lil\<lparr>l_head := length pre\<rparr> = lil"
    using c(3) by simp
  show ?thesis
    using c b sk e
    by (auto simp: lil_skip_spaces_def the_code_def code_at_def Let_def z alloc_value_def lil_append_char_def)
qed


lemma escape_entry_append: "escape_entry val x = val @ escape_entry [] x"
proof (induction x arbitrary: val)
  case Nil
  show ?case by simp
next
  case (Cons c cs)
  show ?case
    using Cons [of "val @ [c]"] Cons [of "[c]"]
      Cons [of "val @ [CHR ''}'', CHR 0x22, CHR 0x5C, CHR ''o'', CHR 0x22, CHR ''{'']"]
      Cons [of "[CHR ''}'', CHR 0x22, CHR 0x5C, CHR ''o'', CHR 0x22, CHR ''{'']"]
      Cons [of "val @ [CHR ''}'', CHR 0x22, CHR 0x5C, CHR ''c'', CHR 0x22, CHR ''{'']"]
      Cons [of "[CHR ''}'', CHR 0x22, CHR 0x5C, CHR ''c'', CHR 0x22, CHR ''{'']"]
    by (simp add: lil_append_char_def lil_append_string_def cstr_def NUL_def)
qed

lemma escape_entry_plain:
  "\<forall>c\<in>set s. c \<noteq> CHR ''{'' \<and> c \<noteq> CHR ''}'' \<Longrightarrow> escape_entry [] (s @ x) = s @ escape_entry [] x"
proof (induction s)
  case Nil
  show ?case by simp
next
  case (Cons c cs)
  then show ?case
    using escape_entry_append [of "[c]" "cs @ x"] by (simp add: lil_append_char_def)
qed

lemma escape_entry_brace:
  "b = CHR ''{'' \<or> b = CHR ''}'' \<Longrightarrow>
   escape_entry [] (b # x) =
     [CHR ''}'', CHR 0x22, CHR 0x5C, if b = CHR ''{'' then CHR ''o'' else CHR ''c'', CHR 0x22, CHR ''{''] @
     escape_entry [] x"
  using escape_entry_append [of "[CHR ''}'', CHR 0x22, CHR 0x5C, CHR ''o'', CHR 0x22, CHR ''{'']" x]
    escape_entry_append [of "[CHR ''}'', CHR 0x22, CHR 0x5C, CHR ''c'', CHR 0x22, CHR ''{'']" x]
  by (auto simp: lil_append_string_def cstr_def NUL_def)

lemma substitute_word_braced:
  assumes c: "l_code lil = Some (pre @ CHR ''{'' # escape_entry [] x @ CHR ''}'' # post)"
    "clen lil = length (pre @ CHR ''{'' # escape_entry [] x @ CHR ''}'' # post)" "l_head lil = length pre"
    "l_error lil = ERROR_NOERROR"
    and p: "post = [] \<or> hd post = CHR '' ''"
    and n: "2 * length x + 3 \<le> n"
  shows "substitute_word n P H lil w =
           Some (Some (w @ x), lil\<lparr>l_head := length pre + length (escape_entry [] x) + 2\<rparr>)"
  using c n
proof (induction "length x" arbitrary: x pre w n lil rule: less_induct)
  case less
  let ?nb = "\<lambda>c. c \<noteq> CHR ''{'' \<and> c \<noteq> CHR ''}''"
  define s where "s = takeWhile ?nb x"
  define r where "r = dropWhile ?nb x"
  have x: "x = s @ r"
    by (simp add: s_def r_def)
  have s: "\<forall>c\<in>set s. c \<noteq> CHR ''{'' \<and> c \<noteq> CHR ''}''"
    unfolding s_def using set_takeWhileD [of _ ?nb x] by blast
  define n1 where "n1 = n - 2"
  have n1: "n = Suc (Suc n1)" "2 * length x + 1 \<le> n1"
    using less.prems(5) by (simp_all add: n1_def)
  show ?case
  proof (cases r)
    case Nil
    then have xs: "x = s"
      using x by simp
    have e: "escape_entry [] x = s"
      unfolding xs using escape_entry_plain [OF s, of "[]"] by simp
    have nw: "next_word (Suc n1) P H lil = Some (s, lil\<lparr>l_head := length pre + length s + 2\<rparr>)"
      using less.prems(1-3) s unfolding e by (rule next_word_braced)
    let ?l1 = "lil\<lparr>l_head := length pre + length s + 2\<rparr>"
    have b: "code_at ?l1 (l_head ?l1) = byte_at post 0"
      using less.prems(1) byte_at_append [of "pre @ CHR ''{'' # s @ [CHR ''}'']" post 0]
      by (simp add: code_at_def the_code_def e)
    have stop: "\<not> (l_head ?l1 < clen ?l1 \<and> \<not> eolchar (code_at ?l1 (l_head ?l1)) \<and>
                   \<not> isspace (code_at ?l1 (l_head ?l1)) \<and> l_error ?l1 = ERROR_NOERROR)"
    proof (cases post)
      case Nil
      then show ?thesis using less.prems(2) by (simp add: e)
    next
      case (Cons a post')
      then have "byte_at post 0 = CHR '' ''"
        using p by (simp add: byte_at_def)
      then show ?thesis
        unfolding b by (simp add: isspace_def)
    qed
    have "substitute_word (Suc (Suc n1)) P H lil w = Some (Some (w @ s), ?l1)"
      unfolding substitute_word.simps(2) [of "Suc n1"] Let_def nw option.case prod.case if_not_P [OF stop]
      using less.prems(3) by (simp add: lil_append_val_def)
    then show ?thesis
      unfolding n1(1) e xs [symmetric] by (simp add: xs)
  next
    case (Cons b x')
    then have bb: "b = CHR ''{'' \<or> b = CHR ''}''"
      using hd_dropWhile [of ?nb x] by (auto simp: r_def)
    define e where "e = (if b = CHR ''{'' then CHR ''o'' else CHR ''c'')"
    let ?q = "[CHR 0x22, CHR 0x5C, e, CHR 0x22]"
    have ex: "escape_entry [] x = s @ CHR ''}'' # ?q @ CHR ''{'' # escape_entry [] x'"
      unfolding x Cons
      using escape_entry_plain [OF s, of "b # x'"] escape_entry_brace [OF bb, of x', folded e_def] by simp
    let ?buf = "pre @ CHR ''{'' # s @ CHR ''}'' # (?q @ CHR ''{'' # escape_entry [] x' @ CHR ''}'' # post)"
    have buf: "pre @ CHR ''{'' # escape_entry [] x @ CHR ''}'' # post = ?buf"
      unfolding ex by simp
    have c1: "l_code lil = Some ?buf" "clen lil = length ?buf"
      using less.prems(1,2) unfolding buf by simp_all
    have nw: "next_word (Suc n1) P H lil = Some (s, lil\<lparr>l_head := length pre + length s + 2\<rparr>)"
      using c1 less.prems(3) s by (rule next_word_braced)
    let ?l1 = "lil\<lparr>l_head := length pre + length s + 2\<rparr>"
    let ?pre1 = "pre @ CHR ''{'' # s @ [CHR ''}'']"
    have b1: "code_at ?l1 (l_head ?l1) = CHR 0x22"
      using c1(1) by (simp add: code_at_def the_code_def byte_at_def nth_append)
    have go1: "l_head ?l1 < clen ?l1 \<and> \<not> eolchar (code_at ?l1 (l_head ?l1)) \<and>
                 \<not> isspace (code_at ?l1 (l_head ?l1)) \<and> l_error ?l1 = ERROR_NOERROR"
      unfolding b1 using c1(2) less.prems(4) by (simp add: eolchar_def isspace_def)
    have st1: "substitute_word (Suc (Suc n1)) P H lil w = substitute_word (Suc n1) P H ?l1 (w @ s)"
      unfolding substitute_word.simps(2) [of "Suc n1"] Let_def nw option.case prod.case if_P [OF go1]
      using less.prems(3) by (simp add: lil_append_val_def)
    have lx: "length x = length s + Suc (length x')"
      unfolding x Cons by simp
    define n2 where "n2 = n1 - 3"
    have n2: "n1 = Suc (Suc (Suc n2))" "2 * length x' + 3 \<le> n1"
      using n1(2) lx by (simp_all add: n2_def)
    have d1: "l_code ?l1 = Some (?pre1 @ CHR 0x22 # CHR 0x5C # e # CHR 0x22 # (CHR ''{'' # escape_entry [] x' @ CHR ''}'' # post))"
      "clen ?l1 = length (?pre1 @ CHR 0x22 # CHR 0x5C # e # CHR 0x22 # (CHR ''{'' # escape_entry [] x' @ CHR ''}'' # post))"
      "l_head ?l1 = length ?pre1"
      using c1 by simp_all
    have ee: "e = CHR ''o'' \<or> e = CHR ''c''"
      by (simp add: e_def)
    have nq: "next_word (Suc (Suc (Suc n2))) P H ?l1 = Some ([unescape e], ?l1\<lparr>l_head := length ?pre1 + 4\<rparr>)"
      using d1 ee by (rule next_word_escape)
    have ue: "unescape e = b"
      using bb by (auto simp: unescape_def e_def)
    let ?l2 = "lil\<lparr>l_head := length ?pre1 + 4\<rparr>"
    have l2: "?l1\<lparr>l_head := length ?pre1 + 4\<rparr> = ?l2"
      by simp
    let ?pre2 = "?pre1 @ ?q"
    have b2: "code_at ?l2 (l_head ?l2) = CHR ''{''"
      using c1(1) by (simp add: code_at_def the_code_def byte_at_def nth_append)
    have go2: "l_head ?l2 < clen ?l2 \<and> \<not> eolchar (code_at ?l2 (l_head ?l2)) \<and>
                 \<not> isspace (code_at ?l2 (l_head ?l2)) \<and> l_error ?l2 = ERROR_NOERROR"
      unfolding b2 using c1(2) less.prems(4) by (simp add: eolchar_def isspace_def)
    have st2: "substitute_word (Suc n1) P H ?l1 (w @ s) = substitute_word n1 P H ?l2 (w @ s @ [b])"
      unfolding substitute_word.simps(2) [of n1] Let_def nq [unfolded n2(1) [symmetric]] option.case prod.case
        l2 ue if_P [OF go2]
      by (simp add: lil_append_val_def)
    have d2: "l_code ?l2 = Some (?pre2 @ CHR ''{'' # escape_entry [] x' @ CHR ''}'' # post)"
      "clen ?l2 = length (?pre2 @ CHR ''{'' # escape_entry [] x' @ CHR ''}'' # post)"
      "l_head ?l2 = length ?pre2" "l_error ?l2 = ERROR_NOERROR"
      using c1 less.prems(4) by simp_all
    have "length x' < length x"
      using lx by simp
    then have st3: "substitute_word n1 P H ?l2 (w @ s @ [b]) =
                 Some (Some ((w @ s @ [b]) @ x'), ?l2\<lparr>l_head := length ?pre2 + length (escape_entry [] x') + 2\<rparr>)"
      using d2 n2(2) by (rule less.hyps)
    show ?thesis
      unfolding n1(1) st1 st2 st3 ex by (simp add: x Cons)
  qed
qed


lemma substitute_word_bare:
  assumes c: "l_code lil = Some (pre @ x @ post)" "clen lil = length (pre @ x @ post)" "l_head lil = length pre"
    "l_error lil = ERROR_NOERROR"
    and x: "x \<noteq> []" "\<forall>c\<in>set x. \<not> ispunct c \<and> \<not> isspace c"
    and p: "post = [] \<or> hd post = CHR '' ''"
    and n: "2 \<le> n"
  shows "substitute_word n P H lil w = Some (Some (w @ x), lil\<lparr>l_head := length pre + length x\<rparr>)"
proof -
  define n1 where "n1 = n - 2"
  have n1: "n = Suc (Suc n1)"
    using n by (simp add: n1_def)
  have nw: "next_word (Suc n1) P H lil = Some (x, lil\<lparr>l_head := length pre + length x\<rparr>)"
    using c(1-3) x p by (rule next_word_bare)
  let ?l1 = "lil\<lparr>l_head := length pre + length x\<rparr>"
  have b: "code_at ?l1 (l_head ?l1) = byte_at post 0"
    using c(1) byte_at_append [of "pre @ x" post 0] by (simp add: code_at_def the_code_def)
  have stop: "\<not> (l_head ?l1 < clen ?l1 \<and> \<not> eolchar (code_at ?l1 (l_head ?l1)) \<and>
                 \<not> isspace (code_at ?l1 (l_head ?l1)) \<and> l_error ?l1 = ERROR_NOERROR)"
  proof (cases post)
    case Nil
    then show ?thesis using c(2) by simp
  next
    case (Cons a post')
    then have "byte_at post 0 = CHR '' ''"
      using p by (simp add: byte_at_def)
    then show ?thesis
      unfolding b by (simp add: isspace_def)
  qed
  have ne: "length pre \<noteq> length pre + length x"
    using x(1) by simp
  show ?thesis
    unfolding n1 substitute_word.simps(2) [of "Suc n1"] Let_def nw option.case prod.case if_not_P [OF stop]
    using c(3) ne by (simp add: lil_append_val_def)
qed

lemma cstr_no_NUL: "NUL \<notin> set x \<Longrightarrow> cstr x = x"
  by (simp add: cstr_def takeWhile_eq_all_conv) blast

lemma substitute_word_entry:
  assumes c: "l_code lil = Some (pre @ lil_list_to_value [x] True @ post)"
    "clen lil = length (pre @ lil_list_to_value [x] True @ post)" "l_head lil = length pre"
    "l_error lil = ERROR_NOERROR"
    and x: "NUL \<notin> set x"
    and p: "post = [] \<or> hd post = CHR '' ''"
    and n: "2 * length x + 3 \<le> n"
  shows "substitute_word n P H lil [] =
           Some (Some x, lil\<lparr>l_head := length pre + length (lil_list_to_value [x] True)\<rparr>)"
proof (cases "needs_escape x")
  case True
  have ts: "lil_to_string (Some x) = x"
    by (simp add: lil_to_string_def cstr_no_NUL [OF x])
  have t: "lil_list_to_value [x] True = CHR ''{'' # escape_entry [] x @ [CHR ''}'']"
    using True escape_entry_append [of "[CHR ''{'']" x]
    by (simp add: lil_list_to_value_def Let_def ts lil_append_char_def alloc_value_def)
  show ?thesis
    using substitute_word_braced [of lil pre x post n P H "[]"] c p n unfolding t by simp
next
  case False
  have ts: "lil_to_string (Some x) = x"
    by (simp add: lil_to_string_def cstr_no_NUL [OF x])
  have t: "lil_list_to_value [x] True = x"
    using False
    by (simp add: lil_list_to_value_def Let_def ts lil_append_val_def alloc_value_def)
  have px: "x \<noteq> []" "\<forall>c\<in>set x. \<not> ispunct c \<and> \<not> isspace c"
    using False by (auto simp: needs_escape_def cstr_no_NUL [OF x] list_ex_iff)
  show ?thesis
    using substitute_word_bare [of lil pre x post n P H "[]"] c p n px unfolding t by simp
qed


lemma list_to_value_loop_append:
  "list_to_value_loop b val i xs = val @ list_to_value_loop b [] i xs"
proof (induction xs arbitrary: val i)
  case Nil
  show ?case by simp
next
  case (Cons x xs)
  show ?case
    unfolding list_to_value_loop.simps Let_def
    by (subst Cons) (subst (2) Cons, simp add: lil_append_char_def lil_append_val_def escape_entry_append [of "_ @ _"])
qed

lemma list_to_value_loop_Cons:
  "list_to_value_loop True [] i (x # xs) =
     (if i \<noteq> 0 then [CHR '' ''] else []) @ lil_list_to_value [x] True @ list_to_value_loop True [] (Suc i) xs"
  unfolding list_to_value_loop.simps lil_list_to_value_def Let_def
  by (subst list_to_value_loop_append)
     (simp add: lil_append_char_def lil_append_val_def alloc_value_def escape_entry_append [of "_ # _"])

lemma list_to_value_loop_rest:
  "list_to_value_loop True [] (Suc i) xs = [] \<or> hd (list_to_value_loop True [] (Suc i) xs) = CHR '' ''"
proof (cases xs)
  case Nil
  then show ?thesis by simp
next
  case (Cons y ys)
  then show ?thesis
    by (simp add: list_to_value_loop_Cons del: list_to_value_loop.simps)
qed

lemma entry_text_first:
  assumes "NUL \<notin> set x"
  shows "\<exists>a r. lil_list_to_value [x] True = a # r \<and> a \<noteq> CHR ''#'' \<and> a \<noteq> CHR 0x5C \<and> \<not> eolchar a \<and>
           \<not> isspace a \<and> a \<noteq> CHR '' ''"
proof (cases "needs_escape x")
  case True
  have ts: "lil_to_string (Some x) = x"
    by (simp add: lil_to_string_def cstr_no_NUL [OF assms])
  have "lil_list_to_value [x] True = CHR ''{'' # escape_entry [] x @ [CHR ''}'']"
    using True escape_entry_append [of "[CHR ''{'']" x]
    by (simp add: lil_list_to_value_def Let_def ts lil_append_char_def alloc_value_def)
  then show ?thesis
    by (simp add: eolchar_def isspace_def)
next
  case False
  have ts: "lil_to_string (Some x) = x"
    by (simp add: lil_to_string_def cstr_no_NUL [OF assms])
  have t: "lil_list_to_value [x] True = x"
    using False by (simp add: lil_list_to_value_def Let_def ts lil_append_val_def alloc_value_def)
  have px: "x \<noteq> []" "\<forall>c\<in>set x. \<not> ispunct c \<and> \<not> isspace c"
    using False by (auto simp: needs_escape_def cstr_no_NUL [OF assms] list_ex_iff)
  obtain a r where a: "x = a # r" "\<not> ispunct a" "\<not> isspace a"
    using px by (cases x) simp_all
  have "lil_list_to_value [x] True = a # r"
    using t a(1) by simp
  then show ?thesis
    using plain_char [OF a(2,3)] a(3) by simp
qed


lemma substitute_words_list:
  assumes c: "l_code lil = Some (pre @ list_to_value_loop True [] i xs)"
    "clen lil = length (pre @ list_to_value_loop True [] i xs)" "l_head lil = length pre"
    "l_error lil = ERROR_NOERROR" "ignoreeol lil"
    and x: "\<forall>x\<in>set xs. NUL \<notin> set x \<and> 2 * length x + 3 \<le> m"
    and n: "length xs + m + 1 \<le> n"
  shows "substitute_words n P H (lil_skip_spaces lil) ws =
           Some (Some (ws @ xs), lil\<lparr>l_head := length (pre @ list_to_value_loop True [] i xs)\<rparr>)"
  using c x n
proof (induction xs arbitrary: i pre ws n lil)
  case Nil
  have sk: "lil_skip_spaces lil = lil"
    using Nil.prems(1-3) by (simp add: lil_skip_spaces_def the_code_def skip_spaces_end)
  obtain n1 where n1: "n = Suc n1"
    using Nil.prems(7) by (cases n) simp_all
  show ?case
    unfolding sk n1 using Nil.prems(1-3) by simp
next
  case (Cons x xs)
  define sep where "sep = (if i \<noteq> 0 then [CHR '' ''] else [])"
  let ?t = "lil_list_to_value [x] True"
  let ?r = "list_to_value_loop True [] (Suc i) xs"
  have buf: "pre @ list_to_value_loop True [] i (x # xs) = (pre @ sep) @ ?t @ ?r"
    by (simp add: list_to_value_loop_Cons sep_def del: list_to_value_loop.simps)
  have nx: "NUL \<notin> set x" and mx: "2 * length x + 3 \<le> m"
    using Cons.prems(6) by simp_all
  obtain a r where a: "?t = a # r" "a \<noteq> CHR ''#''" "a \<noteq> CHR 0x5C" "\<not> eolchar a" "\<not> isspace a" "a \<noteq> CHR '' ''"
    using entry_text_first [OF nx] by blast
  let ?buf = "(pre @ sep) @ ?t @ ?r"
  have c1: "l_code lil = Some ?buf" "clen lil = length ?buf"
    using Cons.prems(1,2) unfolding buf by simp_all
  have ba: "byte_at ?buf (length (pre @ sep)) = a"
    using byte_at_append0 [of "pre @ sep" "?t @ ?r"] unfolding a(1) by (simp add: byte_at_Cons0)
  have st: "skip_spaces ?buf (length ?buf) True (length (pre @ sep)) = length (pre @ sep)"
    using a(2-5) unfolding ba [symmetric] by (rule skip_spaces_stay)
  have sk: "skip_spaces ?buf (length ?buf) True (length pre) = length (pre @ sep)"
  proof (cases "i = 0")
    case True
    then show ?thesis using st by (simp add: sep_def)
  next
    case False
    then have sp: "sep = [CHR '' '']"
      by (simp add: sep_def)
    have "byte_at ?buf (length pre) = CHR '' ''"
      unfolding sp by (simp add: byte_at_def nth_append)
    moreover have "length pre < length ?buf"
      unfolding sp by simp
    ultimately have "skip_spaces ?buf (length ?buf) True (length pre) = skip_spaces ?buf (length ?buf) True (length pre + 1)"
      by (rule skip_spaces_blank [rotated])
    then show ?thesis
      using st unfolding sp by simp
  qed
  let ?l0 = "lil\<lparr>l_head := length (pre @ sep)\<rparr>"
  have l0: "lil_skip_spaces lil = ?l0"
    using c1 Cons.prems(3,5) sk by (simp add: lil_skip_spaces_def the_code_def)
  obtain n1 where n1: "n = Suc n1" "length xs + m + 1 \<le> n1"
    using Cons.prems(7) by (cases n) simp_all
  have d0: "l_code ?l0 = Some ((pre @ sep) @ ?t @ ?r)" "clen ?l0 = length ((pre @ sep) @ ?t @ ?r)"
    "l_head ?l0 = length (pre @ sep)" "l_error ?l0 = ERROR_NOERROR"
    using c1 Cons.prems(4) by simp_all
  have mn: "2 * length x + 3 \<le> n1"
    using mx n1(2) by simp
  have "substitute_word n1 P H ?l0 [] = Some (Some x, ?l0\<lparr>l_head := length (pre @ sep) + length ?t\<rparr>)"
    using d0 nx list_to_value_loop_rest [of i xs] mn by (rule substitute_word_entry)
  then have sw: "substitute_word n1 P H ?l0 (alloc_value None) =
                   Some (Some x, ?l0\<lparr>l_head := length (pre @ sep) + length ?t\<rparr>)"
    by (simp add: alloc_value_def)
  let ?l1 = "lil\<lparr>l_head := length (pre @ sep) + length ?t\<rparr>"
  have l1: "?l0\<lparr>l_head := length (pre @ sep) + length ?t\<rparr> = ?l1"
    by simp
  have go: "l_head ?l0 < clen ?l0 \<and> \<not> ateol ?l0 \<and> l_error ?l0 = ERROR_NOERROR"
    using c1(2) Cons.prems(4,5) a(1) by (simp add: ateol_def)
  have d1: "l_code ?l1 = Some (((pre @ sep) @ ?t) @ list_to_value_loop True [] (Suc i) xs)"
    "clen ?l1 = length (((pre @ sep) @ ?t) @ list_to_value_loop True [] (Suc i) xs)"
    "l_head ?l1 = length ((pre @ sep) @ ?t)" "l_error ?l1 = ERROR_NOERROR" "ignoreeol ?l1"
    using c1 Cons.prems(4,5) by simp_all
  have xs: "\<forall>x\<in>set xs. NUL \<notin> set x \<and> 2 * length x + 3 \<le> m"
    using Cons.prems(6) by simp
  have ih: "substitute_words n1 P H (lil_skip_spaces ?l1) (ws @ [x]) =
              Some (Some ((ws @ [x]) @ xs),
                    ?l1\<lparr>l_head := length (((pre @ sep) @ ?t) @ list_to_value_loop True [] (Suc i) xs)\<rparr>)"
    using d1 xs n1(2) by (rule Cons.IH)
  show ?case
    unfolding l0 n1(1) substitute_words.simps(2) if_P [OF go] sw option.case prod.case l1 ih buf
    by simp
qed

section \<open>The claims\<close>

text \<open>
  C9. Command lookup uses only the part of the name before the first \<^verbatim>\<open>.\<close>: the result is
  what the command map holds under that prefix (for a name without a dot, the whole name), and
  the name buffer is, after the lookup, what it was before.
\<close>

theorem C9_find_cmd_dotted:
  "fst (lil_find_cmd lil name) = hm_get (cmdmap lil) (takeWhile (\<lambda>c. c \<noteq> CHR ''.'') (cstr name)) \<and>
   snd (lil_find_cmd lil name) = name"
  by (rule find_cmd_dotted)

text \<open>
  C4. Variable lookup from an environment \<open>E\<close> finds the variable of that name in \<open>E\<close>;
  failing that, and if \<open>E\<close> is not the root, the one in the root; failing that, nothing. A
  variable that is returned belongs to \<open>E\<close> or to the root, never to an environment in between.
\<close>

theorem C4_find_var_two_level:
  "lil_find_var lil E N =
     (case lil_find_local_var lil E N of
        Some r \<Rightarrow> Some r
      | None \<Rightarrow> if E = rootenv lil then None else lil_find_local_var lil (rootenv lil) N) \<and>
   (\<forall>a i. lil_find_var lil E N = Some (a, i) \<longrightarrow>
      (a = E \<or> a = rootenv lil) \<and> hm_get (varmap (envs lil a)) N = Some i)"
proof -
  have eq: "lil_find_var lil E N =
     (case lil_find_local_var lil E N of
        Some r \<Rightarrow> Some r
      | None \<Rightarrow> if E = rootenv lil then None else lil_find_local_var lil (rootenv lil) N)"
    by (subst lil_find_var.simps) (auto simp: find_var_root split: option.splits)
  show ?thesis
    unfolding eq by (auto simp: lil_find_local_var_def split: option.splits)
qed

text \<open>
  In \<open>c4_lil\<close> the root (0) has \<open>x\<close>, its child (1) has \<open>y\<close>, and the current environment (2) is
  the child of 1: from 2, \<open>x\<close> is found in the root and \<open>y\<close> is not found.
\<close>

theorem C4_find_var_two_level_witness:
  "lil_find_var c4_lil 2 ''x'' = Some (0, 0) \<and> lil_find_var c4_lil 2 ''y'' = None \<and>
   lil_find_var c4_lil 1 ''y'' = Some (1, 0) \<and> rootenv c4_lil = 0 \<and>
   env_parent (envs c4_lil 2) = Some 1 \<and> env_parent (envs c4_lil 1) = Some 0"
  using C4_find_var_two_level [of c4_lil 2 "''x''"] C4_find_var_two_level [of c4_lil 2 "''y''"]
    C4_find_var_two_level [of c4_lil 1 "''y''"]
  by (simp add: c4_lil_def state_defs upd_env_def lil_find_local_var_def hm_get_put Let_def cstr_def NUL_def
        lil_find_var.simps)



text \<open>
  C7. An expression that divides by zero inside a parenthesis that the division does not
  end: \<^verbatim>\<open>ee_paren\<close> does not look at the error of the expression it called and stores a
  syntax error over it, so \<^verbatim>\<open>lil_eval_expr\<close> returns no value with the message
  "expression syntax error". The same division outside a parenthesis gives
  "division by zero in expression".
\<close>

theorem C7_division_by_zero_in_parenthesis:
  "lil_eval_expr 24 P H0 (lil_zero ()) (Some ''(1/0+2)'') =
     Some (None, (lil_zero ())\<lparr>l_error := ERROR_FIXHEAD, err_head := 0, err_msg := Some ''expression syntax error''\<rparr>) \<and>
   lil_eval_expr 24 P H0 (lil_zero ()) (Some ''1/0+2'') =
     Some (None, (lil_zero ())\<lparr>l_error := ERROR_FIXHEAD, err_head := 0,
                                 err_msg := Some ''division by zero in expression''\<rparr>)"
  by (simp add: expr_defs eval_simps ee_defs ee_fuel_numeral H0_def lil_set_error_def cong: eval_congs)

text \<open>
  C10, as the code has it. \<^verbatim>\<open>lil_parse\<close> returns as soon as its loop ends, after any number of
  iterations: when the loop test fails (the text is at its end, or the error slot is set), and
  when an iteration leaves by \<^verbatim>\<open>goto cleanup\<close> (an error while the words are substituted, an
  interrupt, an unknown command, a \<^verbatim>\<open>return\<close>). What it returns is the frame's \<^verbatim>\<open>retval\<close> at
  function level when \<^verbatim>\<open>retval_set\<close> is set, else the value \<^verbatim>\<open>val\<close> of the loop, and when that
  is a null pointer the empty value that \<^verbatim>\<open>alloc_value(NULL)\<close> allocates. So the result is
  not null whenever that allocation finds memory; this holds for every result of \<^verbatim>\<open>lil_parse\<close>.
\<close>

theorem C10_lil_parse_result:
  assumes reach: "rtranclp (loop_iter (lil_parse m H) H) (m, lil_parse_enter lil0 code codelen fl, None) (Suc n, lil, val)"
  shows "(\<not> (l_head lil < clen lil \<and> l_error lil = ERROR_NOERROR) \<longrightarrow>
            lil_parse (Suc m) H lil0 code codelen fl = Some (lil_parse_cleanup H lil0 lil val fl)) \<and>
         (l_head lil < clen lil \<and> l_error lil = ERROR_NOERROR \<and>
          lil_parse_step n (lil_parse m H) H lil = Some (v, lilc, True) \<longrightarrow>
            lil_parse (Suc m) H lil0 code codelen fl = Some (lil_parse_cleanup H lil0 lilc v fl)) \<and>
         fst (lil_parse_cleanup H lil0 lil7 val7 fl) =
           (case (if fl \<and> retval_set (envs lil7 (l_env lil7)) then retval (envs lil7 (l_env lil7)) else val7) of
              Some x \<Rightarrow> Some x
            | None \<Rightarrow> if calloc_ok H (host lil7) then Some [] else None) \<and>
         (calloc_ok H (host lil7) \<longrightarrow> fst (lil_parse_cleanup H lil0 lil7 val7 fl) \<noteq> None) \<and>
         (lil_parse k H lil0 code codelen fl = Some (r, lil') \<and> calloc_ok H (host lil') \<longrightarrow> r \<noteq> None)"
proof (intro conjI impI)
  note eq = loop_iter_loop [OF reach]
  {
    assume "\<not> (l_head lil < clen lil \<and> l_error lil = ERROR_NOERROR)"
    then have "lil_parse_loop (Suc n) (lil_parse m H) H lil val = Some (val, lil)"
      by (rule loop_exit_test)
    then have "lil_parse_loop m (lil_parse m H) H (lil_parse_enter lil0 code codelen fl) None = Some (val, lil)"
      unfolding eq .
    then show "lil_parse (Suc m) H lil0 code codelen fl = Some (lil_parse_cleanup H lil0 lil val fl)"
      by (rule parse_of_loop)
  }
  {
    assume "l_head lil < clen lil \<and> l_error lil = ERROR_NOERROR \<and>
          lil_parse_step n (lil_parse m H) H lil = Some (v, lilc, True)"
    then have "lil_parse_loop (Suc n) (lil_parse m H) H lil val = Some (v, lilc)"
      by (rule loop_exit_cleanup)
    then have "lil_parse_loop m (lil_parse m H) H (lil_parse_enter lil0 code codelen fl) None = Some (v, lilc)"
      unfolding eq .
    then show "lil_parse (Suc m) H lil0 code codelen fl = Some (lil_parse_cleanup H lil0 lilc v fl)"
      by (rule parse_of_loop)
  }
  show "fst (lil_parse_cleanup H lil0 lil7 val7 fl) =
           (case (if fl \<and> retval_set (envs lil7 (l_env lil7)) then retval (envs lil7 (l_env lil7)) else val7) of
              Some x \<Rightarrow> Some x
            | None \<Rightarrow> if calloc_ok H (host lil7) then Some [] else None)"
    by (rule cleanup_value)
  {
    assume "calloc_ok H (host lil7)"
    then show "fst (lil_parse_cleanup H lil0 lil7 val7 fl) \<noteq> None"
      by (rule cleanup_non_null)
  }
  {
    assume "lil_parse k H lil0 code codelen fl = Some (r, lil') \<and> calloc_ok H (host lil')"
    then show "r \<noteq> None"
      using parse_result_non_null by blast
  }
qed

text \<open>
  The claim as stated fails twice. A text may never finish: with \<^verbatim>\<open>func f {} {f}\<close> defined, no
  amount of fuel makes \<^verbatim>\<open>lil_parse\<close> return from the text \<^verbatim>\<open>f\<close> (there is no recursion limit,
  \<^verbatim>\<open>LIL_ENABLE_RECLIMIT\<close> being off). And when the last allocation fails, \<^verbatim>\<open>lil_parse\<close> returns
  a null pointer, here on the empty text.
\<close>

theorem C10_lil_parse_counterexample:
  "(\<forall>n. lil_parse n H0 c10_lil ''f'' 0 False = None) \<and>
   (\<exists>l. lil_parse 2 Hoom (lil_zero ()) [] 0 False = Some (None, l))"
proof
  have "hm_get (cmdmap c10_lil) ''f'' = Some 0" "fn_proc (funcs c10_lil 0) = None"
    "fn_argnames (funcs c10_lil 0) = Some []" "fn_code (funcs c10_lil 0) = Some ''f''"
    "l_error c10_lil = ERROR_NOERROR" "\<not> ignoreeol c10_lil"
    by (simp_all add: c10_lil_def define_func_def eval_simps cong: eval_congs)
  then show "\<forall>n. lil_parse n H0 c10_lil ''f'' 0 False = None"
    by (simp add: f_never_returns)
  show "\<exists>l. lil_parse 2 Hoom (lil_zero ()) [] 0 False = Some (None, l)"
    by (simp add: eval_simps Hoom_def H0_def cong: eval_congs)
qed

text \<open>
  In \<^verbatim>\<open>t; {\<close> the first line runs \<^verbatim>\<open>t\<close> and the second raises "expected }": the loop leaves
  by \<^verbatim>\<open>goto cleanup\<close> and the caller receives the empty value. In \<^verbatim>\<open>t\<close> the loop test fails
  after the first line.
\<close>

theorem C10_lil_parse_result_witness:
  "(\<exists>l. lil_parse (Suc 8) H1 c1_clear ''t; {'' 0 False = Some (Some [], l) \<and>
         l_error l = ERROR_UNBALANCED \<and> host l = 1) \<and>
   (\<exists>l. lil_parse (Suc 8) H1 c1_clear ''t'' 0 False = Some (Some [], l) \<and>
         l_error l = ERROR_NOERROR \<and> host l = 1)"
proof
  let ?P = "lil_parse 8 H1"
  let ?a = "lil_parse_enter c1_clear ''t; {'' 0 False"
  have a: "l_head ?a < clen ?a" "l_error ?a = ERROR_NOERROR"
    by (simp_all add: eval_simps c1_clear_def c1_lil_def cong: eval_congs)
  have "\<exists>v mid. lil_parse_step 7 ?P H1 ?a = Some (v, mid, False) \<and>
          l_head mid < clen mid \<and> l_error mid = ERROR_NOERROR \<and>
          (\<exists>lc. lil_parse_step 6 ?P H1 mid = Some (None, lc, True) \<and> l_error lc = ERROR_UNBALANCED \<and> host lc = 1)"
    by (simp add: eval_simps c1_clear_def c1_lil_def H1_def cong: eval_congs)
  then obtain v mid lc where s: "lil_parse_step 7 ?P H1 ?a = Some (v, mid, False)"
    and m: "l_head mid < clen mid" "l_error mid = ERROR_NOERROR"
    and c: "lil_parse_step 6 ?P H1 mid = Some (None, lc, True)" "l_error lc = ERROR_UNBALANCED" "host lc = 1"
    by blast
  have "loop_iter ?P H1 (Suc 7, ?a, None) (7, mid, v)"
    by (rule loop_iter.iter [OF a s])
  then have reach: "rtranclp (loop_iter ?P H1) (8, ?a, None) (Suc 6, mid, v)"
    by (simp add: eval_nat_numeral)
  note T = C10_lil_parse_result [OF reach, where v = None and lilc = lc and ?lil7.0 = lc and ?val7.0 = None]
  have "calloc_ok H1 (host lc)"
    by (simp add: H1_def)
  then show "\<exists>l. lil_parse (Suc 8) H1 c1_clear ''t; {'' 0 False = Some (Some [], l) \<and>
         l_error l = ERROR_UNBALANCED \<and> host l = 1"
    using T m c by (simp add: prod_eq_iff)
next
  let ?P = "lil_parse 8 H1"
  let ?a = "lil_parse_enter c1_clear ''t'' 0 False"
  have a: "l_head ?a < clen ?a" "l_error ?a = ERROR_NOERROR"
    by (simp_all add: eval_simps c1_clear_def c1_lil_def cong: eval_congs)
  have "\<exists>mid. lil_parse_step 7 ?P H1 ?a = Some (None, mid, False) \<and>
          \<not> l_head mid < clen mid \<and> l_error mid = ERROR_NOERROR \<and> host mid = 1"
    by (simp add: eval_simps c1_clear_def c1_lil_def H1_def cong: eval_congs)
  then obtain mid where s: "lil_parse_step 7 ?P H1 ?a = Some (None, mid, False)"
    and m: "\<not> l_head mid < clen mid" "l_error mid = ERROR_NOERROR" "host mid = 1"
    by blast
  have "loop_iter ?P H1 (Suc 7, ?a, None) (7, mid, None)"
    by (rule loop_iter.iter [OF a s])
  then have reach: "rtranclp (loop_iter ?P H1) (8, ?a, None) (Suc 6, mid, None)"
    by (simp add: eval_nat_numeral)
  note T = C10_lil_parse_result [OF reach, where ?lil7.0 = mid and ?val7.0 = None]
  have "calloc_ok H1 (host mid)"
    by (simp add: H1_def)
  then show "\<exists>l. lil_parse (Suc 8) H1 c1_clear ''t'' 0 False = Some (Some [], l) \<and>
         l_error l = ERROR_NOERROR \<and> host l = 1"
    using T m by (simp add: prod_eq_iff)
qed

text \<open>
  C1, as the code has it. While the error slot is set, every error-setting routine leaves the
  interpreter as it is (the first error wins), and the loop of \<^verbatim>\<open>lil_parse\<close> runs no further
  command: its test fails, so the loop returns at once; a line whose substitution raised the
  error is not dispatched; an iteration that ends with the slot set is the last one; and a
  \<^verbatim>\<open>lil_parse\<close> entered at parse depth 1 or more returns the interpreter on entry but for what
  the function level epilogue does, whatever the host and the source text are. \<^verbatim>\<open>lil_error\<close>
  returns the message and the position and resets the kind; \<^verbatim>\<open>try\<close> clears an error raised by
  its first argument and goes on with its second. Beyond the claim: a \<^verbatim>\<open>lil_parse\<close> entered at
  parse depth 0 resets the slot itself, before its loop.
\<close>

theorem C1_error_slot_amended:
  "(l_error lil \<noteq> ERROR_NOERROR \<longrightarrow>
      lil_set_error lil msg = lil \<and> lil_set_error_at lil pos msg = lil \<and>
      lil_set_errorf H lil fmt = lil \<and> lil_set_errorf_at H lil pos fmt = lil \<and>
      lil_set_error_unbalanced H lil c = lil) \<and>
   (l_error lil \<noteq> ERROR_NOERROR \<longrightarrow> lil_parse_loop (Suc n) P H lil val = Some (val, lil)) \<and>
   (l_head lil < clen lil \<and> l_error lil = ERROR_NOERROR \<and> ctrlc H (host lil) = (False, h) \<and>
    substitute n P H (lil\<lparr>host := h\<rparr>) = Some (ws, lilw) \<and> l_error lilw \<noteq> ERROR_NOERROR \<longrightarrow>
      lil_parse_loop (Suc n) P H lil val = Some (None, lilw)) \<and>
   (loop_iter P H (Suc (Suc n), lil, val) (Suc n, lily, v) \<and> l_error lily \<noteq> ERROR_NOERROR \<longrightarrow>
      lil_parse_loop (Suc (Suc n)) P H lil val = Some (v, lily)) \<and>
   (l_error lil \<noteq> ERROR_NOERROR \<and> parse_depth lil \<noteq> 0 \<longrightarrow>
      (\<exists>lil'. lil_parse (Suc (Suc n)) H lil code codelen fl =
                Some (fst (lil_parse_cleanup H lil (lil_parse_enter lil code codelen fl) None fl), lil') \<and>
         lil' = snd (lil_parse_cleanup H lil (lil_parse_enter lil code codelen fl) None fl) \<and>
         l_error lil' = l_error lil \<and> err_head lil' = err_head lil \<and> err_msg lil' = err_msg lil \<and>
         host lil' = host lil \<and> funcs lil' = funcs lil \<and> cmdmap lil' = cmdmap lil \<and>
         (\<forall>a. env_var (envs lil' a) = env_var (envs lil a)))) \<and>
   (l_error lil \<noteq> ERROR_NOERROR \<longrightarrow>
      lil_error lil = (1, Some (err_msg lil, err_head lil), lil\<lparr>l_error := ERROR_NOERROR\<rparr>)) \<and>
   (argv \<noteq> [] \<and> l_error lil = ERROR_NOERROR \<and>
    lil_parse_value P lil (Some (argv ! 0)) False = Some (r, lilx) \<and> l_error lilx \<noteq> ERROR_NOERROR \<longrightarrow>
      fnc_try P lil argv =
        (if length argv > 1 then lil_parse_value P (lilx\<lparr>l_error := ERROR_NOERROR\<rparr>) (Some (argv ! 1)) False
         else Some (None, lilx\<lparr>l_error := ERROR_NOERROR\<rparr>))) \<and>
   (parse_depth lil = 0 \<longrightarrow> l_error (lil_parse_enter lil code codelen fl) = ERROR_NOERROR)"
proof (intro conjI impI)
  assume a: "l_error lil \<noteq> ERROR_NOERROR \<and> parse_depth lil \<noteq> 0"
  let ?res = "lil_parse_cleanup H lil (lil_parse_enter lil code codelen fl) None fl"
  have p: "lil_parse (Suc (Suc n)) H lil code codelen fl = Some ?res"
    by (rule parse_suppressed) (use a in simp_all)
  then have "lil_parse (Suc (Suc n)) H lil code codelen fl = Some (fst ?res, snd ?res)"
    by simp
  then show "\<exists>lil'. lil_parse (Suc (Suc n)) H lil code codelen fl = Some (fst ?res, lil') \<and>
         lil' = snd ?res \<and>
         l_error lil' = l_error lil \<and> err_head lil' = err_head lil \<and> err_msg lil' = err_msg lil \<and>
         host lil' = host lil \<and> funcs lil' = funcs lil \<and> cmdmap lil' = cmdmap lil \<and>
         (\<forall>a. env_var (envs lil' a) = env_var (envs lil a))"
    using a by simp
next
  assume "argv \<noteq> [] \<and> l_error lil = ERROR_NOERROR \<and>
    lil_parse_value P lil (Some (argv ! 0)) False = Some (r, lilx) \<and> l_error lilx \<noteq> ERROR_NOERROR"
  then show "fnc_try P lil argv =
        (if length argv > 1 then lil_parse_value P (lilx\<lparr>l_error := ERROR_NOERROR\<rparr>) (Some (argv ! 1)) False
         else Some (None, lilx\<lparr>l_error := ERROR_NOERROR\<rparr>))"
    using try_clears by blast
next
  assume "l_head lil < clen lil \<and> l_error lil = ERROR_NOERROR \<and> ctrlc H (host lil) = (False, h) \<and>
    substitute n P H (lil\<lparr>host := h\<rparr>) = Some (ws, lilw) \<and> l_error lilw \<noteq> ERROR_NOERROR"
  then have "l_head lil < clen lil" "l_error lil = ERROR_NOERROR" "ctrlc H (host lil) = (False, h)"
    "substitute n P H (lil\<lparr>host := h\<rparr>) = Some (ws, lilw)" "l_error lilw \<noteq> ERROR_NOERROR"
    by simp_all
  then show "lil_parse_loop (Suc n) P H lil val = Some (None, lilw)"
    by (rule loop_substitute_error)
next
  assume "loop_iter P H (Suc (Suc n), lil, val) (Suc n, lily, v) \<and> l_error lily \<noteq> ERROR_NOERROR"
  then have "loop_iter P H (Suc (Suc n), lil, val) (Suc n, lily, v)" "l_error lily \<noteq> ERROR_NOERROR"
    by simp_all
  then show "lil_parse_loop (Suc (Suc n)) P H lil val = Some (v, lily)"
    by (rule loop_last_iteration)
qed (simp_all add: set_error_noop lil_error_def)

text \<open>
  The claim as stated fails: in \<open>c1_lil\<close> the slot is set and nobody reads it, yet a top-level
  \<^verbatim>\<open>lil_parse\<close> of \<^verbatim>\<open>t\<close> runs the command (the host counts the call) and leaves the slot clear.
\<close>

theorem C1_error_slot_counterexample:
  "l_error c1_lil = ERROR_DEFAULT \<and> host c1_lil = 0 \<and>
   lil_parse 6 H1 c1_lil ''t'' 0 False \<noteq> None \<and>
   host (snd (the (lil_parse 6 H1 c1_lil ''t'' 0 False))) = 1 \<and>
   l_error (snd (the (lil_parse 6 H1 c1_lil ''t'' 0 False))) = ERROR_NOERROR"
  by (simp add: eval_simps c1_lil_def H1_def cong: eval_congs)

text \<open>
  In \<open>c1_nested\<close> the slot is set at parse depth 1. The text \<^verbatim>\<open>t {\<close> raises "expected }" while
  its words are substituted, and \<^verbatim>\<open>t\<close> is not run; in \<^verbatim>\<open>error boom; t\<close> the first command sets
  the slot and the second is not run (the host counts no call).
\<close>

theorem C1_error_slot_amended_witness:
  "l_error c1_nested \<noteq> ERROR_NOERROR \<and> parse_depth c1_nested \<noteq> 0 \<and>
   lil_set_error c1_nested (Some ''second'') = c1_nested \<and>
   lil_set_error_at c1_nested 7 (Some ''second'') = c1_nested \<and>
   lil_set_error_unbalanced H1 c1_nested CHR ''}'' = c1_nested \<and>
   lil_parse_loop (Suc 0) (lil_parse 0 H1) H1 c1_nested None = Some (None, c1_nested) \<and>
   (\<exists>l. lil_parse_loop (Suc 6) (lil_parse 6 H1) H1 (lil_parse_enter c1_clear ''t {'' 0 False) None = Some (None, l) \<and>
      host l = 0 \<and> l_error l = ERROR_UNBALANCED) \<and>
   (\<exists>v l. lil_parse_loop (Suc (Suc 6)) (lil_parse 6 H1) H1 (lil_parse_enter c1_err ''error boom; t'' 0 False) None =
             Some (v, l) \<and> host l = 0 \<and> err_msg l = Some ''boom'') \<and>
   (\<exists>v l. lil_parse (Suc (Suc 0)) H1 c1_nested ''t'' 0 False = Some (Some v, l) \<and>
      host l = 0 \<and> err_msg l = Some ''first'') \<and>
   lil_error c1_nested = (1, Some (Some ''first'', 0), c1_nested\<lparr>l_error := ERROR_NOERROR\<rparr>) \<and>
   (\<exists>l. fnc_try (lil_parse 6 H1) c1_clear [''{''] = Some (None, l) \<and> l_error l = ERROR_NOERROR) \<and>
   l_error (lil_parse_enter c1_lil ''t'' 0 False) = ERROR_NOERROR"
proof -
  have n: "l_error c1_nested \<noteq> ERROR_NOERROR" "parse_depth c1_nested \<noteq> 0" "host c1_nested = 0"
    "err_msg c1_nested = Some ''first''" "err_head c1_nested = 0" "parse_depth c1_lil = 0"
    "l_error c1_clear = ERROR_NOERROR"
    by (simp_all add: c1_nested_def c1_clear_def c1_lil_def state_defs lil_find_cmd_plain Let_def)
  note A = C1_error_slot_amended [where lil = c1_nested and msg = "Some ''second''" and pos = 7 and H = H1
      and fmt = "''second''" and c = "CHR ''}''" and n = 0 and code = "''t''" and codelen = 0 and fl = False
      and P = "lil_parse 0 H1" and val = None]
  have "\<exists>r1 l1. lil_parse_value (lil_parse 6 H1) c1_clear (Some ([''{''] ! 0)) False = Some (r1, l1) \<and>
          l_error l1 \<noteq> ERROR_NOERROR"
    by (simp add: eval_simps c1_clear_def c1_lil_def H1_def cong: eval_congs)
  then obtain r1 l1 where
    e: "lil_parse_value (lil_parse 6 H1) c1_clear (Some ([''{''] ! 0)) False = Some (r1, l1)"
      "l_error l1 \<noteq> ERROR_NOERROR"
    by blast
  note D = C1_error_slot_amended [where lil = c1_clear and argv = "[''{'']" and P = "lil_parse 6 H1"
      and r = r1 and lilx = l1]
  note E = C1_error_slot_amended [where lil = c1_lil and code = "''t''" and codelen = 0 and fl = False]
  have tr: "fnc_try (lil_parse 6 H1) c1_clear [''{''] = Some (None, l1\<lparr>l_error := ERROR_NOERROR\<rparr>)"
    using D n e by simp
  let ?b = "lil_parse_enter c1_clear ''t {'' 0 False"
  have b: "l_head ?b < clen ?b" "l_error ?b = ERROR_NOERROR" "ctrlc H1 (host ?b) = (False, 0)"
    by (simp_all add: eval_simps c1_clear_def c1_lil_def H1_def cong: eval_congs)
  have "\<exists>ws lw. substitute 6 (lil_parse 6 H1) H1 (?b\<lparr>host := 0\<rparr>) = Some (ws, lw) \<and>
          l_error lw = ERROR_UNBALANCED \<and> host lw = 0"
    by (simp add: eval_simps c1_clear_def c1_lil_def H1_def cong: eval_congs)
  then obtain ws lw where s: "substitute 6 (lil_parse 6 H1) H1 (?b\<lparr>host := 0\<rparr>) = Some (ws, lw)"
    "l_error lw = ERROR_UNBALANCED" "host lw = 0"
    by blast
  note F = C1_error_slot_amended [where lil = ?b and H = H1 and P = "lil_parse 6 H1" and n = 6 and h = 0
      and ws = ws and lilw = lw and val = None]
  have f: "lil_parse_loop (Suc 6) (lil_parse 6 H1) H1 ?b None = Some (None, lw)"
    using F b s by simp
  let ?c = "lil_parse_enter c1_err ''error boom; t'' 0 False"
  have c: "l_head ?c < clen ?c" "l_error ?c = ERROR_NOERROR"
    by (simp_all add: eval_simps c1_err_def c1_clear_def c1_lil_def H1_def cong: eval_congs)
  have "\<exists>v ly. lil_parse_step (Suc 6) (lil_parse 6 H1) H1 ?c = Some (v, ly, False) \<and>
          l_error ly \<noteq> ERROR_NOERROR \<and> host ly = 0 \<and> err_msg ly = Some ''boom''"
    by (simp add: eval_simps c1_err_def c1_clear_def c1_lil_def H1_def fnc_error_def lil_set_error_def
          cong: eval_congs)
  then obtain v ly where y: "lil_parse_step (Suc 6) (lil_parse 6 H1) H1 ?c = Some (v, ly, False)"
    "l_error ly \<noteq> ERROR_NOERROR" "host ly = 0" "err_msg ly = Some ''boom''"
    by blast
  have it: "loop_iter (lil_parse 6 H1) H1 (Suc (Suc 6), ?c, None) (Suc 6, ly, v)"
    by (rule loop_iter.iter [OF c y(1)])
  note G = C1_error_slot_amended [where lil = ?c and H = H1 and P = "lil_parse 6 H1" and n = 6
      and lily = ly and v = v and val = None]
  have g: "lil_parse_loop (Suc (Suc 6)) (lil_parse 6 H1) H1 ?c None = Some (v, ly)"
    using G it y(2) by simp
  have h: "calloc_ok H1 0"
    by (simp add: H1_def)
  have k: "\<exists>v l. lil_parse (Suc (Suc 0)) H1 c1_nested ''t'' 0 False = Some (Some v, l) \<and>
      host l = 0 \<and> err_msg l = Some ''first''"
    using A n h by (simp add: cleanup_value split: option.splits)
  show ?thesis
    using A E n tr f g s y k by auto
qed

text \<open>
  C2, as the code has it. A body evaluated by \<^verbatim>\<open>lil_parse\<close> whose loop, after any number of
  iterations, dispatches a line to a command. If that command is the built-in \<^verbatim>\<open>return\<close>, it
  sets \<^verbatim>\<open>breakrun\<close> and \<^verbatim>\<open>retval_set\<close> in the current frame and stores its first argument in
  \<^verbatim>\<open>retval\<close>. Whenever the command of the line, whatever it is, comes back with \<^verbatim>\<open>breakrun\<close> and
  \<^verbatim>\<open>retval_set\<close> set in the current frame, the loop is left at once, so no later line is
  dispatched. With \<^verbatim>\<open>funclevel = 1\<close> the result is the frame's \<^verbatim>\<open>retval\<close> (the empty value when
  it is null) and \<^verbatim>\<open>retval\<close>, \<^verbatim>\<open>retval_set\<close> and \<^verbatim>\<open>breakrun\<close> are cleared; with \<^verbatim>\<open>funclevel = 0\<close>
  (a bracketed word, the body of \<^verbatim>\<open>if\<close>) the flags are left as they are, for the loop that
  dispatched the enclosing line.
\<close>

theorem C2_return_unwinds:
  assumes reach: "rtranclp (loop_iter (lil_parse m H) H) (m, lil_parse_enter lil0 code codelen fl, None) (Suc n, lil, val)"
    and cond: "l_head lil < clen lil" "l_error lil = ERROR_NOERROR"
    and intr: "ctrlc H (host lil) = (False, h)"
    and ws: "substitute n (lil_parse m H) H (lil\<lparr>host := h\<rparr>) = Some (Some words, lil1)"
    and noerr: "l_error lil1 = ERROR_NOERROR"
    and ne: "words \<noteq> []"
    and cmd: "fst (lil_find_cmd lil1 (lil_to_string (Some (words ! 0)))) = Some c"
  shows "(fn_proc (funcs lil1 c) = Some Fnc_return \<longrightarrow>
            run_cmd n (lil_parse m H) H lil1 c words =
              Some (case tl words of [] \<Rightarrow> None | a # as \<Rightarrow> Some a,
                    upd_env (l_env lil1)
                      (\<lambda>e. e\<lparr>breakrun := True, retval := (case tl words of [] \<Rightarrow> None | a # as \<Rightarrow> Some a),
                             retval_set := True\<rparr>) lil1)) \<and>
         (run_cmd n (lil_parse m H) H lil1 c words = Some (v, lil2) \<and>
          breakrun (cur_env lil2) \<and> retval_set (cur_env lil2) \<longrightarrow>
            lil_parse (Suc m) H lil0 code codelen fl =
              Some (case (if fl then retval (cur_env lil2) else v) of
                      Some x \<Rightarrow> Some x
                    | None \<Rightarrow> if calloc_ok H (host lil2) then Some [] else None,
                    (if fl then upd_env (l_env lil2) (\<lambda>e. e\<lparr>retval := None, retval_set := False, breakrun := False\<rparr>) lil2
                     else lil2)
                      \<lparr>l_code := l_code lil0, clen := clen lil0, l_head := l_head lil0,
                        parse_depth := parse_depth lil2 - 1\<rparr>))"
proof (intro conjI impI)
  assume "fn_proc (funcs lil1 c) = Some Fnc_return"
  then show "run_cmd n (lil_parse m H) H lil1 c words =
              Some (case tl words of [] \<Rightarrow> None | a # as \<Rightarrow> Some a,
                    upd_env (l_env lil1)
                      (\<lambda>e. e\<lparr>breakrun := True, retval := (case tl words of [] \<Rightarrow> None | a # as \<Rightarrow> Some a),
                             retval_set := True\<rparr>) lil1)"
    using noerr by (rule run_cmd_return)
next
  assume a: "run_cmd n (lil_parse m H) H lil1 c words = Some (v, lil2) \<and>
          breakrun (cur_env lil2) \<and> retval_set (cur_env lil2)"
  then have run: "run_cmd n (lil_parse m H) H lil1 c words = Some (v, lil2)"
    and br: "breakrun (cur_env lil2)" and rs: "retval_set (cur_env lil2)"
    by simp_all
  have "lil_parse_loop (Suc n) (lil_parse m H) H lil val = Some (v, lil2)"
    by (rule loop_at_breakrun [OF cond intr ws noerr ne cmd run br])
  then have "lil_parse_loop m (lil_parse m H) H (lil_parse_enter lil0 code codelen fl) None = Some (v, lil2)"
    using loop_iter_loop [OF reach] by simp
  then have "lil_parse (Suc m) H lil0 code codelen fl = Some (lil_parse_cleanup H lil0 lil2 v fl)"
    by (rule parse_of_loop)
  then show "lil_parse (Suc m) H lil0 code codelen fl =
              Some (case (if fl then retval (cur_env lil2) else v) of
                      Some x \<Rightarrow> Some x
                    | None \<Rightarrow> if calloc_ok H (host lil2) then Some [] else None,
                    (if fl then upd_env (l_env lil2) (\<lambda>e. e\<lparr>retval := None, retval_set := False, breakrun := False\<rparr>) lil2
                     else lil2)
                      \<lparr>l_code := l_code lil0, clen := clen lil0, l_head := l_head lil0,
                        parse_depth := parse_depth lil2 - 1\<rparr>)"
    unfolding cleanup_at_return [OF rs] .
qed

text \<open>
  The claim as stated fails: the words of the line that holds the \<^verbatim>\<open>return\<close> are still
  substituted. In the body \<^verbatim>\<open>quote [return 5] [t]\<close> the command \<^verbatim>\<open>t\<close> runs after the \<^verbatim>\<open>return\<close>
  (the host counts the call); the result is 5.
\<close>

theorem C2_return_counterexample:
  "host c2q_lil = 0 \<and>
   fst (the (lil_parse 12 H1 c2q_lil ''quote [return 5] [t]'' 0 True)) = Some ''5'' \<and>
   host (snd (the (lil_parse 12 H1 c2q_lil ''quote [return 5] [t]'' 0 True))) = 1"
  by (simp add: eval_simps var_defs c2_defs cong: eval_congs)

text \<open>
  In the body \<^verbatim>\<open>t; return 5; t\<close> the first \<^verbatim>\<open>t\<close> runs and the second does not; in
  \<^verbatim>\<open>if 1 {return 5}; t\<close> the \<^verbatim>\<open>return\<close> runs inside the body of \<^verbatim>\<open>if\<close>, and \<^verbatim>\<open>t\<close> does not run.
\<close>

theorem C2_return_unwinds_witness:
  "lil_parse 9 H1 c2_lil c2_code 0 True =
     Some (Some ''5'',
           (upd_env 0 (\<lambda>e. e\<lparr>retval := None, retval_set := False, breakrun := False\<rparr>) (c2_mid\<lparr>host := 1, l_head := 11\<rparr>))
             \<lparr>l_code := None, clen := 0, l_head := 0, parse_depth := 0\<rparr>) \<and>
   host c2_mid = 1 \<and>
   (\<exists>l. lil_parse (Suc 31) H1 c2q_lil ''if 1 {return 5}; t'' 0 True = Some (Some ''5'', l) \<and> host l = 0 \<and>
      \<not> retval_set (cur_env l) \<and> \<not> breakrun (cur_env l))"
proof -
  let ?P = "lil_parse 8 H1"
  have mid: "lil_parse_step 7 ?P H1 (lil_parse_enter c2_lil c2_code 0 True) = Some (None, c2_mid, False)"
    unfolding c2_mid_def
    by (simp add: eval_simps var_defs c2_lil_def c2_code_def H1_def cong: eval_congs)
  have e: "l_head (lil_parse_enter c2_lil c2_code 0 True) < clen (lil_parse_enter c2_lil c2_code 0 True)"
    "l_error (lil_parse_enter c2_lil c2_code 0 True) = ERROR_NOERROR"
    by (simp_all add: eval_simps c2_lil_def c2_code_def cong: eval_congs)
  have "loop_iter ?P H1 (Suc 7, lil_parse_enter c2_lil c2_code 0 True, None) (7, c2_mid, None)"
    by (rule loop_iter.iter [OF e mid])
  then have reach: "rtranclp (loop_iter ?P H1) (8, lil_parse_enter c2_lil c2_code 0 True, None) (Suc 6, c2_mid, None)"
    by (simp add: eval_nat_numeral)
  have m: "l_head c2_mid < clen c2_mid" "l_error c2_mid = ERROR_NOERROR" "host c2_mid = 1"
    "ctrlc H1 (host c2_mid) = (False, 1)" "l_env c2_mid = 0" "parse_depth c2_mid = 1"
    unfolding c2_mid_def
    by (simp_all add: eval_simps var_defs c2_lil_def c2_code_def H1_def cong: eval_congs)
  have ws: "substitute 6 ?P H1 (c2_mid\<lparr>host := 1\<rparr>) =
              Some (Some [''return'', ''5''], c2_mid\<lparr>host := 1, l_head := 11\<rparr>)"
    unfolding c2_mid_def
    by (simp add: eval_simps var_defs c2_lil_def c2_code_def H1_def cong: eval_congs)
  have c: "fst (lil_find_cmd (c2_mid\<lparr>host := 1, l_head := 11\<rparr>) (lil_to_string (Some ([''return'', ''5''] ! 0)))) = Some 1"
    "fn_proc (funcs (c2_mid\<lparr>host := 1, l_head := 11\<rparr>) 1) = Some Fnc_return"
    unfolding c2_mid_def
    by (simp_all add: eval_simps var_defs c2_lil_def c2_code_def H1_def cong: eval_congs)
  have z: "l_code c2_lil = None" "clen c2_lil = 0" "l_head c2_lil = 0" "calloc_ok H1 1"
    by (simp_all add: eval_simps c2_lil_def H1_def cong: eval_congs)
  let ?l1 = "c2_mid\<lparr>host := 1, l_head := 11\<rparr>"
  let ?l2 = "upd_env (l_env ?l1) (\<lambda>e. e\<lparr>breakrun := True, retval := Some ''5'', retval_set := True\<rparr>) ?l1"
  note T = C2_return_unwinds [OF reach m(1,2,4) ws _ _ c(1), of "Some ''5''" ?l2]
  have run: "run_cmd 6 ?P H1 ?l1 1 [''return'', ''5''] = Some (Some ''5'', ?l2)"
    using T c m by simp
  have fl: "breakrun (cur_env ?l2)" "retval_set (cur_env ?l2)" "retval (cur_env ?l2) = Some ''5''"
    by (simp_all add: cur_env_def upd_env_def)
  have first: "lil_parse 9 H1 c2_lil c2_code 0 True =
     Some (Some ''5'',
           (upd_env 0 (\<lambda>e. e\<lparr>retval := None, retval_set := False, breakrun := False\<rparr>) (c2_mid\<lparr>host := 1, l_head := 11\<rparr>))
             \<lparr>l_code := None, clen := 0, l_head := 0, parse_depth := 0\<rparr>)"
    using T run fl m z by (simp add: upd_env_def cur_env_def)
  let ?Q = "lil_parse 31 H1"
  let ?b = "lil_parse_enter c2q_lil ''if 1 {return 5}; t'' 0 True"
  have b: "l_head ?b < clen ?b" "l_error ?b = ERROR_NOERROR" "ctrlc H1 (host ?b) = (False, 0)"
    by (simp_all add: eval_simps c2_defs cong: eval_congs)
  have r2: "rtranclp (loop_iter ?Q H1) (31, ?b, None) (Suc 30, ?b, None)"
    by simp
  have "\<exists>lil1. substitute 30 ?Q H1 (?b\<lparr>host := 0\<rparr>) = Some (Some [''if'', ''1'', ''return 5''], lil1) \<and>
          l_error lil1 = ERROR_NOERROR \<and>
          fst (lil_find_cmd lil1 (lil_to_string (Some ([''if'', ''1'', ''return 5''] ! 0)))) = Some 3 \<and>
          (\<exists>v lil2. run_cmd 30 ?Q H1 lil1 3 [''if'', ''1'', ''return 5''] = Some (v, lil2) \<and>
             breakrun (cur_env lil2) \<and> retval_set (cur_env lil2) \<and> retval (cur_env lil2) = Some ''5'' \<and>
             host lil2 = 0)"
    by (simp add: eval_simps var_defs c2_defs fnc_if_def expr_defs ee_defs ee_fuel_numeral to_boolean_loop.simps
          lil_to_boolean_def cong: eval_congs)
  then obtain k1 v k2 where
    s: "substitute 30 ?Q H1 (?b\<lparr>host := 0\<rparr>) = Some (Some [''if'', ''1'', ''return 5''], k1)"
      "l_error k1 = ERROR_NOERROR"
      "fst (lil_find_cmd k1 (lil_to_string (Some ([''if'', ''1'', ''return 5''] ! 0)))) = Some 3"
    and r: "run_cmd 30 ?Q H1 k1 3 [''if'', ''1'', ''return 5''] = Some (v, k2)"
      "breakrun (cur_env k2)" "retval_set (cur_env k2)" "retval (cur_env k2) = Some ''5''" "host k2 = 0"
    by blast
  note U = C2_return_unwinds [OF r2 b s(1,2) _ s(3), of v k2]
  have second: "\<exists>l. lil_parse (Suc 31) H1 c2q_lil ''if 1 {return 5}; t'' 0 True = Some (Some ''5'', l) \<and> host l = 0 \<and>
      \<not> retval_set (cur_env l) \<and> \<not> breakrun (cur_env l)"
    using U r by (simp add: upd_env_def cur_env_def)
  show ?thesis
    using first m(3) second by blast
qed

text \<open>
  C3. For a list \<open>L\<close> of values without control characters and an interpreter whose error slot
  is clear, \<^verbatim>\<open>lil_subst_to_list\<close> on \<^verbatim>\<open>lil_list_to_value(L, 1)\<close> returns, with any fuel from the
  bound on, the list \<open>L\<close> itself: as many entries, the same bytes in each; and it leaves the
  interpreter as it was. No command is run on the way, whatever \<open>P\<close> and the host are.
\<close>

theorem C3_list_round_trip:
  assumes ctl: "\<forall>x\<in>set L. \<forall>c\<in>set x. \<not> iscntrl c"
    and err: "l_error lil = ERROR_NOERROR"
    and fuel: "length L + 2 * length (concat L) + 4 \<le> n"
  shows "lil_subst_to_list n P H lil (Some (lil_list_to_value L True)) = Some (L, lil)"
proof -
  let ?d = "lil_list_to_value L True"
  let ?l1 = "lil\<lparr>l_code := Some ?d, clen := length ?d, l_head := 0, ignoreeol := True\<rparr>"
  have d: "?d = list_to_value_loop True [] 0 L"
    by (simp add: lil_list_to_value_def alloc_value_def)
  have cn: "iscntrl NUL"
    by (simp add: iscntrl_def NUL_def)
  have nn: "NUL \<notin> set x" if "x \<in> set L" for x
    using ctl that cn by blast
  have len: "length x \<le> length (concat L)" if "x \<in> set L" for x
    using that by (induction L) auto
  have x: "\<forall>x\<in>set L. NUL \<notin> set x \<and> 2 * length x + 3 \<le> 2 * length (concat L) + 3"
    using nn len by auto
  have c: "l_code ?l1 = Some ([] @ list_to_value_loop True [] 0 L)"
    "clen ?l1 = length ([] @ list_to_value_loop True [] 0 L)" "l_head ?l1 = length ([] :: string)"
    "l_error ?l1 = ERROR_NOERROR" "ignoreeol ?l1"
    using err by (simp_all add: d)
  have n: "length L + (2 * length (concat L) + 3) + 1 \<le> n"
    using fuel by simp
  have "substitute_words n P H (lil_skip_spaces ?l1) [] =
          Some (Some ([] @ L), ?l1\<lparr>l_head := length ([] @ list_to_value_loop True [] 0 L)\<rparr>)"
    using c x n by (rule substitute_words_list)
  then show ?thesis
    by (simp add: lil_subst_to_list_def substitute_def Let_def)
qed

text \<open>
  A plain entry stays as it is, an entry with a blank goes into braces, a brace inside an entry
  leaves the braces for a quoted escape, and the empty entry is \<^verbatim>\<open>{}\<close>.
\<close>

theorem C3_list_round_trip_witness:
  "lil_list_to_value [''a'', ''b c'', ''x{y}'', []] True =
     ''a {b c} {x}'' @ [CHR 0x22, CHR 0x5C, CHR ''o'', CHR 0x22] @ ''{y}'' @
     [CHR 0x22, CHR 0x5C, CHR ''c'', CHR 0x22] @ ''{} {}'' \<and>
   lil_subst_to_list 40 (lil_parse 0 H0) H0 (lil_zero ()) (Some (lil_list_to_value [''a'', ''b c'', ''x{y}'', []] True)) =
     Some ([''a'', ''b c'', ''x{y}'', []], lil_zero ())"
proof
  show "lil_list_to_value [''a'', ''b c'', ''x{y}'', []] True =
     ''a {b c} {x}'' @ [CHR 0x22, CHR 0x5C, CHR ''o'', CHR 0x22] @ ''{y}'' @
     [CHR 0x22, CHR 0x5C, CHR ''c'', CHR 0x22] @ ''{} {}''"
    by (simp add: lil_list_to_value_def needs_escape_def lil_to_string_def cstr_def NUL_def ispunct_def
          isspace_def alloc_value_def lil_append_char_def lil_append_val_def lil_append_string_def Let_def)
  have c: "\<forall>x\<in>set [''a'', ''b c'', ''x{y}'', []]. \<forall>c\<in>set x. \<not> iscntrl c"
    by (simp add: iscntrl_def)
  have e: "l_error (lil_zero ()) = ERROR_NOERROR"
    by (simp add: lil_zero_def)
  have f: "length [''a'', ''b c'', ''x{y}'', []] + 2 * length (concat [''a'', ''b c'', ''x{y}'', []]) + 4 \<le> (40 :: nat)"
    by simp
  show "lil_subst_to_list 40 (lil_parse 0 H0) H0 (lil_zero ()) (Some (lil_list_to_value [''a'', ''b c'', ''x{y}'', []] True)) =
     Some ([''a'', ''b c'', ''x{y}'', []], lil_zero ())"
    using C3_list_round_trip [OF c e f] .
qed

text \<open>
  C5, as the code has it. \<^verbatim>\<open>run_cmd\<close> on a script function (no \<^verbatim>\<open>proc\<close>) with the argument
  names \<open>argnames\<close>, called with the words \<open>words\<close> of the line, the name of the function first.
  It pushes a frame marked with the function, binds the arguments in it, and evaluates the body
  there at function level. If \<open>argnames\<close> is the one name \<^verbatim>\<open>args\<close>, the frame binds \<^verbatim>\<open>args\<close> to
  \<^verbatim>\<open>lil_list_to_value(words, 1)\<close>: all the words of the line, the name of the function among
  them. Otherwise the name at position \<open>j\<close>, if it is not empty and does not occur again later
  in \<open>argnames\<close>, is bound to the word \<open>j + 1\<close>, or to the empty value when the line has no such
  word.
\<close>

theorem C5_argument_binding:
  assumes proc: "fn_proc (funcs lil cmd) = None" and names: "fn_argnames (funcs lil cmd) = Some argnames"
  shows "\<exists>frame.
           bind_args P H (upd_env (env_next lil) (\<lambda>e. e\<lparr>env_func := Some cmd\<rparr>) (lil_push_env lil)) argnames words =
             Some frame \<and>
           run_cmd n P H lil cmd words =
             (case lil_parse_value P frame (fn_code (funcs lil cmd)) True of
                None \<Rightarrow> None | Some (r, lil4) \<Rightarrow> Some (r, lil_pop_env lil4)) \<and>
           l_env frame = env_next lil \<and> env_parent (cur_env frame) = Some (l_env lil) \<and>
           env_func (cur_env frame) = Some cmd \<and>
           (if length argnames = 1 \<and> lil_to_string (Some (argnames ! 0)) = ''args''
            then local_value frame ''args'' = Some (Some (lil_list_to_value words True))
            else \<forall>j<length argnames.
                   lil_to_string (Some (argnames ! j)) \<noteq> [] \<and>
                   (\<forall>j'. j < j' \<and> j' < length argnames \<longrightarrow>
                      lil_to_string (Some (argnames ! j')) \<noteq> lil_to_string (Some (argnames ! j))) \<longrightarrow>
                   local_value frame (lil_to_string (Some (argnames ! j))) =
                     Some (Some (if j < length words - 1 then words ! (j + 1) else alloc_value None)))"
proof -
  let ?f = "upd_env (env_next lil) (\<lambda>e. e\<lparr>env_func := Some cmd\<rparr>) (lil_push_env lil)"
  note fr = fresh_frame [of lil cmd]
  show ?thesis
  proof (cases "length argnames = 1 \<and> lil_to_string (Some (argnames ! 0)) = ''args''")
    case True
    obtain r frame where s: "lil_set_var P H ?f ''args'' (Some (lil_list_to_value words True)) LIL_SETVAR_LOCAL_NEW = Some (r, frame)"
      and f: "l_env frame = l_env ?f" "funcs frame = funcs ?f" "env_func (cur_env frame) = env_func (cur_env ?f)"
        "env_parent (cur_env frame) = env_parent (cur_env ?f)"
      and v: "\<And>k. local_value frame k =
                (if cstr ''args'' \<noteq> [] \<and> cstr k = cstr ''args'' then Some (Some (lil_list_to_value words True))
                 else local_value ?f k)"
      using set_var_new_step [OF fr(1), of P H "''args''" "Some (lil_list_to_value words True)"] by blast
    have b: "bind_args P H ?f argnames words = Some frame"
      using True s by (simp add: bind_args_def Let_def)
    have a: "cstr ''args'' \<noteq> []"
      by (simp add: cstr_def NUL_def)
    have "local_value frame ''args'' = Some (Some (lil_list_to_value words True))"
      using v [of "''args''"] a by simp
    then show ?thesis
      using True b f fr run_cmd_script [OF proc names b, of n] by simp
  next
    case False
    obtain frame where s: "bind_loop P H ?f argnames words 0 = Some frame"
      and f: "l_env frame = l_env ?f" "funcs frame = funcs ?f" "env_func (cur_env frame) = env_func (cur_env ?f)"
        "env_parent (cur_env frame) = env_parent (cur_env ?f)"
      using bind_loop_keeps [OF fr(1), of P H argnames words 0] by blast
    have b: "bind_args P H ?f argnames words = Some frame"
      using False s by (auto simp: bind_args_def)
    have "local_value frame (lil_to_string (Some (argnames ! j))) =
            Some (Some (if j < length words - 1 then words ! (j + 1) else alloc_value None))"
      if "j < length argnames" "lil_to_string (Some (argnames ! j)) \<noteq> []"
        "\<forall>j'. j < j' \<and> j' < length argnames \<longrightarrow>
           lil_to_string (Some (argnames ! j')) \<noteq> lil_to_string (Some (argnames ! j))" for j
      using bind_loop_binds [OF fr(1) that, of P H words 0] s by simp
    moreover have "run_cmd n P H lil cmd words =
             (case lil_parse_value P frame (fn_code (funcs lil cmd)) True of
                None \<Rightarrow> None | Some (r, lil4) \<Rightarrow> Some (r, lil_pop_env lil4))"
      using run_cmd_script [OF proc names b] f fr by simp
    ultimately show ?thesis
      using False b f fr by auto
  qed
qed

text \<open>
  The claim as stated fails: \<^verbatim>\<open>args\<close> is not bound to the caller's arguments alone. With
  \<^verbatim>\<open>func f args {set args}\<close> the call \<^verbatim>\<open>f 1 2\<close> returns \<^verbatim>\<open>f 1 2\<close>, and the list of its two
  arguments is \<^verbatim>\<open>1 2\<close>. Nor is every declared name bound to its argument: with
  \<^verbatim>\<open>func h {x x} {set x}\<close> the call \<^verbatim>\<open>h 1 2\<close> returns 2, the first \<^verbatim>\<open>x\<close> being hidden by the second,
  and an empty name is not bound at all.
\<close>

theorem C5_args_counterexample:
  "fst (the (lil_parse 12 H0 c5_lil ''f 1 2'' 0 False)) = Some ''f 1 2'' \<and>
   lil_list_to_value [''1'', ''2''] True = ''1 2'' \<and>
   fst (the (lil_parse 12 H0 c5_dup ''h 1 2'' 0 False)) = Some ''2'' \<and>
   local_value (the (bind_args (lil_parse 0 H0) H0 (lil_push_env c5_dup) [[], ''x''] [''k'', ''1'', ''2''])) [] = None \<and>
   local_value (the (bind_args (lil_parse 0 H0) H0 (lil_push_env c5_dup) [[], ''x''] [''k'', ''1'', ''2''])) ''x'' =
     Some (Some ''2'')"
  by (simp add: eval_simps var_defs c5_defs c5_dup_def H0_def local_value_def cong: eval_congs)

text \<open>
  In \<open>c5_lil\<close>, \<^verbatim>\<open>f\<close> has the one argument name \<^verbatim>\<open>args\<close>, and \<^verbatim>\<open>g\<close> has \<^verbatim>\<open>x\<close> and \<^verbatim>\<open>y\<close>: the call
  \<^verbatim>\<open>g 1\<close> binds \<^verbatim>\<open>x\<close> to 1 and \<^verbatim>\<open>y\<close> to the empty value.
\<close>

theorem C5_argument_binding_witness:
  "fn_proc (funcs c5_lil 1) = None \<and> fn_argnames (funcs c5_lil 1) = Some [''args''] \<and>
   (\<exists>frame. run_cmd 8 (lil_parse 8 H0) H0 c5_lil 1 [''f'', ''1'', ''2''] =
              (case lil_parse_value (lil_parse 8 H0) frame (Some ''set args'') True of
                 None \<Rightarrow> None | Some (r, lil4) \<Rightarrow> Some (r, lil_pop_env lil4)) \<and>
            local_value frame ''args'' = Some (Some ''f 1 2'')) \<and>
   fn_proc (funcs c5_lil 2) = None \<and> fn_argnames (funcs c5_lil 2) = Some [''x'', ''y''] \<and>
   (\<exists>frame. run_cmd 8 (lil_parse 8 H0) H0 c5_lil 2 [''g'', ''1''] =
              (case lil_parse_value (lil_parse 8 H0) frame (Some ''set y'') True of
                 None \<Rightarrow> None | Some (r, lil4) \<Rightarrow> Some (r, lil_pop_env lil4)) \<and>
            local_value frame ''x'' = Some (Some ''1'') \<and> local_value frame ''y'' = Some (Some []))"
proof -
  have f: "fn_proc (funcs c5_lil 1) = None" "fn_argnames (funcs c5_lil 1) = Some [''args'']"
    "fn_code (funcs c5_lil 1) = Some ''set args''"
    and g: "fn_proc (funcs c5_lil 2) = None" "fn_argnames (funcs c5_lil 2) = Some [''x'', ''y'']"
    "fn_code (funcs c5_lil 2) = Some ''set y''"
    by (simp_all add: eval_simps c5_defs cong: eval_congs)
  have s: "lil_list_to_value [''f'', ''1'', ''2''] True = ''f 1 2''"
    "lil_to_string (Some ''args'') = ''args''" "lil_to_string (Some ''x'') = ''x''"
    "lil_to_string (Some ''y'') = ''y''" "alloc_value None = []"
    by (simp_all add: eval_simps c5_defs cong: eval_congs)
  obtain fa where a: "run_cmd 8 (lil_parse 8 H0) H0 c5_lil 1 [''f'', ''1'', ''2''] =
              (case lil_parse_value (lil_parse 8 H0) fa (Some ''set args'') True of
                 None \<Rightarrow> None | Some (r, lil4) \<Rightarrow> Some (r, lil_pop_env lil4))"
    "local_value fa ''args'' = Some (Some ''f 1 2'')"
    using C5_argument_binding [OF f(1,2), of "lil_parse 8 H0" H0 "[''f'', ''1'', ''2'']" 8]
    by (auto simp: f s simp del: One_nat_def)
  obtain fg where b: "run_cmd 8 (lil_parse 8 H0) H0 c5_lil 2 [''g'', ''1''] =
              (case lil_parse_value (lil_parse 8 H0) fg (Some ''set y'') True of
                 None \<Rightarrow> None | Some (r, lil4) \<Rightarrow> Some (r, lil_pop_env lil4))"
    and x: "\<forall>j<length [''x'', ''y''].
               lil_to_string (Some ([''x'', ''y''] ! j)) \<noteq> [] \<and>
               (\<forall>j'. j < j' \<and> j' < length [''x'', ''y''] \<longrightarrow>
                  lil_to_string (Some ([''x'', ''y''] ! j')) \<noteq> lil_to_string (Some ([''x'', ''y''] ! j))) \<longrightarrow>
               local_value fg (lil_to_string (Some ([''x'', ''y''] ! j))) =
                 Some (Some (if j < length [''g'', ''1''] - 1 then [''g'', ''1''] ! (j + 1) else alloc_value None))"
    using C5_argument_binding [OF g(1,2), of "lil_parse 8 H0" H0 "[''g'', ''1'']" 8]
    by (auto simp: g simp del: One_nat_def)
  have nd: "lil_to_string (Some ([''x'', ''y''] ! j)) \<noteq> lil_to_string (Some ([''x'', ''y''] ! 0))"
    if "0 < j \<and> j < length [''x'', ''y'']" for j
  proof -
    have "j = 1" using that by simp
    then show ?thesis by (simp add: s)
  qed
  have "local_value fg ''x'' = Some (Some ''1'')"
    using x [rule_format, of 0] nd by (simp add: s)
  moreover have "local_value fg ''y'' = Some (Some [])"
    using x [rule_format, of 1] by (simp add: s)
  ultimately show ?thesis
    using a b f g by blast
qed

text \<open>
  C6. \<^verbatim>\<open>lil_set_var\<close> with a name for which \<^verbatim>\<open>lil_find_var\<close> finds a variable \<open>p\<close> that has a
  watch \<open>w\<close>; \<open>g\<close> says that \<open>p\<close> is global, and \<open>rc\<close> and \<open>h\<close> are what \<^verbatim>\<open>env_set\<close> returns.
  The variable is overwritten when the mode is not \<^verbatim>\<open>LIL_SETVAR_LOCAL_NEW\<close>, the variable is not
  a global found from another environment in the mode \<^verbatim>\<open>LIL_SETVAR_LOCAL_ONLY\<close>, and, for a
  global, the value is not null and \<^verbatim>\<open>env_set\<close> succeeds. Then the value is stored and
  \<^verbatim>\<open>lil_parse\<close> is called on the watch exactly once, with \<^verbatim>\<open>funclevel = 1\<close>, in the environment that
  owns the variable; its result is dropped, the previous environment is put back and the
  variable is returned. In the mode \<^verbatim>\<open>LIL_SETVAR_LOCAL_NEW\<close> a new variable is appended and the
  parser is not called; the same holds for a global found from another environment in the mode
  \<^verbatim>\<open>LIL_SETVAR_LOCAL_ONLY\<close>; and when \<^verbatim>\<open>env_set\<close> fails nothing is stored and the parser is not
  called.
\<close>

theorem C6_watch_runs_once:
  assumes name: "cstr name \<noteq> []"
    and env: "env = (if local = LIL_SETVAR_GLOBAL then rootenv lil else l_env lil)"
    and found: "lil_find_var lil env name = Some p"
    and watch: "var_w (var_at lil p) = Some w"
    and glob: "g = (var_env (var_at lil p) = rootenv lil)"
    and store: "env_set H (cstr name) (lil_to_string val) (host lil) = (rc, h)"
  shows "(local \<noteq> LIL_SETVAR_LOCAL_NEW \<and> \<not> (local = LIL_SETVAR_LOCAL_ONLY \<and> g \<and> rootenv lil \<noteq> env) \<and>
          (g \<longrightarrow> val \<noteq> None \<and> rc = 0) \<longrightarrow>
            lil_set_var P H lil name val local =
              (case P ((upd_var p (\<lambda>x. x\<lparr>var_v := val\<rparr>) (lil\<lparr>host := if g then h else host lil\<rparr>))
                         \<lparr>l_env := var_env (var_at lil p)\<rparr>) w 0 True of
                 None \<Rightarrow> None
               | Some (r, lil3) \<Rightarrow> Some (Some p, lil3\<lparr>l_env := l_env lil\<rparr>))) \<and>
         lil_set_var P H lil name val LIL_SETVAR_LOCAL_NEW = Some (append_var lil (l_env lil) name val) \<and>
         (local = LIL_SETVAR_LOCAL_ONLY \<and> g \<and> rootenv lil \<noteq> env \<longrightarrow>
            lil_set_var P H lil name val local = Some (append_var lil (l_env lil) name val)) \<and>
         (local \<noteq> LIL_SETVAR_LOCAL_NEW \<and> \<not> (local = LIL_SETVAR_LOCAL_ONLY \<and> g \<and> rootenv lil \<noteq> env) \<and>
          g \<and> val \<noteq> None \<and> rc \<noteq> 0 \<longrightarrow>
            lil_set_var P H lil name val local = Some (None, lil\<lparr>host := h\<rparr>))"
proof (intro conjI impI)
  have va: "var_at (lil\<lparr>host := hh\<rparr>) p = var_at lil p" for hh
    by (simp add: var_at_def)
  have vw: "var_w (var_at (upd_var p (\<lambda>x. x\<lparr>var_v := vv\<rparr>) (lil\<lparr>host := hh\<rparr>)) p) = Some w"
    "var_env (var_at (upd_var p (\<lambda>x. x\<lparr>var_v := vv\<rparr>) (lil\<lparr>host := hh\<rparr>)) p) = var_env (var_at lil p)" for hh vv
    using watch by (simp_all add: var_at_upd_var va)
  have same: "lil\<lparr>host := host lil\<rparr> = lil"
    by simp
  {
    assume a: "local \<noteq> LIL_SETVAR_LOCAL_NEW \<and> \<not> (local = LIL_SETVAR_LOCAL_ONLY \<and> g \<and> rootenv lil \<noteq> env) \<and>
          (g \<longrightarrow> val \<noteq> None \<and> rc = 0)"
    show "lil_set_var P H lil name val local =
              (case P ((upd_var p (\<lambda>x. x\<lparr>var_v := val\<rparr>) (lil\<lparr>host := if g then h else host lil\<rparr>))
                         \<lparr>l_env := var_env (var_at lil p)\<rparr>) w 0 True of
                 None \<Rightarrow> None
               | Some (r, lil3) \<Rightarrow> Some (Some p, lil3\<lparr>l_env := l_env lil\<rparr>))"
    proof (cases g)
      case True
      then have r: "var_env (var_at lil p) = rootenv lil" "val \<noteq> None" "rc = 0"
        and o: "local = LIL_SETVAR_LOCAL_ONLY \<Longrightarrow> rootenv lil = l_env lil"
        using glob a env by auto
      show ?thesis
        using name found store r o a True unfolding env
        by (cases local; cases val) (simp_all add: lil_set_var_def Let_def lil_clone_value_def va vw)
    next
      case False
      then have r: "var_env (var_at lil p) \<noteq> rootenv lil"
        using glob by simp
      show ?thesis
        using name found store r a False unfolding env
        by (cases local) (simp_all add: lil_set_var_def Let_def lil_clone_value_def va vw)
    qed
  }
  show "lil_set_var P H lil name val LIL_SETVAR_LOCAL_NEW = Some (append_var lil (l_env lil) name val)"
    using name by (simp add: set_var_local_new)
  {
    assume a: "local = LIL_SETVAR_LOCAL_ONLY \<and> g \<and> rootenv lil \<noteq> env"
    then have "var_env (var_at lil p) = rootenv lil" "env = l_env lil" "rootenv lil \<noteq> l_env lil"
      using glob env by auto
    then show "lil_set_var P H lil name val local = Some (append_var lil (l_env lil) name val)"
      using name found a unfolding env
      by (simp add: lil_set_var_def Let_def same)
  }
  {
    assume a: "local \<noteq> LIL_SETVAR_LOCAL_NEW \<and> \<not> (local = LIL_SETVAR_LOCAL_ONLY \<and> g \<and> rootenv lil \<noteq> env) \<and>
          g \<and> val \<noteq> None \<and> rc \<noteq> 0"
    then have r: "var_env (var_at lil p) = rootenv lil" "val \<noteq> None" "rc \<noteq> 0"
      and o: "local = LIL_SETVAR_LOCAL_ONLY \<Longrightarrow> rootenv lil = l_env lil"
      using glob env by auto
    show "lil_set_var P H lil name val local = Some (None, lil\<lparr>host := h\<rparr>)"
      using name found store r o a unfolding env
      by (cases local; cases val) (simp_all add: lil_set_var_def Let_def)
  }
qed

text \<open>
  In \<open>c6_lil\<close> the global \<open>x\<close> has the watch \<^verbatim>\<open>return 5\<close>; \<open>c6_local\<close> is the same interpreter inside
  a frame of its own, from which \<^verbatim>\<open>LIL_SETVAR_LOCAL_ONLY\<close> makes a local \<open>x\<close>.
\<close>

theorem C6_watch_runs_once_witness:
  "lil_find_var c6_lil (l_env c6_lil) ''x'' = Some (0, 0) \<and>
   var_w (var_at c6_lil (0, 0)) = Some ''return 5'' \<and>
   var_env (var_at c6_lil (0, 0)) = rootenv c6_lil \<and>
   env_set H0 (cstr ''x'') (lil_to_string (Some ''v'')) (host c6_lil) = (0, ()) \<and>
   lil_set_var (lil_parse 8 H0) H0 c6_lil ''x'' (Some ''v'') LIL_SETVAR_LOCAL =
     (case lil_parse 8 H0
             ((upd_var (0, 0) (\<lambda>x. x\<lparr>var_v := Some ''v''\<rparr>) (c6_lil\<lparr>host := ()\<rparr>))
                \<lparr>l_env := var_env (var_at c6_lil (0, 0))\<rparr>) ''return 5'' 0 True of
        None \<Rightarrow> None
      | Some (r, lil3) \<Rightarrow> Some (Some (0, 0), lil3\<lparr>l_env := l_env c6_lil\<rparr>)) \<and>
   lil_set_var (lil_parse 8 H0) H0 c6_lil ''x'' (Some ''v'') LIL_SETVAR_LOCAL_NEW =
     Some (append_var c6_lil (l_env c6_lil) ''x'' (Some ''v'')) \<and>
   lil_find_var c6_local (l_env c6_local) ''x'' = Some (0, 0) \<and> l_env c6_local = 1 \<and> rootenv c6_local = 0 \<and>
   lil_set_var watch_probe H0 c6_local ''x'' (Some ''v'') LIL_SETVAR_LOCAL_ONLY =
     Some (append_var c6_local 1 ''x'' (Some ''v''))"
proof -
  have a: "cstr ''x'' \<noteq> []" "lil_find_var c6_lil (l_env c6_lil) ''x'' = Some (0, 0)"
    "var_w (var_at c6_lil (0, 0)) = Some ''return 5''" "var_env (var_at c6_lil (0, 0)) = rootenv c6_lil"
    "env_set H0 (cstr ''x'') (lil_to_string (Some ''v'')) (host c6_lil) = (0, ())"
    by (simp_all add: eval_simps var_defs c6_lil_def H0_def cong: eval_congs)
  have b: "lil_find_var c6_local (l_env c6_local) ''x'' = Some (0, 0)"
    "var_w (var_at c6_local (0, 0)) = Some ''return 5''" "var_env (var_at c6_local (0, 0)) = rootenv c6_local"
    "env_set H0 (cstr ''x'') (lil_to_string (Some ''v'')) (host c6_local) = (0, ())"
    "l_env c6_local = 1" "rootenv c6_local = 0"
    by (simp_all add: eval_simps var_defs c6_lil_def c6_local_def H0_def cong: eval_congs)
  note A = C6_watch_runs_once [where lil = c6_lil and name = "''x''" and val = "Some ''v''"
      and local = LIL_SETVAR_LOCAL and env = "l_env c6_lil" and p = "(0, 0)" and h = "()" and rc = 0
      and w = "''return 5''" and P = "lil_parse 8 H0" and H = H0 and g = True]
  note B = C6_watch_runs_once [where lil = c6_local and name = "''x''" and val = "Some ''v''"
      and local = LIL_SETVAR_LOCAL_ONLY and env = "l_env c6_local" and p = "(0, 0)" and h = "()" and rc = 0
      and w = "''return 5''" and P = watch_probe and H = H0 and g = True]
  show ?thesis
    using A B a b by simp
qed

text \<open>
  The watch is not evaluated as a non-function fragment: the parser is handed \<^verbatim>\<open>funclevel = 1\<close>,
  so the \<^verbatim>\<open>return\<close> in the watch is consumed and both flags of the frame are clear after the
  assignment, while the same text parsed with \<^verbatim>\<open>funclevel = 0\<close> leaves them set.
\<close>

theorem C6_watch_counterexample:
  "err_msg (snd (the (lil_set_var watch_probe H0 c6_lil ''x'' (Some ''v'') LIL_SETVAR_LOCAL))) = Some ''funclevel'' \<and>
   breakrun (envs (snd (the (lil_set_var (lil_parse 8 H0) H0 c6_lil ''x'' (Some ''v'') LIL_SETVAR_LOCAL))) 0) = False \<and>
   retval_set (envs (snd (the (lil_set_var (lil_parse 8 H0) H0 c6_lil ''x'' (Some ''v'') LIL_SETVAR_LOCAL))) 0) = False \<and>
   breakrun (envs (snd (the (lil_parse 8 H0 c6_lil ''return 5'' 0 False))) 0) = True \<and>
   retval_set (envs (snd (the (lil_parse 8 H0 c6_lil ''return 5'' 0 False))) 0) = True"
  by (simp add: eval_simps var_defs c6_lil_def watch_probe_def H0_def cong: eval_congs)

end
